(* ===== verification/Prelude.thy ===== *)
theory Prelude
  imports Main "HOL-Library.AList" "HOL-Library.Char_ord" "HOL-Library.List_Lexorder"
    "HOL-Library.Sublist"
begin

text \<open>
  Prelude of the ch-image development: the exceptions of the Python code as a
  datatype, computations that may raise as sums, sequential composition of such
  computations, and Python dictionaries as association lists in insertion order.
  The collection \<open>res_simps\<close> holds the rules that take a composed computation
  apart; \<open>dict_simps\<close> the look-up rules of dictionaries.
\<close>

named_theorems res_simps "decomposition of computations that may raise"
named_theorems dict_simps "look-up rules for dictionaries"

section \<open>Exceptions and results\<close>

text \<open>
  The exceptions that cross function boundaries in the modelled code.
  \<open>Fatal\<close> is \<open>ch.Fatal_Error\<close>, raised by \<open>ch.FATAL\<close>; its
  argument is the constant part of the message's format string (interpolated
  values and typographic quotes are left out). The other constructors are the Python
  and Charliecloud exceptions of the same name; \<open>Re_Error\<close> is \<open>re.error\<close>.
  \<open>Unmodelled\<close> is no exception of the code: a definition returns it on the few inputs
  it does not translate, each named where it is used, so that it claims nothing there.
\<close>

datatype exn =
    Fatal string
  | Assertion_Error
  | Value_Error
  | Key_Error
  | Index_Error
  | Attribute_Error
  | Type_Error
  | Image_Unavailable_Error
  | No_Fatman_Error
  | Instruction_Ignored
  | Os_Error string
  | Re_Error
  | System_Exit int
  | Zero_Division_Error
  | Unmodelled string

type_synonym 'a res = "exn + 'a"

fun bindr :: "'e + 'a \<Rightarrow> ('a \<Rightarrow> 'e + 'b) \<Rightarrow> 'e + 'b" where
  "bindr (Inl e) f = Inl e"
| "bindr (Inr x) f = f x"

definition guard :: "bool \<Rightarrow> exn \<Rightarrow> unit res" where
  "guard b e = (if b then Inr () else Inl e)"

definition of_opt :: "exn \<Rightarrow> 'a option \<Rightarrow> 'a res" where
  "of_opt e x = (case x of None \<Rightarrow> Inl e | Some y \<Rightarrow> Inr y)"

fun is_ok :: "'e + 'a \<Rightarrow> bool" where
  "is_ok (Inl e) = False"
| "is_ok (Inr x) = True"

lemma bindr_Inr_iff [res_simps]: "bindr m f = Inr y \<longleftrightarrow> (\<exists>x. m = Inr x \<and> f x = Inr y)"
  by (cases m) auto

lemma bindr_Inl_iff [res_simps]:
  "bindr m f = Inl e \<longleftrightarrow> m = Inl e \<or> (\<exists>x. m = Inr x \<and> f x = Inl e)"
  by (cases m) auto

lemma bindr_assoc: "bindr (bindr m f) g = bindr m (\<lambda>x. bindr (f x) g)"
  by (cases m) auto

lemma bindr_Inr_right [simp]: "bindr m Inr = m"
  by (cases m) auto

lemma bindr_cong [fundef_cong]:
  "m = m' \<Longrightarrow> (\<And>x. m' = Inr x \<Longrightarrow> f x = g x) \<Longrightarrow> bindr m f = bindr m' g"
  by (cases m') auto

lemma guard_Inr_iff [res_simps]: "guard b e = Inr u \<longleftrightarrow> b"
  by (simp add: guard_def)

lemma guard_Inl_iff [res_simps]: "guard b e = Inl e' \<longleftrightarrow> \<not> b \<and> e = e'"
  by (auto simp: guard_def)

lemma guard_True [simp]: "guard True e = Inr ()"
  and guard_False [simp]: "guard False e = Inl e"
  by (simp_all add: guard_def)

lemma of_opt_Some [simp]: "of_opt e (Some x) = Inr x"
  and of_opt_None [simp]: "of_opt e None = Inl e"
  by (simp_all add: of_opt_def)

lemma of_opt_Inr_iff [res_simps]: "of_opt e x = Inr y \<longleftrightarrow> x = Some y"
  by (cases x) auto

lemma of_opt_Inl_iff [res_simps]: "of_opt e x = Inl e' \<longleftrightarrow> x = None \<and> e = e'"
  by (cases x) auto

section \<open>Loops over lists that may raise\<close>

fun mapr :: "('a \<Rightarrow> 'e + 'b) \<Rightarrow> 'a list \<Rightarrow> 'e + 'b list" where
  "mapr f [] = Inr []"
| "mapr f (x # xs) = bindr (f x) (\<lambda>y. bindr (mapr f xs) (\<lambda>ys. Inr (y # ys)))"

fun foldr_res :: "('a \<Rightarrow> 's \<Rightarrow> 'e + 's) \<Rightarrow> 'a list \<Rightarrow> 's \<Rightarrow> 'e + 's" where
  "foldr_res f [] s = Inr s"
| "foldr_res f (x # xs) s = bindr (f x s) (foldr_res f xs)"

lemma mapr_Inr_iff: "mapr f xs = Inr ys \<longleftrightarrow> list_all2 (\<lambda>x y. f x = Inr y) xs ys"
proof (induction xs arbitrary: ys)
  case (Cons x xs)
  then show ?case by (cases ys) (auto simp: res_simps)
qed auto

lemma mapr_pure [simp]: "mapr (\<lambda>x. Inr (f x)) xs = Inr (map f xs)"
  by (induction xs) auto

lemma mapr_Inr_id [simp]: "mapr Inr xs = Inr xs"
  using mapr_pure [of id xs] by (simp add: id_def)

lemma mapr_length: "mapr f xs = Inr ys \<Longrightarrow> length ys = length xs"
  by (simp add: mapr_Inr_iff list_all2_lengthD)

lemma foldr_res_append:
  "foldr_res f (xs @ ys) s = bindr (foldr_res f xs s) (foldr_res f ys)"
proof (induction xs arbitrary: s)
  case (Cons x xs)
  have "foldr_res f (xs @ ys) = (\<lambda>s. bindr (foldr_res f xs s) (foldr_res f ys))"
    using Cons.IH by (rule ext)
  then show ?case by (simp add: bindr_assoc)
qed auto

lemma foldr_res_invariant:
  assumes "foldr_res f xs s = Inr t" and "P s"
    and "\<And>x s t. x \<in> set xs \<Longrightarrow> P s \<Longrightarrow> f x s = Inr t \<Longrightarrow> P t"
  shows "P t"
  using assms by (induction xs arbitrary: s) (auto simp: res_simps)

lemma foldr_res_pure [simp]: "foldr_res (\<lambda>x s. Inr (f x s)) xs s = Inr (fold f xs s)"
  by (induction xs arbitrary: s) auto

section \<open>Dictionaries\<close>

text \<open>
  A Python dictionary is an association list with distinct keys, in insertion order.
  \<open>d[k] = v\<close> is \<open>AList.update\<close>, which replaces in place or appends,
  \<open>del d[k]\<close> is \<open>AList.delete\<close>, and \<open>d.update(e)\<close> is
  \<open>dict_update\<close>.
\<close>

type_synonym ('k, 'v) dict = "('k \<times> 'v) list"

definition dict_update :: "('k \<times> 'v) list \<Rightarrow> ('k \<times> 'v) list \<Rightarrow> ('k \<times> 'v) list" where
  "dict_update d e = fold (\<lambda>(k, v). AList.update k v) e d"

definition dict_ok :: "('k \<times> 'v) list \<Rightarrow> bool" where
  "dict_ok d \<longleftrightarrow> distinct (map fst d)"

lemma dict_ok_Nil [simp]: "dict_ok []"
  by (simp add: dict_ok_def)

lemma dict_ok_update [simp]: "dict_ok d \<Longrightarrow> dict_ok (AList.update k v d)"
  by (simp add: dict_ok_def distinct_update)

lemma dict_ok_delete [simp]: "dict_ok d \<Longrightarrow> dict_ok (AList.delete k d)"
  by (simp add: dict_ok_def distinct_delete)

lemma dict_ok_dict_update [simp]: "dict_ok d \<Longrightarrow> dict_ok (dict_update d e)"
  unfolding dict_update_def
  by (induction e arbitrary: d) (auto split: prod.splits)

lemma dict_get_update [dict_simps]:
  "map_of (AList.update k v d) = (map_of d)(k \<mapsto> v)"
  by (simp add: update_conv')

lemma dict_get_delete [dict_simps]:
  "map_of (AList.delete k d) = (map_of d)(k := None)"
  by (simp add: delete_conv')

lemma dict_get_dict_update [dict_simps]:
  "dict_ok e \<Longrightarrow> map_of (dict_update d e) = map_of d ++ map_of e"
proof (induction e arbitrary: d)
  case Nil
  then show ?case by (simp add: dict_update_def)
next
  case (Cons p e)
  obtain k v where p: "p = (k, v)" by (cases p)
  with Cons.prems have "k \<notin> dom (map_of e)" and e: "dict_ok e"
    by (auto simp: dict_ok_def dom_map_of_conv_image_fst)
  then have shift: "(map_of d)(k \<mapsto> v) ++ map_of e = map_of d ++ map_of (p # e)"
    by (auto simp: p map_add_def fun_eq_iff split: option.splits)
  have "map_of (dict_update (AList.update k v d) e) = (map_of d)(k \<mapsto> v) ++ map_of e"
    using Cons.IH [OF e, of "AList.update k v d"] by (simp only: dict_simps)
  moreover have "dict_update d (p # e) = dict_update (AList.update k v d) e"
    by (simp add: dict_update_def p)
  ultimately show ?case using shift by (simp only:)
qed

end
