(* ===== verification/Trees.thy ===== *)
theory Trees
  imports Prelude
begin

text \<open>
  Parse trees: the class \<open>Tree\<close> of \<open>lib/image.py\<close>, which the Dockerfile and the
  image-reference code read their input from. The parser generator Lark is not part of
  the sources; of its tree class the code uses the iterator over subtrees, which is the
  argument \<open>walk\<close> of the definitions. Lemmas: a look-up by name does not depend on
  the order of the walk when the name occurs once.
\<close>

datatype tree = Tree string "tree list" | Token string string \<comment> \<open>type, value\<close>

fun tree_data :: "tree \<Rightarrow> string" where
  "tree_data (Tree d ts) = d"
| "tree_data (Token ty v) = []"

fun tree_children :: "tree \<Rightarrow> tree list" where
  "tree_children (Tree d ts) = ts"
| "tree_children (Token ty v) = []"

type_synonym walk = "tree \<Rightarrow> tree list"

definition terminals :: "string \<Rightarrow> tree \<Rightarrow> string list" where
  "terminals tname t =
     concat (map (\<lambda>c. case c of Token ty v \<Rightarrow> if ty = tname then [v] else [] | Tree d ts \<Rightarrow> [])
       (tree_children t))"

definition terminal :: "string \<Rightarrow> nat \<Rightarrow> tree \<Rightarrow> string option" where
  "terminal tname i t = (let vs = terminals tname t in if i < length vs then Some (vs ! i) else None)"

definition terminals_cat :: "string \<Rightarrow> tree \<Rightarrow> string" where
  "terminals_cat tname t = concat (terminals tname t)"

definition children_named :: "walk \<Rightarrow> string \<Rightarrow> tree \<Rightarrow> tree list" where
  "children_named walk cname t = filter (\<lambda>st. tree_data st = cname) (walk t)"

definition child :: "walk \<Rightarrow> string \<Rightarrow> tree \<Rightarrow> tree option" where
  "child walk cname t =
     (case children_named walk cname t of [] \<Rightarrow> None | st # _ \<Rightarrow> Some st)"

definition child_terminal :: "walk \<Rightarrow> string \<Rightarrow> string \<Rightarrow> nat \<Rightarrow> tree \<Rightarrow> string option" where
  "child_terminal walk cname tname i t =
     (case child walk cname t of None \<Rightarrow> None | Some st \<Rightarrow> terminal tname i st)"

definition child_terminals :: "walk \<Rightarrow> string \<Rightarrow> string \<Rightarrow> tree \<Rightarrow> string list" where
  "child_terminals walk cname tname t =
     (case List.find (\<lambda>d. tree_data d = cname) (walk t) of
        None \<Rightarrow> [] | Some d \<Rightarrow> terminals tname d)"

definition child_terminals_cat :: "walk \<Rightarrow> string \<Rightarrow> string \<Rightarrow> tree \<Rightarrow> string" where
  "child_terminals_cat walk cname tname t = concat (child_terminals walk cname tname t)"

section \<open>Walks\<close>

text \<open>
  Lark documents the iterator as one over all the subtrees, from the root down. The
  subtrees of a tree, in the order in which they are written, are one such walk.
\<close>

fun subtrees :: "tree \<Rightarrow> tree list" where
  "subtrees (Token ty v) = []"
| "subtrees (Tree d ts) = Tree d ts # concat (map subtrees ts)"

definition walk_ok :: "walk \<Rightarrow> bool" where
  "walk_ok walk \<longleftrightarrow> (\<forall>t. set (walk t) = set (subtrees t))"

lemma walk_ok_subtrees: "walk_ok subtrees"
  by (simp add: walk_ok_def)

lemma child_unique:
  assumes "walk_ok walk" "\<And>st. st \<in> set (subtrees t) \<Longrightarrow> tree_data st = cname \<Longrightarrow> st = u"
    and "u \<in> set (subtrees t)" "tree_data u = cname"
  shows "child walk cname t = Some u"
proof -
  have m: "v \<in> set (children_named walk cname t) \<longleftrightarrow> v \<in> set (subtrees t) \<and> tree_data v = cname" for v
    using assms(1) by (auto simp: children_named_def walk_ok_def)
  have "u \<in> set (children_named walk cname t)" using m assms(3,4) by blast
  moreover have "\<forall>v \<in> set (children_named walk cname t). v = u" using m assms(2) by blast
  ultimately show ?thesis
    by (cases "children_named walk cname t") (simp_all add: child_def)
qed

lemma child_absent:
  assumes "walk_ok walk" "\<And>st. st \<in> set (subtrees t) \<Longrightarrow> tree_data st \<noteq> cname"
  shows "child walk cname t = None"
proof -
  have "children_named walk cname t = []"
    using assms by (simp add: children_named_def walk_ok_def filter_empty_conv)
  then show ?thesis by (simp add: child_def)
qed

lemma child_terminals_child:
  "child_terminals walk cname tname t =
     (case child walk cname t of None \<Rightarrow> [] | Some d \<Rightarrow> terminals tname d)"
proof -
  have "List.find P xs = (case filter P xs of [] \<Rightarrow> None | x # _ \<Rightarrow> Some x)" for P and xs :: "tree list"
    by (induction xs) auto
  then show ?thesis
    by (simp add: child_terminals_def child_def children_named_def split: list.split)
qed

lemma subtrees_tokens: "concat (map subtrees (map (Token ty) vs)) = []"
  by (induction vs) auto

lemma terminals_tokens: "terminals ty (Tree d (map (Token ty) vs)) = vs"
  by (induction vs) (auto simp: terminals_def)

lemma flat_child:
  assumes "walk_ok walk" "\<forall>x \<in> set cs. subtrees x = [x]" "c \<noteq> r" "c \<noteq> q"
    and "filter (\<lambda>x. tree_data x = c) cs = (case u of None \<Rightarrow> [] | Some v \<Rightarrow> [v])"
  shows "child walk c (Tree r [Tree q cs]) = u"
proof -
  have "concat (map subtrees cs) = cs" using assms(2) by (induction cs) auto
  then have s: "set (subtrees (Tree r [Tree q cs])) = {Tree r [Tree q cs], Tree q cs} \<union> set cs" by auto
  have f: "x \<in> set cs \<and> tree_data x = c \<longleftrightarrow> u = Some x" for x
  proof -
    have "x \<in> set cs \<and> tree_data x = c \<longleftrightarrow> x \<in> set (filter (\<lambda>x. tree_data x = c) cs)" by auto
    also have "\<dots> \<longleftrightarrow> u = Some x" unfolding assms(5) by (cases u) auto
    finally show ?thesis .
  qed
  show ?thesis
  proof (cases u)
    case None
    have "child walk c (Tree r [Tree q cs]) = None"
    proof (rule child_absent [OF assms(1)])
      fix st assume "st \<in> set (subtrees (Tree r [Tree q cs]))"
      then have "st \<in> {Tree r [Tree q cs], Tree q cs} \<union> set cs" unfolding s .
      with f [of st] None assms(3,4) show "tree_data st \<noteq> c" by auto
    qed
    then show ?thesis using None by simp
  next
    case (Some v)
    have "child walk c (Tree r [Tree q cs]) = Some v"
    proof (rule child_unique [OF assms(1)])
      have "v \<in> set cs \<and> tree_data v = c" using f [of v] Some by simp
      then show "v \<in> set (subtrees (Tree r [Tree q cs]))" "tree_data v = c" unfolding s by auto
      fix st assume "st \<in> set (subtrees (Tree r [Tree q cs]))" and c: "tree_data st = c"
      then have "st \<in> {Tree r [Tree q cs], Tree q cs} \<union> set cs" unfolding s by blast
      with f [of st] c Some assms(3,4) show "st = v" by auto
    qed
    then show ?thesis using Some by simp
  qed
qed

end
