(* ===== verification/Pystr.thy ===== *)
theory Pystr
  imports Prelude
begin

text \<open>
  The methods of Python's \<open>str\<close> that the modelled code uses, on HOL strings (lists
  of 8-bit characters, so text is ASCII or Latin-1), and their round-trip laws. Each
  function is named after the Python method.
\<close>

abbreviation backslash :: char where "backslash \<equiv> CHR 0x5C"
abbreviation newline :: char where "newline \<equiv> CHR 0x0A"
abbreviation tab :: char where "tab \<equiv> CHR 0x09"
abbreviation dquote :: char where "dquote \<equiv> CHR 0x22"
abbreviation squote :: char where "squote \<equiv> CHR 0x27"

section \<open>Character classes\<close>

definition in_range :: "char \<Rightarrow> char \<Rightarrow> char \<Rightarrow> bool" where
  "in_range lo hi c \<longleftrightarrow> (of_char lo :: nat) \<le> of_char c \<and> (of_char c :: nat) \<le> of_char hi"

definition is_digit :: "char \<Rightarrow> bool" where "is_digit = in_range CHR ''0'' CHR ''9''"
definition is_lower :: "char \<Rightarrow> bool" where "is_lower = in_range CHR ''a'' CHR ''z''"
definition is_upper :: "char \<Rightarrow> bool" where "is_upper = in_range CHR ''A'' CHR ''Z''"
definition is_alnum :: "char \<Rightarrow> bool" where
  "is_alnum c \<longleftrightarrow> is_digit c \<or> is_lower c \<or> is_upper c"
definition is_word :: "char \<Rightarrow> bool" where \<comment> \<open>\<open>\w\<close>\<close>
  "is_word c \<longleftrightarrow> is_alnum c \<or> c = CHR ''_''"
definition is_hex :: "char \<Rightarrow> bool" where
  "is_hex c \<longleftrightarrow> is_digit c \<or> in_range CHR ''a'' CHR ''f'' c \<or> in_range CHR ''A'' CHR ''F'' c"
definition is_space :: "char \<Rightarrow> bool" where \<comment> \<open>\<open>str.isspace\<close>, \<open>\s\<close>\<close>
  "is_space c \<longleftrightarrow> c \<in> set [CHR '' '', CHR 0x09, CHR 0x0A, CHR 0x0B, CHR 0x0C, CHR 0x0D,
     CHR 0x1C, CHR 0x1D, CHR 0x1E, CHR 0x1F, CHR 0x85, CHR 0xA0]"

definition to_lower :: "char \<Rightarrow> char" where
  "to_lower c = (if is_upper c then char_of (of_char c + 32 :: nat) else c)"
definition to_upper :: "char \<Rightarrow> char" where
  "to_upper c = (if is_lower c then char_of (of_char c - 32 :: nat) else c)"

lemmas char_class_defs =
  is_digit_def is_lower_def is_upper_def is_alnum_def is_word_def is_hex_def is_space_def
  in_range_def

section \<open>Splitting and joining\<close>

fun split_on :: "char \<Rightarrow> string \<Rightarrow> string list" where
  "split_on c [] = [[]]"
| "split_on c (x # xs) =
     (if x = c then [] # split_on c xs
      else case split_on c xs of [] \<Rightarrow> [[x]] | y # ys \<Rightarrow> (x # y) # ys)"

fun join :: "string \<Rightarrow> string list \<Rightarrow> string" where
  "join sep [] = []"
| "join sep [x] = x"
| "join sep (x # y # zs) = x @ sep @ join sep (y # zs)"

definition partition_on :: "char \<Rightarrow> string \<Rightarrow> string \<times> string \<times> string" where
  "partition_on c s =
     (let a = takeWhile (\<lambda>x. x \<noteq> c) s
      in if c \<in> set s then (a, [c], drop (Suc (length a)) s) else (a, [], []))"

definition rpartition_on :: "char \<Rightarrow> string \<Rightarrow> string \<times> string \<times> string" where
  "rpartition_on c s =
     (if c \<in> set s
      then let b = rev (takeWhile (\<lambda>x. x \<noteq> c) (rev s))
           in (take (length s - Suc (length b)) s, [c], b)
      else ([], [], s))"

text \<open>\<open>s.split(c, maxsplit=1)\<close>: one or two parts.\<close>

definition split1 :: "char \<Rightarrow> string \<Rightarrow> string list" where
  "split1 c s = (case partition_on c s of (a, sep, b) \<Rightarrow> if sep = [] then [a] else [a, b])"

definition rsplit1 :: "char \<Rightarrow> string \<Rightarrow> string list" where
  "rsplit1 c s = (case rpartition_on c s of (a, sep, b) \<Rightarrow> if sep = [] then [b] else [a, b])"

text \<open>\<open>s.split()\<close>: split on runs of white space, dropping empty parts.\<close>

fun split_ws_acc :: "string \<Rightarrow> string \<Rightarrow> string list" where
  "split_ws_acc w [] = (if w = [] then [] else [rev w])"
| "split_ws_acc w (c # s) =
     (if is_space c then (if w = [] then split_ws_acc [] s else rev w # split_ws_acc [] s)
      else split_ws_acc (c # w) s)"

definition split_ws :: "string \<Rightarrow> string list" where
  "split_ws s = split_ws_acc [] s"

definition rstrip :: "char \<Rightarrow> string \<Rightarrow> string" where
  "rstrip c s = rev (dropWhile (\<lambda>x. x = c) (rev s))"

definition strip_ws :: "string \<Rightarrow> string" where
  "strip_ws s = rev (dropWhile is_space (rev (dropWhile is_space s)))"

definition replace_char :: "char \<Rightarrow> char \<Rightarrow> string \<Rightarrow> string" where
  "replace_char a b s = map (\<lambda>x. if x = a then b else x) s"

text \<open>\<open>s.replace(old, new)\<close> for a non-empty \<open>old\<close>.\<close>

function replace_str :: "string \<Rightarrow> string \<Rightarrow> string \<Rightarrow> string" where
  "replace_str old new s =
     (if old = [] \<or> s = [] then s
      else if prefix old s then new @ replace_str old new (drop (length old) s)
      else hd s # replace_str old new (tl s))"
  by pat_completeness auto
termination
  by (relation "measure (\<lambda>(old, new, s). length s)") auto

declare replace_str.simps [simp del]

section \<open>Numbers\<close>

fun str_of_nat :: "nat \<Rightarrow> string" where
  "str_of_nat n =
     (if n < 10 then [char_of (48 + n)]
      else str_of_nat (n div 10) @ [char_of (48 + n mod 10)])"

declare str_of_nat.simps [simp del]

definition str_of_int :: "int \<Rightarrow> string" where
  "str_of_int i = (if i < 0 then CHR ''-'' # str_of_nat (nat (- i)) else str_of_nat (nat i))"

definition digit_val :: "char \<Rightarrow> nat" where
  "digit_val c = of_char c - 48"

definition nat_of_digits :: "string \<Rightarrow> nat" where
  "nat_of_digits s = foldl (\<lambda>n c. 10 * n + digit_val c) 0 s"

text \<open>
  \<open>int(s)\<close>: surrounding white space, an optional sign, digits, with single
  underscores allowed between digits; \<open>None\<close> is \<open>ValueError\<close>.
\<close>

definition digits_ok :: "string \<Rightarrow> bool" where
  "digits_ok s \<longleftrightarrow> (\<forall>p \<in> set (split_on CHR ''_'' s). p \<noteq> [] \<and> list_all is_digit p)"

definition unsigned_val :: "string \<Rightarrow> int option" where
  "unsigned_val s =
     (if digits_ok s then Some (int (nat_of_digits (filter is_digit s))) else None)"

definition py_int :: "string \<Rightarrow> int option" where
  "py_int s =
     (case strip_ws s of
        [] \<Rightarrow> None
      | c # t \<Rightarrow>
          (if c = CHR ''-'' then map_option uminus (unsigned_val t)
           else if c = CHR ''+'' then unsigned_val t
           else unsigned_val (c # t)))"

section \<open>Laws\<close>

lemma split_on_nonempty [simp]: "split_on c s \<noteq> []"
  by (induction s) (auto split: list.splits)

lemma split_on_no_sep: "c \<notin> set s \<Longrightarrow> split_on c s = [s]"
  by (induction s) auto

lemma split_on_parts: "p \<in> set (split_on c s) \<Longrightarrow> c \<notin> set p"
proof (induction s arbitrary: p)
  case (Cons x s)
  obtain y ys where "split_on c s = y # ys" by (cases "split_on c s") auto
  with Cons show ?case by (auto split: if_splits)
qed simp

lemma split_on_append:
  "c \<notin> set a \<Longrightarrow> split_on c (a @ c # b) = a # split_on c b"
  by (induction a) auto

lemma join_Cons: "xs \<noteq> [] \<Longrightarrow> join sep (x # xs) = x @ sep @ join sep xs"
  by (cases xs) auto

lemma join_append:
  "xs \<noteq> [] \<Longrightarrow> ys \<noteq> [] \<Longrightarrow> join sep (xs @ ys) = join sep xs @ sep @ join sep ys"
  by (induction xs rule: induct_list012) (auto simp: join_Cons)

lemma join_split_on: "join [c] (split_on c s) = s"
proof (induction s)
  case (Cons x s)
  obtain y ys where sp: "split_on c s = y # ys" by (cases "split_on c s") auto
  with Cons show ?case by (cases ys) auto
qed simp

lemma split_on_join:
  "xs \<noteq> [] \<Longrightarrow> \<forall>x \<in> set xs. c \<notin> set x \<Longrightarrow> split_on c (join [c] xs) = xs"
  by (induction "[c]" xs rule: join.induct) (auto simp: split_on_no_sep split_on_append)

lemma partition_on_no_sep: "c \<notin> set s \<Longrightarrow> partition_on c s = (s, [], [])"
  by (auto simp: partition_on_def Let_def takeWhile_eq_all_conv)

lemma partition_on_append:
  "c \<notin> set a \<Longrightarrow> partition_on c (a @ c # b) = (a, [c], b)"
proof -
  assume a: "c \<notin> set a"
  then have "takeWhile (\<lambda>x. x \<noteq> c) (a @ c # b) = a"
    by (subst takeWhile_append2) auto
  then show ?thesis by (simp add: partition_on_def)
qed

lemma split1_append: "c \<notin> set a \<Longrightarrow> split1 c (a @ c # b) = [a, b]"
  by (simp add: split1_def partition_on_append)

lemma split1_no_sep: "c \<notin> set s \<Longrightarrow> split1 c s = [s]"
  by (simp add: split1_def partition_on_no_sep)

lemma rpartition_on_no_sep: "c \<notin> set s \<Longrightarrow> rpartition_on c s = ([], [], s)"
  by (simp add: rpartition_on_def)

lemma rpartition_on_append:
  assumes "c \<notin> set b"
  shows "rpartition_on c (a @ c # b) = (a, [c], b)"
proof -
  have "takeWhile (\<lambda>x. x \<noteq> c) (rev (a @ c # b)) = rev b"
    using assms by (simp, subst takeWhile_append2) auto
  then show ?thesis by (simp add: rpartition_on_def Let_def)
qed

lemma rstrip_idem [simp]: "rstrip c (rstrip c s) = rstrip c s"
proof -
  have "dropWhile P (dropWhile P xs) = dropWhile P xs" for P and xs :: string
    by (induction xs) auto
  then show ?thesis by (simp add: rstrip_def)
qed

lemma rstrip_snoc [simp]:
  "rstrip c (s @ [x]) = (if x = c then rstrip c s else s @ [x])"
  by (simp add: rstrip_def)

lemma rstrip_Nil [simp]: "rstrip c [] = []"
  by (simp add: rstrip_def)

lemma replace_char_inverse:
  "b \<notin> set s \<Longrightarrow> replace_char b a (replace_char a b s) = s"
  by (auto simp: replace_char_def o_def intro!: map_idI)

lemma replace_char_absent: "a \<notin> set s \<Longrightarrow> replace_char a b s = s"
  by (auto simp: replace_char_def intro!: map_idI)

lemma set_replace_char:
  "a \<noteq> b \<Longrightarrow> a \<notin> set (replace_char a b s)"
  by (auto simp: replace_char_def)

section \<open>Decimal numbers\<close>

lemma is_digit_char: "d < 10 \<Longrightarrow> is_digit (char_of (48 + d :: nat))"
  by (simp add: is_digit_def in_range_def)

lemma digit_val_char: "d < 10 \<Longrightarrow> digit_val (char_of (48 + d :: nat)) = d"
  by (simp add: digit_val_def)

lemma str_of_nat_nonempty [simp]: "str_of_nat n \<noteq> []"
  by (subst str_of_nat.simps) simp

lemma str_of_nat_digits: "list_all is_digit (str_of_nat n)"
proof (induction n rule: str_of_nat.induct)
  case (1 n)
  show ?case
  proof (cases "n < 10")
    case True
    then show ?thesis by (subst str_of_nat.simps) (simp add: is_digit_char)
  next
    case False
    with 1 show ?thesis by (subst str_of_nat.simps) (simp add: is_digit_char)
  qed
qed

lemma nat_of_digits_snoc: "nat_of_digits (s @ [c]) = 10 * nat_of_digits s + digit_val c"
  by (simp add: nat_of_digits_def)

lemma nat_of_digits_str_of_nat: "nat_of_digits (str_of_nat n) = n"
proof (induction n rule: str_of_nat.induct)
  case (1 n)
  show ?case
  proof (cases "n < 10")
    case True
    then show ?thesis
      by (subst str_of_nat.simps) (simp add: nat_of_digits_def digit_val_char)
  next
    case False
    with 1 show ?thesis
      by (subst str_of_nat.simps) (simp add: nat_of_digits_snoc digit_val_char)
  qed
qed

lemma is_digit_not_special:
  "is_digit c \<Longrightarrow> c \<noteq> CHR ''_'' \<and> c \<noteq> CHR ''-'' \<and> c \<noteq> CHR ''+'' \<and> \<not> is_space c"
  by (auto simp: is_digit_def in_range_def is_space_def)

lemma strip_ws_digits:
  assumes "list_all is_digit s" shows "strip_ws s = s"
proof -
  have "dropWhile is_space t = t" if "list_all is_digit t" for t
    using that is_digit_not_special by (cases t) auto
  then show ?thesis using assms by (simp add: strip_ws_def)
qed

lemma py_int_digits:
  assumes "list_all is_digit s" and "s \<noteq> []"
  shows "py_int s = Some (int (nat_of_digits s))"
proof -
  obtain c t where s: "s = c # t" using assms(2) by (cases s) auto
  have "\<forall>x \<in> set s. is_digit x \<and> x \<noteq> CHR ''_''"
    using assms(1) is_digit_not_special by (auto simp: list_all_iff)
  then have "CHR ''_'' \<notin> set s" and "filter is_digit s = s"
    by (auto simp: filter_id_conv)
  then have "unsigned_val s = Some (int (nat_of_digits s))"
    using assms by (simp add: unsigned_val_def digits_ok_def split_on_no_sep)
  then show ?thesis
    using assms is_digit_not_special [of c] by (simp add: py_int_def strip_ws_digits s)
qed

lemma py_int_str_of_nat: "py_int (str_of_nat n) = Some (int n)"
  by (simp add: py_int_digits str_of_nat_digits nat_of_digits_str_of_nat)

lemma replace_str_single:
  "replace_str [c] w s = concat (map (\<lambda>x. if x = c then w else [x]) s)"
proof (induction s)
  case Nil
  show ?case by (subst replace_str.simps) simp
next
  case (Cons x s)
  then show ?case by (subst replace_str.simps) auto
qed

lemma replace_str_single_absent: "c \<notin> set s \<Longrightarrow> replace_str [c] w s = s"
  unfolding replace_str_single by (induction s) auto

end
