(* ===== verification/Regex.thy ===== *)
theory Regex
  imports Pystr
begin

text \<open>
  The part of Python's \<open>re\<close> module that the modelled code uses: a datatype of
  patterns and a backtracking matcher that returns all ways to match, in the order the
  engine tries them (so the head is the match Python reports), with captured groups.
  Each pattern literal of the source is written as a term of this datatype where it is
  used. \<open>re_search\<close>, \<open>finditer\<close>, \<open>re_sub\<close> and \<open>re_split\<close> are
  \<open>re.search\<close>, \<open>re.finditer\<close>, \<open>re.sub\<close> and
  \<open>re.split\<close>.
\<close>

section \<open>Patterns\<close>

datatype re =
    Eps
  | Cls "char \<Rightarrow> bool"            \<comment> \<open>one character of a class\<close>
  | Seq re re
  | Alt re re
  | Many re                           \<comment> \<open>\<open>r*\<close>, greedy\<close>
  | Lazy re                           \<comment> \<open>\<open>r*?\<close>, lazy\<close>
  | Grp nat re                        \<comment> \<open>capturing group\<close>
  | Ahead re                          \<comment> \<open>\<open>(?=r)\<close>\<close>
  | Not_Ahead re                      \<comment> \<open>\<open>(?!r)\<close>\<close>
  | Not_Behind "char \<Rightarrow> bool"     \<comment> \<open>\<open>(?<!c)\<close>, one character\<close>
  | Bol                               \<comment> \<open>\<open>^\<close>\<close>
  | Eol                               \<comment> \<open>\<open>$\<close>\<close>
  | Word_Boundary                     \<comment> \<open>\<open>\b\<close>\<close>

fun Lit :: "string \<Rightarrow> re" where
  "Lit [] = Eps"
| "Lit [c] = Cls (\<lambda>x. x = c)"
| "Lit (c # d # s) = Seq (Cls (\<lambda>x. x = c)) (Lit (d # s))"

fun Seqs :: "re list \<Rightarrow> re" where
  "Seqs [] = Eps"
| "Seqs [r] = r"
| "Seqs (r # q # rs) = Seq r (Seqs (q # rs))"

definition Many1 :: "re \<Rightarrow> re" where "Many1 r = Seq r (Many r)"          \<comment> \<open>\<open>r+\<close>\<close>
definition Lazy1 :: "re \<Rightarrow> re" where "Lazy1 r = Seq r (Lazy r)"          \<comment> \<open>\<open>r+?\<close>\<close>
definition Opt :: "re \<Rightarrow> re" where "Opt r = Alt r Eps"                   \<comment> \<open>\<open>r?\<close>\<close>
definition Any :: re where "Any = Cls (\<lambda>c. c \<noteq> newline)"             \<comment> \<open>\<open>.\<close>\<close>

section \<open>Matching\<close>

type_synonym caps = "(nat \<times> nat \<times> nat) list" \<comment> \<open>group, start, end\<close>
type_synonym mstate = "nat \<times> caps"

definition char_at :: "string \<Rightarrow> nat \<Rightarrow> char option" where
  "char_at s i = (if i < length s then Some (s ! i) else None)"

definition word_at :: "string \<Rightarrow> nat \<Rightarrow> bool" where
  "word_at s i = (case char_at s i of None \<Rightarrow> False | Some c \<Rightarrow> is_word c)"

text \<open>
  Repetition with a bound on the number of rounds. A round that consumes nothing is cut
  off, so the number of remaining characters is always enough.
\<close>

fun rep :: "bool \<Rightarrow> nat \<Rightarrow> (mstate \<Rightarrow> mstate list) \<Rightarrow> mstate \<Rightarrow> mstate list" where
  "rep greedy 0 f st = [st]"
| "rep greedy (Suc n) f st =
     (let more = concat (map (\<lambda>st'. if fst st' = fst st then [] else rep greedy n f st') (f st))
      in if greedy then more @ [st] else st # more)"

primrec matches :: "re \<Rightarrow> string \<Rightarrow> mstate \<Rightarrow> mstate list" where
  "matches Eps s st = [st]"
| "matches (Cls p) s st =
     (case char_at s (fst st) of None \<Rightarrow> []
      | Some c \<Rightarrow> if p c then [(Suc (fst st), snd st)] else [])"
| "matches (Seq r q) s st = concat (map (matches q s) (matches r s st))"
| "matches (Alt r q) s st = matches r s st @ matches q s st"
| "matches (Many r) s st = rep True (length s - fst st) (matches r s) st"
| "matches (Lazy r) s st = rep False (length s - fst st) (matches r s) st"
| "matches (Grp k r) s st =
     map (\<lambda>(j, cs). (j, AList.update k (fst st, j) cs)) (matches r s st)"
| "matches (Ahead r) s st = (if matches r s st = [] then [] else [st])"
| "matches (Not_Ahead r) s st = (if matches r s st = [] then [st] else [])"
| "matches (Not_Behind p) s st =
     (if fst st > 0 \<and> (case char_at s (fst st - 1) of None \<Rightarrow> False | Some c \<Rightarrow> p c)
      then [] else [st])"
| "matches Bol s st = (if fst st = 0 then [st] else [])"
| "matches Eol s st =
     (if fst st = length s \<or> (Suc (fst st) = length s \<and> s ! fst st = newline) then [st] else [])"
| "matches Word_Boundary s st =
     (if (fst st > 0 \<and> word_at s (fst st - 1)) \<noteq> word_at s (fst st) then [st] else [])"

section \<open>The functions of the module\<close>

type_synonym match = "nat \<times> nat \<times> caps" \<comment> \<open>start, end, groups\<close>

definition match_at :: "re \<Rightarrow> string \<Rightarrow> nat \<Rightarrow> match option" where
  "match_at r s i = (case matches r s (i, []) of [] \<Rightarrow> None | (j, cs) # _ \<Rightarrow> Some (i, j, cs))"

fun first_match :: "re \<Rightarrow> string \<Rightarrow> nat list \<Rightarrow> match option" where
  "first_match r s [] = None"
| "first_match r s (i # is) =
     (case match_at r s i of None \<Rightarrow> first_match r s is | Some m \<Rightarrow> Some m)"

definition search_from :: "re \<Rightarrow> string \<Rightarrow> nat \<Rightarrow> match option" where
  "search_from r s i = first_match r s [i ..< Suc (length s)]"

definition re_search :: "re \<Rightarrow> string \<Rightarrow> match option" where
  "re_search r s = search_from r s 0"

definition search_p :: "re \<Rightarrow> string \<Rightarrow> bool" where
  "search_p r s \<longleftrightarrow> re_search r s \<noteq> None"

text \<open>
  Successive matches. The next search starts where the last match ended (one further
  after an empty match); no pattern of the modelled code matches the empty string. The
  bound is the number of positions.
\<close>

fun finditer_fuel :: "nat \<Rightarrow> re \<Rightarrow> string \<Rightarrow> nat \<Rightarrow> match list" where
  "finditer_fuel 0 r s i = []"
| "finditer_fuel (Suc n) r s i =
     (case search_from r s i of
        None \<Rightarrow> []
      | Some (a, b, cs) \<Rightarrow> (a, b, cs) # finditer_fuel n r s (if b = a then Suc b else b))"

definition finditer :: "re \<Rightarrow> string \<Rightarrow> match list" where
  "finditer r s = finditer_fuel (Suc (length s)) r s 0"

definition slice :: "string \<Rightarrow> nat \<Rightarrow> nat \<Rightarrow> string" where
  "slice s i j = drop i (take j s)"

definition re_group :: "string \<Rightarrow> match \<Rightarrow> nat \<Rightarrow> string" where
  "re_group s m k =
     (case m of (a, b, cs) \<Rightarrow>
        if k = 0 then slice s a b
        else case map_of cs k of None \<Rightarrow> [] | Some (i, j) \<Rightarrow> slice s i j)"

fun sub_matches :: "string \<Rightarrow> (match \<Rightarrow> string) \<Rightarrow> nat \<Rightarrow> match list \<Rightarrow> string" where
  "sub_matches s f i [] = drop i s"
| "sub_matches s f i (m # ms) =
     slice s i (fst m) @ f m @ sub_matches s f (fst (snd m)) ms"

definition re_sub :: "re \<Rightarrow> (match \<Rightarrow> string) \<Rightarrow> string \<Rightarrow> string" where
  "re_sub r f s = sub_matches s f 0 (finditer r s)"

fun split_matches :: "string \<Rightarrow> nat \<Rightarrow> match list \<Rightarrow> string list" where
  "split_matches s i [] = [drop i s]"
| "split_matches s i (m # ms) = slice s i (fst m) # split_matches s (fst (snd m)) ms"

definition re_split :: "re \<Rightarrow> string \<Rightarrow> string list" where
  "re_split r s = split_matches s 0 (finditer r s)"

section \<open>Soundness of the bounds\<close>

text \<open>A match never moves backwards and never runs past the end of the text.\<close>

lemma rep_bounds:
  assumes "\<And>st st'. st' \<in> set (f st) \<Longrightarrow> fst st \<le> n \<Longrightarrow> fst st \<le> fst st' \<and> fst st' \<le> n"
    and "st' \<in> set (rep g k f st)" and "fst st \<le> n"
  shows "fst st \<le> fst st' \<and> fst st' \<le> n"
  using assms(2,3)
proof (induction k arbitrary: st)
  case (Suc k)
  then consider "st' = st"
    | st1 where "st1 \<in> set (f st)" and "st' \<in> set (rep g k f st1)"
    by (auto simp: Let_def split: if_splits)
  then show ?case
  proof cases
    case 2
    with assms(1) Suc.prems have "fst st \<le> fst st1" "fst st1 \<le> n" by auto
    with Suc.IH [OF 2(2)] show ?thesis by auto
  qed (use Suc.prems in auto)
qed auto

lemma matches_bounds:
  "st' \<in> set (matches r s st) \<Longrightarrow> fst st \<le> length s \<Longrightarrow>
     fst st \<le> fst st' \<and> fst st' \<le> length s"
proof (induction r arbitrary: st st')
  case (Many r)
  show ?case
    using rep_bounds [of "matches r s" "length s" st'] Many by (metis matches.simps(5))
next
  case (Lazy r)
  show ?case
    using rep_bounds [of "matches r s" "length s" st'] Lazy by (metis matches.simps(6))
next
  case (Seq r q)
  then obtain st1 where "st1 \<in> set (matches r s st)" and "st' \<in> set (matches q s st1)"
    by auto
  with Seq show ?case by (meson order_trans)
next
  case (Grp k r)
  from Grp.prems(1) obtain j cs where j: "(j, cs) \<in> set (matches r s st)" and "fst st' = j"
    by auto
  with Grp.IH [OF j] Grp.prems(2) show ?case by simp
qed (auto simp: char_at_def split: if_splits option.splits)

text \<open>
  More rounds than characters left do not change a repetition, so the bound used by
  \<open>matches\<close> loses nothing.
\<close>

lemma rep_enough:
  assumes f: "\<And>st st'. st' \<in> set (f st) \<Longrightarrow> fst st \<le> n \<Longrightarrow> fst st \<le> fst st' \<and> fst st' \<le> n"
    and "n - fst st \<le> k" and "fst st \<le> n"
  shows "rep g (n - fst st) f st = rep g k f st"
proof -
  have "rep g k1 f st = rep g k2 f st"
    if "n - fst st \<le> k1" "n - fst st \<le> k2" "fst st \<le> n" for k1 k2 st
    using that
  proof (induction "n - fst st" arbitrary: st k1 k2 rule: less_induct)
    case less
    have step: "(if fst st' = fst st then [] else rep g (k1 - 1) f st')
        = (if fst st' = fst st then [] else rep g (k2 - 1) f st')"
      if "st' \<in> set (f st)" for st'
    proof (cases "fst st' = fst st")
      case False
      with f [OF that] less.prems have "n - fst st' < n - fst st" and "fst st' \<le> n" by auto
      with less.hyps [of st'] less.prems show ?thesis by simp
    qed simp
    have none: "concat (map (\<lambda>st'. if fst st' = fst st then [] else h st') (f st)) = []"
      if "fst st = n" for h :: "mstate \<Rightarrow> mstate list"
    proof -
      have "fst st' = fst st" if "st' \<in> set (f st)" for st'
        using f [OF that] \<open>fst st = n\<close> by simp
      then show ?thesis by (auto simp: concat_eq_Nil_conv)
    qed
    define more where "more k = concat (map (\<lambda>st'. if fst st' = fst st then []
        else rep g (k - 1) f st') (f st))" for k
    have unfold: "rep g k f st = (if k = 0 then [st] else if g then more k @ [st] else st # more k)"
      for k by (cases k) (simp_all add: more_def Let_def cong: if_cong)
    have eq: "more k1 = more k2"
      unfolding more_def by (rule arg_cong [where f = concat], rule map_cong [OF refl], rule step)
    show ?case
    proof (cases "fst st = n")
      case True
      then have "more k = []" for k unfolding more_def by (rule none)
      then show ?thesis by (simp add: unfold)
    next
      case False
      with less.prems have "k1 \<noteq> 0" "k2 \<noteq> 0" by auto
      with eq show ?thesis by (simp add: unfold)
    qed
  qed
  from this [of st "n - fst st" k] assms show ?thesis by simp
qed

lemma first_match_bounds:
  "first_match r s is = Some (a, b, cs) \<Longrightarrow> \<forall>i \<in> set is. i \<le> length s \<Longrightarrow>
     a \<in> set is \<and> a \<le> b \<and> b \<le> length s"
proof (induction "is")
  case (Cons i "is")
  then show ?case
    using matches_bounds [of _ r s "(i, [])"]
    by (fastforce simp: match_at_def split: option.splits list.splits)
qed simp

lemma search_from_bounds:
  "search_from r s i = Some (a, b, cs) \<Longrightarrow> i \<le> a \<and> a \<le> b \<and> b \<le> length s"
  unfolding search_from_def by (drule first_match_bounds) auto

lemma first_match_None_iff:
  "first_match r s is = None \<longleftrightarrow> (\<forall>i \<in> set is. matches r s (i, []) = [])"
  by (induction "is") (auto simp: match_at_def split: option.splits list.splits)

lemma search_None_iff:
  "re_search r s = None \<longleftrightarrow> (\<forall>i \<le> length s. matches r s (i, []) = [])"
  by (auto simp: re_search_def search_from_def first_match_None_iff less_Suc_eq_le
      simp del: upt_Suc)

lemma sub_no_match: "re_search r s = None \<Longrightarrow> re_sub r f s = s"
  by (simp add: re_sub_def finditer_def re_search_def)

lemma split_no_match: "re_search r s = None \<Longrightarrow> re_split r s = [s]"
  by (simp add: re_split_def finditer_def re_search_def)

text \<open>A literal matches exactly where the text continues with it.\<close>

lemma matches_Lit:
  "i \<le> length s \<Longrightarrow>
   matches (Lit p) s (i, cs) = (if prefix p (drop i s) then [(i + length p, cs)] else [])"
proof (induction p arbitrary: i rule: Lit.induct)
  case (2 c)
  then show ?case
    by (auto simp: char_at_def Cons_nth_drop_Suc [symmetric])
next
  case (3 c d p)
  then show ?case
  proof (cases "i < length s")
    case True
    then have "drop i s = s ! i # drop (Suc i) s" by (simp add: Cons_nth_drop_Suc)
    with 3 True show ?thesis by (auto simp: char_at_def)
  qed (auto simp: char_at_def)
qed simp

text \<open>The first position where a pattern matches decides a search.\<close>

lemma search_from_first:
  assumes "i0 \<le> n" "n \<le> length s"
    and "\<And>i. i0 \<le> i \<Longrightarrow> i < n \<Longrightarrow> matches r s (i, []) = []"
    and "matches r s (n, []) = (j, cs) # rest"
  shows "search_from r s i0 = Some (n, j, cs)"
proof -
  have "first_match r s [i0 ..< n] = None"
    using assms(3) by (auto simp: first_match_None_iff)
  moreover have "first_match r s (xs @ ys) =
      (case first_match r s xs of None \<Rightarrow> first_match r s ys | Some m \<Rightarrow> Some m)" for xs ys
    by (induction xs) (auto split: option.splits)
  moreover have "[i0 ..< Suc (length s)] = [i0 ..< n] @ n # [Suc n ..< Suc (length s)]"
    using assms(1,2) upt_add_eq_append [of i0 n "Suc (length s) - n"] upt_conv_Cons [of n "Suc (length s)"]
    by (simp del: upt_Suc)
  moreover have "match_at r s n = Some (n, j, cs)"
    using assms(4) by (simp add: match_at_def)
  ultimately show ?thesis
    by (simp add: search_from_def del: upt_Suc)
qed

text \<open>A search that finds one match, with nothing to find behind it.\<close>

lemma finditer_one:
  assumes "re_search r s = Some (a, b, cs)" and "a < b" and "search_from r s b = None"
  shows "finditer r s = [(a, b, cs)]"
proof -
  have "b \<le> length s"
    using assms(1) search_from_bounds by (auto simp: re_search_def)
  with assms show ?thesis
    by (cases "length s") (auto simp: finditer_def re_search_def)
qed

lemma finditer_none: "re_search r s = None \<Longrightarrow> finditer r s = []"
  by (simp add: finditer_def re_search_def)

lemma matches_SeqE:
  assumes "st' \<in> set (matches (Seq r q) s st)"
  obtains st1 where "st1 \<in> set (matches r s st)" "st' \<in> set (matches q s st1)"
  using assms by auto

text \<open>First matches of repetitions, sequences and groups.\<close>

lemma rep_Cls:
  assumes "i \<le> length s" "length (takeWhile p (drop i s)) = n" "n \<le> k"
  shows "\<exists>ms. rep True k (matches (Cls p) s) (i, cs) = (i + n, cs) # ms"
  using assms
proof (induction n arbitrary: i k)
  case 0
  then have "matches (Cls p) s (i, cs) = []"
    by (cases "i < length s") (auto simp: char_at_def Cons_nth_drop_Suc [symmetric] split: if_splits)
  then show ?case by (cases k) auto
next
  case (Suc n)
  then obtain k' where k: "k = Suc k'" by (cases k) auto
  from Suc.prems have i: "i < length s"
    by (metis Suc_neq_Zero drop_eq_Nil le_eq_less_or_eq length_0_conv takeWhile.simps(1) nat_less_le)
  with Suc.prems(2) have p: "p (s ! i)" "length (takeWhile p (drop (Suc i) s)) = n"
    by (auto simp: Cons_nth_drop_Suc [symmetric] split: if_splits)
  have "Suc i \<le> length s" "n \<le> k'" using i Suc.prems(3) k by auto
  from Suc.IH [OF this(1) p(2) this(2)]
  obtain ms where "rep True k' (matches (Cls p) s) (Suc i, cs) = (Suc i + n, cs) # ms" by blast
  moreover have "matches (Cls p) s (i, cs) = [(Suc i, cs)]" using i p by (simp add: char_at_def)
  ultimately show ?case by (simp add: k del: matches.simps)
qed

lemma Many1_Cls_first:
  assumes "i \<le> length s" "length (takeWhile p (drop i s)) = n" "n > 0"
  shows "\<exists>ms. matches (Many1 (Cls p)) s (i, cs) = (i + n, cs) # ms"
proof -
  from assms have i: "i < length s"
    by (metis drop_eq_Nil length_0_conv less_not_refl linorder_not_le takeWhile.simps(1))
  with assms have p: "p (s ! i)" "length (takeWhile p (drop (Suc i) s)) = n - 1"
    by (auto simp: Cons_nth_drop_Suc [symmetric] split: if_splits)
  have "n - 1 \<le> length s - Suc i"
    using p(2) length_takeWhile_le [of p "drop (Suc i) s"] by simp
  from rep_Cls [OF _ p(2) this, of cs] i assms(3)
  obtain ms where "rep True (length s - Suc i) (matches (Cls p) s) (Suc i, cs) = (i + n, cs) # ms" by auto
  with i p show ?thesis by (simp add: Many1_def char_at_def)
qed

lemma Seq_first:
  assumes "\<exists>xs. matches r s st = x # xs" "\<exists>ys. matches q s x = y # ys"
  shows "\<exists>zs. matches (Seq r q) s st = y # zs"
  using assms by auto

lemma Grp_first:
  assumes "\<exists>ms. matches r s st = (j, cs) # ms"
  shows "\<exists>ms. matches (Grp k r) s st = (j, AList.update k (fst st, j) cs) # ms"
  using assms by auto

section \<open>Substitution and splitting, one character at a time\<close>

text \<open>
  What is left of a substitution or a split from a position on. Where the pattern does not
  match, the character is copied; where it does, the scan goes on behind the match.
\<close>

definition sub_from :: "nat \<Rightarrow> re \<Rightarrow> (match \<Rightarrow> string) \<Rightarrow> string \<Rightarrow> nat \<Rightarrow> string" where
  "sub_from n r f s i = sub_matches s f i (finditer_fuel n r s i)"

definition split_from :: "nat \<Rightarrow> re \<Rightarrow> string \<Rightarrow> nat \<Rightarrow> string list" where
  "split_from n r s i = split_matches s i (finditer_fuel n r s i)"

lemma re_sub_from: "re_sub r f s = sub_from (Suc (length s)) r f s 0"
  by (simp add: re_sub_def sub_from_def finditer_def)

lemma re_split_from: "re_split r s = split_from (Suc (length s)) r s 0"
  by (simp add: re_split_def split_from_def finditer_def)

lemma search_from_skip:
  assumes "i < length s" "matches r s (i, []) = []"
  shows "search_from r s i = search_from r s (Suc i)"
proof -
  have "[i..<Suc (length s)] = i # [Suc i..<Suc (length s)]"
    using assms(1) by (simp add: upt_conv_Cons del: upt_Suc)
  moreover have "match_at r s i = None" using assms(2) by (simp add: match_at_def)
  ultimately show ?thesis by (simp add: search_from_def del: upt_Suc)
qed

lemma finditer_skip:
  assumes "i < length s" "matches r s (i, []) = []"
  shows "finditer_fuel n r s i = finditer_fuel n r s (Suc i)"
  by (cases n) (simp_all add: search_from_skip [OF assms])

lemma finditer_hit:
  assumes "matches r s (i, []) = (j, cs) # ms" "i < j" "i \<le> length s"
  shows "finditer_fuel (Suc n) r s i = (i, j, cs) # finditer_fuel n r s j"
  using search_from_first [OF le_refl assms(3) _ assms(1)] assms(2) by simp

lemma slice_skip: "i < a \<Longrightarrow> a \<le> length s \<Longrightarrow> slice s i a = s ! i # slice s (Suc i) a"
  unfolding slice_def using Cons_nth_drop_Suc [of i "take a s"] by simp

lemma finditer_fuel_start:
  "finditer_fuel n r s i = (a, b, cs) # ms \<Longrightarrow> i \<le> a \<and> a \<le> b \<and> b \<le> length s"
  by (cases n) (auto split: option.splits dest!: search_from_bounds)

lemma sub_from_skip:
  assumes "i < length s" "matches r s (i, []) = []"
  shows "sub_from n r f s i = s ! i # sub_from n r f s (Suc i)"
proof (cases "finditer_fuel n r s (Suc i)")
  case Nil
  with assms show ?thesis by (simp add: sub_from_def finditer_skip Cons_nth_drop_Suc)
next
  case (Cons m ms)
  then obtain a b cs where m: "m = (a, b, cs)" by (cases m)
  from finditer_fuel_start [OF Cons [unfolded m]] have "Suc i \<le> a" "a \<le> length s" by auto
  with assms Cons m show ?thesis by (simp add: sub_from_def finditer_skip slice_skip)
qed

lemma split_from_skip:
  assumes "i < length s" "matches r s (i, []) = []"
  shows "split_from n r s i = (case split_from n r s (Suc i) of x # xs \<Rightarrow> (s ! i # x) # xs | [] \<Rightarrow> [])"
proof (cases "finditer_fuel n r s (Suc i)")
  case Nil
  with assms show ?thesis by (simp add: split_from_def finditer_skip Cons_nth_drop_Suc)
next
  case (Cons m ms)
  then obtain a b cs where m: "m = (a, b, cs)" by (cases m)
  from finditer_fuel_start [OF Cons [unfolded m]] have "Suc i \<le> a" "a \<le> length s" by auto
  with assms Cons m show ?thesis by (simp add: split_from_def finditer_skip slice_skip)
qed

lemma sub_from_hit:
  assumes "matches r s (i, []) = (j, cs) # ms" "i < j" "i \<le> length s"
  shows "sub_from (Suc n) r f s i = f (i, j, cs) @ sub_from n r f s j"
  by (simp add: sub_from_def finditer_hit [OF assms] slice_def del: finditer_fuel.simps)

lemma split_from_hit:
  assumes "matches r s (i, []) = (j, cs) # ms" "i < j" "i \<le> length s"
  shows "split_from (Suc n) r s i = [] # split_from n r s j"
  by (simp add: split_from_def finditer_hit [OF assms] slice_def del: finditer_fuel.simps)

lemma finditer_end: "matches r s (length s, []) = [] \<Longrightarrow> finditer_fuel n r s (length s) = []"
  by (cases n) (simp_all add: search_from_def match_at_def)

lemma sub_from_end: "matches r s (length s, []) = [] \<Longrightarrow> sub_from n r f s (length s) = []"
  by (simp add: sub_from_def finditer_end)

lemma split_from_end: "matches r s (length s, []) = [] \<Longrightarrow> split_from n r s (length s) = [[]]"
  by (simp add: split_from_def finditer_end)

end
