(* ===== verification/Paths.thy ===== *)
theory Paths
  imports Regex
begin

text \<open>
  The pure part of class \<open>Path\<close> of \<open>lib/filesystem.py\<close> and the functions of
  \<open>os.path\<close> that the modelled code calls. A \<open>Path\<close> object is its one attribute,
  the string \<open>path\<close>; \<open>tidy_ok\<close> is the class's documented assumption about it.
  The central lemma, \<open>path_canonical\<close>, recovers a path from whether it is absolute,
  its components and whether it is trailed; the laws of the operations follow.
\<close>

type_synonym path = string

abbreviation slash :: char where "slash \<equiv> CHR 0x2F"

section \<open>Functions of os.path\<close>

definition path_components :: "string \<Rightarrow> string list" where
  "path_components s = filter (\<lambda>c. c \<noteq> []) (split_on slash s)"

definition is_abs :: "string \<Rightarrow> bool" where
  "is_abs s \<longleftrightarrow> prefix [slash] s"

fun normpath_comps :: "bool \<Rightarrow> string list \<Rightarrow> string list \<Rightarrow> string list" where
  "normpath_comps ab acc [] = acc"
| "normpath_comps ab acc (c # cs) =
     (if c = [] \<or> c = ''.'' then normpath_comps ab acc cs
      else if c \<noteq> ''..'' \<or> (\<not> ab \<and> acc = []) \<or> (acc \<noteq> [] \<and> last acc = ''..'')
      then normpath_comps ab (acc @ [c]) cs
      else if acc \<noteq> [] then normpath_comps ab (butlast acc) cs
      else normpath_comps ab acc cs)"

definition normpath :: "string \<Rightarrow> string" where
  "normpath s =
     (if s = [] then ''.''
      else let slashes = (if \<not> is_abs s then 0
                          else if prefix ''//'' s \<and> \<not> prefix ''///'' s then 2 else 1);
               body = join [slash] (normpath_comps (slashes > 0) [] (split_on slash s));
               p = replicate slashes slash @ body
           in if p = [] then ''.'' else p)"

fun common_prefix :: "'a list \<Rightarrow> 'a list \<Rightarrow> 'a list" where
  "common_prefix (x # xs) (y # ys) = (if x = y then x # common_prefix xs ys else [])"
| "common_prefix _ _ = []"

definition commonpath :: "string \<Rightarrow> string \<Rightarrow> string res" where
  "commonpath p q =
     (if is_abs p \<noteq> is_abs q then Inl Value_Error
      else let comps = (\<lambda>s. filter (\<lambda>c. c \<noteq> ''.'') (path_components s))
           in Inr ((if is_abs p then [slash] else [])
                   @ join [slash] (common_prefix (comps p) (comps q))))"

definition basename :: "string \<Rightarrow> string" where
  "basename s = snd (snd (rpartition_on slash s))"

definition dirname :: "string \<Rightarrow> string" where
  "dirname s =
     (case rpartition_on slash s of (a, sep, b) \<Rightarrow>
        let head = a @ sep
        in if head \<noteq> [] \<and> (\<exists>c \<in> set head. c \<noteq> slash) then rstrip slash head else head)"

definition prefix_path :: "string \<Rightarrow> string \<Rightarrow> bool" where
  "prefix_path pfx p \<longleftrightarrow> pfx = p \<or> pfx @ [slash] = take (length pfx + 1) p"

section \<open>Class Path\<close>

fun collapse :: "string \<Rightarrow> string" where
  "collapse [] = []"
| "collapse [c] = [c]"
| "collapse (c # d # s) =
     (if c = slash \<and> d = slash then collapse (d # s) else c # collapse (d # s))"

definition tidy :: "string \<Rightarrow> path" where
  "tidy s =
     (if s = [] then ''.''
      else let p = collapse s in if prefix ''./'' p then drop 2 p else p)"

definition Path :: "string list \<Rightarrow> path" where
  "Path segments = tidy (join [slash] segments)"

definition floordiv :: "path \<Rightarrow> string \<Rightarrow> path" where
  "floordiv left right = Path [left @ [slash] @ right]"

definition root_p :: "path \<Rightarrow> bool" where "root_p p \<longleftrightarrow> p = [slash]"

definition empty_p :: "path \<Rightarrow> bool" where "empty_p p \<longleftrightarrow> p = ''.''"

definition is_absolute :: "path \<Rightarrow> bool res" where
  "is_absolute p = (case p of [] \<Rightarrow> Inl Index_Error | c # _ \<Rightarrow> Inr (c = slash))"

definition trailed_p :: "path \<Rightarrow> bool res" where
  "trailed_p p =
     (if p = [slash] then Inr False
      else if p = [] then Inl Index_Error else Inr (last p = slash))"

definition untrailed :: "path \<Rightarrow> path" where
  "untrailed p = (if root_p p then Path [p] else Path [rstrip slash p])"

definition path_name :: "path \<Rightarrow> string" where
  "path_name p = (if root_p p then [slash] else snd (snd (rpartition_on slash (untrailed p))))"

definition path_parent :: "path \<Rightarrow> path" where
  "path_parent p =
     (if root_p p then Path [p]
      else case rpartition_on slash (untrailed p) of (par, sep, b) \<Rightarrow>
        if par \<noteq> [] then Path [par] else if sep = [slash] then Path [[slash]] else Path [''.''])"

definition path_parts :: "path \<Rightarrow> string list" where
  "path_parts p =
     (if p = ''.'' then []
      else let ret = split_on slash p;
               ret = (if hd ret = [] then [slash] # tl ret else ret)
           in if last ret = [] then butlast ret else ret)"

definition path_len :: "path \<Rightarrow> nat" where "path_len p = length (path_parts p)"

definition path_first :: "path \<Rightarrow> path" where
  "path_first p = (if root_p p then Path [p] else Path [fst (partition_on slash p)])"

definition relative_to_str :: "path \<Rightarrow> string \<Rightarrow> path res" where
  "relative_to_str p q =
     bindr (commonpath p q) (\<lambda>common.
       if common \<noteq> q then Inl Value_Error
       else Inr (Path [drop (length q + (if q = [slash] then 0 else 1)) p]))"

definition relative_to :: "path \<Rightarrow> path \<Rightarrow> path res" where
  "relative_to p q = relative_to_str p (untrailed q)"

definition is_relative_to :: "path \<Rightarrow> path \<Rightarrow> bool" where
  "is_relative_to p q \<longleftrightarrow> is_ok (relative_to p q)"

definition with_name :: "path \<Rightarrow> string \<Rightarrow> path res" where
  "with_name p new = (if root_p p then Inl Value_Error else Inr (floordiv (path_parent p) new))"

definition git_compatible_p :: "path \<Rightarrow> bool" where
  "git_compatible_p p \<longleftrightarrow> \<not> prefix ''.git'' (path_name p)"

definition git_escaped :: "path \<Rightarrow> path res" where
  "git_escaped p =
     bindr (with_name p (replace_str ''.git'' ''.weirdal_'' (path_name p))) (\<lambda>ret.
     bindr (trailed_p p) (\<lambda>t.
       Inr (if t then ret @ [slash] else ret)))"

definition strip_path :: "nat \<Rightarrow> nat \<Rightarrow> path \<Rightarrow> path res" where
  "strip_path left right p =
     (if length (path_parts p) < left + right then Inl Value_Error
      else bindr (trailed_p p) (\<lambda>t.
        let ret = Path (drop left (take (length (path_parts p) - right) (path_parts p)))
        in Inr (if t then ret @ [slash] else ret)))"

definition suffix_add :: "path \<Rightarrow> string \<Rightarrow> path res" where
  "suffix_add p suf =
     bindr (trailed_p p) (\<lambda>t. Inr (Path [untrailed p @ suf @ (if t then [slash] else [])]))"

text \<open>
  \<open>Path.match\<close> is \<open>fnmatch.fnmatchcase\<close>; the only pattern of the code has one
  star at its end.
\<close>

fun fnmatch :: "string \<Rightarrow> string \<Rightarrow> bool" where
  "fnmatch [] s \<longleftrightarrow> s = []"
| "fnmatch (CHR ''*'' # p) [] \<longleftrightarrow> fnmatch p []"
| "fnmatch (CHR ''*'' # p) (c # s) \<longleftrightarrow> fnmatch p (c # s) \<or> fnmatch (CHR ''*'' # p) s"
| "fnmatch (CHR ''?'' # p) (c # s) \<longleftrightarrow> fnmatch p s"
| "fnmatch (a # p) [] \<longleftrightarrow> False"
| "fnmatch (a # p) (c # s) \<longleftrightarrow> a = c \<and> fnmatch p s"

definition match_path :: "path \<Rightarrow> string \<Rightarrow> bool" where
  "match_path p pat \<longleftrightarrow> fnmatch pat p"

text \<open>The class's documented assumption about the string it stores.\<close>

definition tidy_ok :: "path \<Rightarrow> bool" where
  "tidy_ok p \<longleftrightarrow> p \<noteq> [] \<and> \<not> sublist ''//'' p \<and> \<not> prefix ''./'' p"

section \<open>Canonical form\<close>

fun no_double :: "string \<Rightarrow> bool" where
  "no_double (c # d # s) \<longleftrightarrow> \<not> (c = slash \<and> d = slash) \<and> no_double (d # s)"
| "no_double _ \<longleftrightarrow> True"

lemma no_double_iff: "no_double s \<longleftrightarrow> \<not> sublist ''//'' s"
  by (induction s rule: no_double.induct) (auto simp: sublist_Cons_right)

lemma collapse_hd: "s \<noteq> [] \<Longrightarrow> collapse s \<noteq> [] \<and> hd (collapse s) = hd s"
  by (induction s rule: collapse.induct) auto

lemma no_double_Cons:
  "no_double (c # s) \<longleftrightarrow> no_double s \<and> \<not> (c = slash \<and> s \<noteq> [] \<and> hd s = slash)"
  by (cases s) auto

lemma no_double_collapse: "no_double (collapse s)"
  by (induction s rule: collapse.induct) (auto simp: no_double_Cons collapse_hd)

lemma collapse_id: "no_double s \<Longrightarrow> collapse s = s"
  by (induction s rule: collapse.induct) auto

lemma path_components_Cons_slash [simp]: "path_components (slash # s) = path_components s"
  by (simp add: path_components_def)

lemma path_components_Nil [simp]: "path_components [] = []"
  by (simp add: path_components_def)

lemma path_components_collapse: "path_components (collapse s) = path_components s"
proof (induction s rule: collapse.induct)
  case (3 c d s)
  show ?case
  proof (cases "c = slash")
    case True
    with 3 show ?thesis by (cases "d = slash") auto
  next
    case False
    have "split_on slash (c # x) = (case split_on slash x of y # ys \<Rightarrow> (c # y) # ys)" for x
      using False by (simp split: list.splits)
    moreover have "hd (split_on slash (collapse (d # s))) = hd (split_on slash (d # s))"
    proof -
      have takew: "hd (split_on slash x) = takeWhile (\<lambda>c. c \<noteq> slash) x" for x
        by (induction x) (auto split: list.splits)
      have "takeWhile (\<lambda>c. c \<noteq> slash) (collapse x) = takeWhile (\<lambda>c. c \<noteq> slash) x" for x
        by (induction x rule: collapse.induct) auto
      then show ?thesis by (simp only: takew)
    qed
    ultimately show ?thesis
      using 3 False
      by (auto simp: path_components_def split: list.splits if_splits)
  qed
qed auto

lemma path_components_parts: "c \<in> set (path_components s) \<Longrightarrow> c \<noteq> [] \<and> slash \<notin> set c"
  by (auto simp: path_components_def dest: split_on_parts)

lemma split_on_append_any:
  "split_on c (a @ c # b) = split_on c a @ split_on c b"
  by (induction a) (auto split: list.splits)

lemma path_components_append_slash:
  "path_components (a @ slash # b) = path_components a @ path_components b"
  by (simp add: path_components_def split_on_append_any)

text \<open>Absolute flag, components and trailing flag determine a path without double slashes.\<close>

definition render :: "bool \<Rightarrow> string list \<Rightarrow> bool \<Rightarrow> string" where
  "render ab cs tr =
     (if ab then [slash] else []) @ join [slash] cs @ (if tr \<and> cs \<noteq> [] then [slash] else [])"

definition trail :: "string \<Rightarrow> bool" where
  "trail s \<longleftrightarrow> s \<noteq> [] \<and> s \<noteq> [slash] \<and> last s = slash"

lemma no_double_join_inner:
  "no_double (join [slash] (x # P)) \<Longrightarrow> P \<noteq> [] \<Longrightarrow> [] \<notin> set (butlast P)"
proof (induction P arbitrary: x)
  case (Cons y P)
  show ?case
  proof (cases P)
    case (Cons z Q)
    have drop: "no_double (a @ b) \<Longrightarrow> no_double b" for a b
      by (induction a) (auto simp: no_double_Cons)
    from Cons.prems \<open>P = z # Q\<close> have nd: "no_double ([slash] @ join [slash] (y # P))"
      using drop [of x] by simp
    then have "no_double (join [slash] (y # P))" using drop by blast
    with Cons.IH \<open>P = z # Q\<close> have "[] \<notin> set (butlast P)" by auto
    moreover from nd have "y \<noteq> []" using \<open>P = z # Q\<close> by auto
    ultimately show ?thesis using \<open>P = z # Q\<close> by auto
  qed simp
qed simp

lemma path_canonical:
  assumes "no_double s"
  shows "s = render (is_abs s) (path_components s) (trail s)"
proof (cases "split_on slash s")
  case Nil
  then show ?thesis by simp
next
  case (Cons x P)
  have s: "s = join [slash] (x # P)" using join_split_on [of slash s] Cons by simp
  have x: "slash \<notin> set x" using split_on_parts [of x slash s] Cons by simp
  show ?thesis
  proof (cases "P = []")
    case True
    with s have sx: "s = x" by simp
    with x have "\<not> trail s" by (auto simp: trail_def dest: last_in_set)
    moreover have "\<not> is_abs s" using sx x by (cases s) (auto simp: is_abs_def)
    ultimately show ?thesis
      using True sx Cons by (simp add: render_def path_components_def)
  next
    case False
    with assms s have inner: "[] \<notin> set (butlast P)" by (auto dest: no_double_join_inner)
    define l where "l = last P"
    have P: "P = butlast P @ [l]" using False by (simp add: l_def)
    have fl: "filter (\<lambda>c. c \<noteq> []) (butlast P) = butlast P"
      using inner by (intro filter_True) auto
    have fP: "filter (\<lambda>c. c \<noteq> []) P = butlast P @ (if l = [] then [] else [l])"
      by (subst P) (simp add: fl)
    have comps: "path_components s = (if x = [] then [] else [x]) @ butlast P @ (if l = [] then [] else [l])"
      using Cons fP by (simp add: path_components_def)
    have joinP: "join [slash] P = (if butlast P = [] then [] else join [slash] (butlast P) @ [slash]) @ l"
      by (subst P, cases "butlast P = []") (auto simp: join_append)
    have sx: "s = x @ slash # join [slash] P" using s False by (simp add: join_Cons)
    have l_no: "slash \<notin> set l"
      using split_on_parts [of l slash s] Cons False by (simp add: l_def)
    have ab: "is_abs s \<longleftrightarrow> x = []"
      using sx x by (cases x) (auto simp: is_abs_def)
    have last_s: "last s = slash \<longleftrightarrow> l = []"
    proof (cases "l = []")
      case True
      then show ?thesis by (simp add: sx joinP)
    next
      case l: False
      then have "last s = last l" by (simp add: sx joinP)
      with l l_no show ?thesis by (metis last_in_set)
    qed
    have tr: "trail s \<longleftrightarrow> l = [] \<and> (x \<noteq> [] \<or> butlast P \<noteq> [])"
      using last_s sx joinP by (auto simp: trail_def)
    show ?thesis
      unfolding render_def comps ab tr
      using sx joinP
      by (cases "x = []"; cases "l = []"; cases "butlast P = []")
        (auto simp: join_Cons join_append)
  qed
qed

lemma is_abs_collapse: "is_abs (collapse s) = is_abs s"
  using collapse_hd [of s] by (cases s; cases "collapse s") (auto simp: is_abs_def)

section \<open>Laws of the operations\<close>

definition comps_ok :: "string list \<Rightarrow> bool" where
  "comps_ok cs \<longleftrightarrow> (\<forall>c \<in> set cs. c \<noteq> [] \<and> slash \<notin> set c)"

lemma comps_ok_path_components [simp]: "comps_ok (path_components s)"
  using path_components_parts by (auto simp: comps_ok_def)

lemma comps_ok_simps [simp]:
  "comps_ok []"
  "comps_ok (c # cs) \<longleftrightarrow> c \<noteq> [] \<and> slash \<notin> set c \<and> comps_ok cs"
  "comps_ok (cs @ ds) \<longleftrightarrow> comps_ok cs \<and> comps_ok ds"
  by (auto simp: comps_ok_def)

lemma no_double_append:
  "no_double (a @ b) \<longleftrightarrow> no_double a \<and> no_double b \<and>
     \<not> (a \<noteq> [] \<and> b \<noteq> [] \<and> last a = slash \<and> hd b = slash)"
  by (induction a) (auto simp: no_double_Cons)

lemma no_double_no_slash: "slash \<notin> set c \<Longrightarrow> no_double c"
  by (induction c) (auto simp: no_double_Cons)

lemma join_ends:
  assumes "comps_ok cs" and "cs \<noteq> []"
  shows "join [slash] cs \<noteq> []" "hd (join [slash] cs) \<noteq> slash" "last (join [slash] cs) \<noteq> slash"
    "no_double (join [slash] cs)"
proof -
  have ends: "c \<noteq> [] \<Longrightarrow> slash \<notin> set c \<Longrightarrow> hd c \<noteq> slash \<and> last c \<noteq> slash" for c
    by (metis hd_in_set last_in_set)
  have "join [slash] cs \<noteq> [] \<and> hd (join [slash] cs) \<noteq> slash \<and> last (join [slash] cs) \<noteq> slash
      \<and> no_double (join [slash] cs)"
    using assms
  proof (induction cs)
    case (Cons c cs)
    then show ?case
      using ends [of c]
      by (cases "cs = []")
        (auto simp: join_Cons no_double_append no_double_Cons no_double_no_slash)
  qed simp
  then show "join [slash] cs \<noteq> []" "hd (join [slash] cs) \<noteq> slash"
    "last (join [slash] cs) \<noteq> slash" "no_double (join [slash] cs)" by auto
qed

lemma path_components_join: "comps_ok cs \<Longrightarrow> path_components (join [slash] cs) = cs"
proof (cases "cs = []")
  case False
  assume ok: "comps_ok cs"
  then have "split_on slash (join [slash] cs) = cs"
    using False by (intro split_on_join) (auto simp: comps_ok_def)
  then show ?thesis
    using ok by (auto simp: path_components_def comps_ok_def intro!: filter_True)
qed simp

lemma no_double_render: "comps_ok cs \<Longrightarrow> no_double (render ab cs tr)"
  using join_ends [of cs]
  by (cases "cs = []") (auto simp: render_def no_double_append no_double_Cons)

lemma path_components_render: "comps_ok cs \<Longrightarrow> path_components (render ab cs tr) = cs"
proof -
  assume ok: "comps_ok cs"
  have "path_components (x @ (if b then [slash] else [])) = path_components x" for x b
    using path_components_append_slash [of x "[]"] by auto
  then show ?thesis
    using path_components_join [OF ok] by (auto simp: render_def)
qed

lemma is_abs_render: "comps_ok cs \<Longrightarrow> is_abs (render ab cs tr) = ab"
  using join_ends [of cs]
  by (cases "cs = []"; cases "join [slash] cs") (auto simp: render_def is_abs_def)

lemma trail_render: "comps_ok cs \<Longrightarrow> trail (render ab cs tr) \<longleftrightarrow> tr \<and> cs \<noteq> []"
  using join_ends [of cs]
  by (cases "cs = []") (auto simp: render_def trail_def)

lemma render_eq_Nil: "comps_ok cs \<Longrightarrow> render ab cs tr = [] \<longleftrightarrow> \<not> ab \<and> cs = []"
  using join_ends [of cs] by (auto simp: render_def)

lemmas render_simps =
  no_double_render path_components_render is_abs_render trail_render render_eq_Nil

lemma prefix_dot_render:
  assumes "comps_ok cs"
  shows "prefix ''./'' (render ab cs tr) \<longleftrightarrow>
    \<not> ab \<and> cs \<noteq> [] \<and> hd cs = ''.'' \<and> (tl cs \<noteq> [] \<or> tr)"
proof (cases cs)
  case Nil
  then show ?thesis by (auto simp: render_def)
next
  case (Cons c ds)
  with assms obtain x xs where c: "c = x # xs" "x \<noteq> slash" "slash \<notin> set xs"
    by (cases c) auto
  show ?thesis
    using Cons c by (cases xs; cases ds) (auto simp: render_def)
qed

lemma drop_dot_render:
  assumes "comps_ok cs"
  shows "drop 2 (render False (''.'' # cs) tr) = render False cs tr"
  using assms by (cases cs) (auto simp: render_def)

lemma tidy_render:
  assumes "comps_ok cs"
  shows "tidy (render ab cs tr) =
    (if \<not> ab \<and> cs = [] then ''.''
     else if \<not> ab \<and> hd cs = ''.'' \<and> (tl cs \<noteq> [] \<or> tr) then render ab (tl cs) tr
     else render ab cs tr)"
proof -
  have "collapse (render ab cs tr) = render ab cs tr"
    using assms by (simp add: collapse_id no_double_render)
  then show ?thesis
    using assms drop_dot_render [of "tl cs" tr]
    by (cases cs) (auto simp: tidy_def render_eq_Nil prefix_dot_render Let_def)
qed

lemma collapse_canonical:
  "collapse s = render (is_abs s) (path_components s) (trail (collapse s))"
  using path_canonical [OF no_double_collapse, of s]
  by (simp add: is_abs_collapse path_components_collapse)

lemma tidy_collapse: "s \<noteq> [] \<Longrightarrow> tidy s = tidy (collapse s)"
  using collapse_hd [of s] by (auto simp: tidy_def collapse_id no_double_collapse)

lemma tidy_ok_canonical:
  assumes "tidy_ok p"
  obtains ab cs tr where "p = render ab cs tr" "comps_ok cs" "tr \<longrightarrow> cs \<noteq> []"
    "ab \<or> cs \<noteq> []" "\<not> (\<not> ab \<and> hd cs = ''.'' \<and> (tl cs \<noteq> [] \<or> tr))"
proof -
  define ab where "ab = is_abs p"
  define cs where "cs = path_components p"
  define tr where "tr = trail p"
  from assms have nd: "no_double p" and ne: "p \<noteq> []" and pr: "\<not> prefix ''./'' p"
    by (auto simp: tidy_ok_def no_double_iff)
  have ok: "comps_ok cs" by (simp add: cs_def)
  have p: "p = render ab cs tr" unfolding ab_def cs_def tr_def using nd by (rule path_canonical)
  have "trail p \<longleftrightarrow> tr \<and> cs \<noteq> []"
    using trail_render [OF ok, of ab tr] by (simp only: p [symmetric])
  then have tr: "tr \<longrightarrow> cs \<noteq> []" by (simp only: tr_def) blast
  have "ab \<or> cs \<noteq> []" using ne unfolding p render_eq_Nil [OF ok] by blast
  moreover from this have "\<not> (\<not> ab \<and> hd cs = ''.'' \<and> (tl cs \<noteq> [] \<or> tr))"
    using pr unfolding p prefix_dot_render [OF ok] by blast
  ultimately show ?thesis using that [OF p ok tr] by blast
qed

lemma tidy_ok_tidy: "tidy_ok p \<Longrightarrow> tidy p = p"
  by (simp add: tidy_ok_def tidy_def no_double_iff [symmetric] collapse_id Let_def)

lemma tidy_ok_render:
  assumes "comps_ok cs"
  shows "tidy_ok (render ab cs tr) \<longleftrightarrow>
     (ab \<or> cs \<noteq> []) \<and> \<not> (\<not> ab \<and> cs \<noteq> [] \<and> hd cs = ''.'' \<and> (tl cs \<noteq> [] \<or> tr))"
  unfolding tidy_ok_def no_double_iff [symmetric] prefix_dot_render [OF assms] render_eq_Nil [OF assms]
  using no_double_render [OF assms, of ab tr] by blast

lemma rstrip_render:
  assumes "comps_ok cs" "cs \<noteq> []"
  shows "rstrip slash (render ab cs tr) = render ab cs False"
proof -
  have keep: "rstrip c x = x" if "x \<noteq> []" "last x \<noteq> c" for c x
    using that by (cases x rule: rev_cases) auto
  have "rstrip slash (render ab cs False) = render ab cs False"
    using join_ends [OF assms] assms by (intro keep) (auto simp: render_def)
  then show ?thesis using assms by (cases tr) (auto simp: render_def simp flip: append_assoc)
qed

lemma Path_single: "Path [p] = tidy p"
  by (simp add: Path_def)

lemma untrailed_render:
  assumes "comps_ok cs" "cs \<noteq> []" "tidy_ok (render ab cs tr)"
  shows "untrailed (render ab cs tr) = render ab cs False"
proof -
  have "render ab cs tr \<noteq> [slash]"
    using path_components_render [OF assms(1), of ab tr] assms(2) by auto
  moreover have "tidy (render ab cs False) = render ab cs False"
    using assms by (intro tidy_ok_tidy) (auto simp: tidy_ok_render)
  ultimately show ?thesis
    by (simp add: untrailed_def root_p_def rstrip_render assms Path_single)
qed

lemma render_root: "render True [] tr = [slash]"
  by (simp add: render_def)

lemma tidy_root [simp]: "tidy [slash] = [slash]"
  by (simp add: tidy_def)

lemma untrailed_root [simp]: "untrailed [slash] = [slash]"
  by (simp add: untrailed_def root_p_def Path_single)

lemma render_eq_dot:
  assumes "comps_ok cs"
  shows "render ab cs tr = ''.'' \<longleftrightarrow> \<not> ab \<and> cs = [''.''] \<and> \<not> tr"
proof
  assume eq: "render ab cs tr = ''.''"
  have "path_components ''.'' = [''.'']" by (simp add: path_components_def)
  then have "cs = [''.'']" using path_components_render [OF assms, of ab tr] eq by simp
  then show "\<not> ab \<and> cs = [''.''] \<and> \<not> tr" using eq by (auto simp: render_def split: if_splits)
qed (simp add: render_def)

lemma split_on_render:
  assumes "comps_ok cs" "cs \<noteq> []"
  shows "split_on slash (render ab cs tr) = (if ab then [[]] else []) @ cs @ (if tr then [[]] else [])"
proof -
  have body: "split_on slash (join [slash] cs) = cs"
    using assms by (intro split_on_join) (auto simp: comps_ok_def)
  have "split_on slash (x @ [slash]) = split_on slash x @ [[]]" for x
    using split_on_append_any [of slash x "[]"] by simp
  with body assms show ?thesis by (auto simp: render_def)
qed

lemma path_parts_render:
  assumes "comps_ok cs" "ab \<or> cs \<noteq> []"
  shows "path_parts (render ab cs tr) =
    (if render ab cs tr = ''.'' then [] else (if ab then [[slash]] else []) @ cs)"
proof (cases "cs = []")
  case True
  with assms show ?thesis by (simp add: render_root path_parts_def)
next
  case False
  then have "last cs \<noteq> []" "hd cs \<noteq> []" using assms by (auto simp: comps_ok_def)
  with False assms show ?thesis
    by (auto simp: path_parts_def split_on_render Let_def butlast_append hd_append)
qed

lemma rpartition_render:
  assumes "comps_ok (cs @ [c])"
  shows "rpartition_on slash (render ab (cs @ [c]) False) =
    (if cs = [] then ([], if ab then [slash] else [], c)
     else (render ab cs False, [slash], c))"
proof -
  have c: "slash \<notin> set c" using assms by simp
  show ?thesis
  proof (cases "cs = []")
    case True
    with c show ?thesis
      using rpartition_on_append [OF c, of "[]"] by (simp add: render_def rpartition_on_no_sep)
  next
    case False
    then have "render ab (cs @ [c]) False = render ab cs False @ slash # c"
      by (simp add: render_def join_append)
    with c False show ?thesis by (simp add: rpartition_on_append)
  qed
qed

lemma floordiv_canonical:
  assumes "comps_ok cs" "comps_ok ds" "ab \<or> cs \<noteq> []"
  shows "floordiv (render ab cs tr) (render ab' ds tr') =
    tidy (render ab (cs @ ds) (if ds = [] then True else tr'))"
proof -
  let ?l = "render ab cs tr" and ?r = "render ab' ds tr'"
  let ?s = "?l @ slash # ?r"
  have ab: "is_abs (collapse ?s) = ab"
    unfolding is_abs_collapse
    using assms is_abs_render [OF assms(1), of ab tr] render_eq_Nil [OF assms(1), of ab tr]
    by (cases ?l) (auto simp: is_abs_def)
  have comps: "path_components (collapse ?s) = cs @ ds"
    using assms by (simp add: path_components_collapse path_components_append_slash path_components_render)
  have last_collapse: "last (collapse x) = last x" if "x \<noteq> []" for x
    using that by (induction x rule: collapse.induct) (use collapse_hd in auto)
  have last_s: "last ?s = slash \<longleftrightarrow> (if ds = [] then True else tr')"
    using join_ends [OF assms(2)] assms(2) by (auto simp: render_def)
  have trail: "cs @ ds \<noteq> [] \<Longrightarrow> trail (collapse ?s) \<longleftrightarrow> (if ds = [] then True else tr')"
    using last_collapse [of ?s] last_s comps collapse_hd [of ?s]
    by (auto simp: trail_def)
  have "collapse ?s = render ab (cs @ ds) (if ds = [] then True else tr')"
    using path_canonical [OF no_double_collapse, of ?s] ab comps trail assms(3)
    by (cases "cs @ ds = []") (simp_all add: render_def)
  then show ?thesis
    using tidy_collapse [of ?s] by (simp add: floordiv_def Path_single)
qed

section \<open>Plain relative paths\<close>

text \<open>Paths made of components other than the empty one, dot and double dot.\<close>

definition plain_comps :: "string list \<Rightarrow> bool" where
  "plain_comps cs \<longleftrightarrow> comps_ok cs \<and> list_all (\<lambda>c. c \<notin> {[], ''.'', ''..''}) cs"

lemma tidy_render_plain_hd:
  "comps_ok (c # cs) \<Longrightarrow> c \<noteq> ''.'' \<Longrightarrow> tidy (render False (c # cs) tr) = render False (c # cs) tr"
  by (subst tidy_render) auto

lemma floordiv_dot: 
  assumes "comps_ok es" "es \<noteq> []" "hd es \<noteq> ''.'' \<or> es = [''.'']"
  shows "floordiv ''.'' (render False es False) = render False es False"
proof -
  have "''.'' = render False [''.''] False" by (simp add: render_def)
  then have "floordiv ''.'' (render False es False) = tidy (render False (''.'' # es) False)"
    using floordiv_canonical [of "[''.'']" es False False False False] assms by simp
  also have "\<dots> = render False es False" using assms by (subst tidy_render) auto
  finally show ?thesis .
qed

lemma path_parent_plain:
  assumes "plain_comps (ds @ [f])"
  shows "path_parent (render False (ds @ [f]) False) = (if ds = [] then ''.'' else render False ds False)"
proof -
  have ok: "comps_ok (ds @ [f])" using assms by (simp add: plain_comps_def)
  have hd: "hd (ds @ [f]) \<noteq> ''.''" using assms by (cases ds) (auto simp: plain_comps_def)
  have "tidy_ok (render False (ds @ [f]) False)" using hd by (simp add: tidy_ok_render [OF ok])
  then have un: "untrailed (render False (ds @ [f]) False) = render False (ds @ [f]) False"
    using untrailed_render [OF ok] by simp
  have "\<not> is_abs (render False (ds @ [f]) False)" using is_abs_render [OF ok] by simp
  then have nroot: "\<not> root_p (render False (ds @ [f]) False)" by (auto simp: root_p_def is_abs_def)
  have "tidy (render False ds False) = render False ds False" if "ds \<noteq> []"
    using that hd ok tidy_render_plain_hd [of "hd ds" "tl ds" False] by (cases ds) auto
  then show ?thesis
    using nroot ok unfolding path_parent_def un rpartition_render [OF ok]
    by (auto simp: Path_single render_eq_Nil) (simp add: tidy_def)
qed

definition rel_path :: "string list \<Rightarrow> path" where
  "rel_path cs = (if cs = [] then ''.'' else render False cs False)"

lemma plain_comps_simps [simp]:
  "plain_comps []"
  "plain_comps (c # cs) \<longleftrightarrow> c \<notin> {[], ''.'', ''..''} \<and> slash \<notin> set c \<and> plain_comps cs"
  "plain_comps (cs @ ds) \<longleftrightarrow> plain_comps cs \<and> plain_comps ds"
  by (auto simp: plain_comps_def)

lemma plain_comps_ok: "plain_comps cs \<Longrightarrow> comps_ok cs"
  by (simp add: plain_comps_def)

lemma render_single: "render False [c] False = c"
  by (simp add: render_def)

lemma floordiv_rel_path:
  assumes "plain_comps (cs @ [c])"
  shows "floordiv (rel_path cs) c = rel_path (cs @ [c])"
proof (cases cs)
  case Nil
  then show ?thesis using floordiv_dot [of "[c]"] assms by (simp add: rel_path_def render_single)
next
  case (Cons d ds)
  have ok: "comps_ok cs" "comps_ok [c]" using assms by (simp_all add: plain_comps_ok)
  have "floordiv (render False cs False) c = tidy (render False (cs @ [c]) False)"
    using floordiv_canonical [OF ok, of False False False False] Cons by (simp add: render_single)
  also have "\<dots> = render False (cs @ [c]) False"
    using tidy_render_plain_hd [of d "ds @ [c]" False] Cons assms by (simp add: plain_comps_ok)
  finally show ?thesis using Cons by (simp add: rel_path_def)
qed

lemma path_parts_rel_path:
  assumes "plain_comps cs"
  shows "path_parts (rel_path cs) = cs"
proof (cases "cs = []")
  case False
  have "render False cs False \<noteq> ''.''"
    using assms render_eq_dot [OF plain_comps_ok [OF assms], of False False] by auto
  then show ?thesis
    using path_parts_render [OF plain_comps_ok [OF assms], of False False] False by (simp add: rel_path_def)
qed (simp add: rel_path_def path_parts_def)

lemma rel_path_inj: "plain_comps cs \<Longrightarrow> plain_comps ds \<Longrightarrow> rel_path cs = rel_path ds \<longleftrightarrow> cs = ds"
  using path_parts_rel_path by metis

lemma rel_path_snoc_plain:
  assumes "plain_comps (cs @ [c])"
  shows "untrailed (rel_path (cs @ [c])) = rel_path (cs @ [c])" "\<not> root_p (rel_path (cs @ [c]))"
    "path_name (rel_path (cs @ [c])) = c" "path_parent (rel_path (cs @ [c])) = rel_path cs"
    "trailed_p (rel_path (cs @ [c])) = Inr False"
proof -
  have ok: "comps_ok (cs @ [c])" using assms by (rule plain_comps_ok)
  have hd: "hd (cs @ [c]) \<noteq> ''.''" using assms by (cases cs) auto
  have tid: "tidy_ok (render False (cs @ [c]) False)" using hd by (simp add: tidy_ok_render [OF ok])
  show un: "untrailed (rel_path (cs @ [c])) = rel_path (cs @ [c])"
    using untrailed_render [OF ok _ tid] by (simp add: rel_path_def)
  have "\<not> is_abs (render False (cs @ [c]) False)" using is_abs_render [OF ok] by simp
  then show nroot: "\<not> root_p (rel_path (cs @ [c]))" by (auto simp: root_p_def is_abs_def rel_path_def)
  show "path_name (rel_path (cs @ [c])) = c"
    using nroot unfolding path_name_def un by (simp add: rel_path_def rpartition_render [OF ok])
  show "path_parent (rel_path (cs @ [c])) = rel_path cs"
    using path_parent_plain [OF assms] by (simp add: rel_path_def)
  have "\<not> trail (render False (cs @ [c]) False)" using trail_render [OF ok] by simp
  then show "trailed_p (rel_path (cs @ [c])) = Inr False"
    using nroot tid by (auto simp: trailed_p_def rel_path_def root_p_def trail_def tidy_ok_def)
qed

section \<open>Properties of class Path\<close>

text \<open>Splitting a tidy path into its parts and building a path from them gives the path
  back, without its trailing slash.\<close>

theorem path_parts_roundtrip:
  assumes "tidy_ok p"
  shows "Path (path_parts p) = untrailed p"
proof -
  obtain ab cs tr where p: "p = render ab cs tr" and ok: "comps_ok cs" and ne: "ab \<or> cs \<noteq> []"
    and nd: "\<not> (\<not> ab \<and> hd cs = ''.'' \<and> (tl cs \<noteq> [] \<or> tr))"
    using assms by (rule tidy_ok_canonical)
  show ?thesis
  proof (cases "cs = []")
    case True
    with ne p show ?thesis
      by (simp add: render_root path_parts_def Path_single)
  next
    case False
    have ok': "tidy_ok (render ab cs tr)" using assms p by simp
    have tid: "tidy (render ab cs False) = render ab cs False"
      using ok False nd by (intro tidy_ok_tidy) (auto simp: tidy_ok_render)
    show ?thesis
    proof (cases "render ab cs tr = ''.''")
      case True
      with p ok False ok' show ?thesis
        by (simp add: path_parts_def Path_def tidy_def) (simp add: untrailed_def root_p_def rstrip_def Path_def tidy_def)
    next
      case dot: False
      have "collapse (slash # slash # join [slash] cs) = collapse (slash # join [slash] cs)"
        by simp
      then have "tidy (join [slash] ((if ab then [[slash]] else []) @ cs)) = tidy (render ab cs False)"
        using False by (auto simp: render_def join_Cons tidy_def)
      then show ?thesis
        using p ok ne dot False tid untrailed_render [OF ok False ok']
        by (simp add: path_parts_render Path_def)
    qed
  qed
qed

theorem path_parts_roundtrip_witness:
  "Path (path_parts ''/a/b/'') = untrailed ''/a/b/'' \<and> untrailed ''/a/b/'' = ''/a/b''"
proof
  have "tidy_ok ''/a/b/''" by code_simp
  then show "Path (path_parts ''/a/b/'') = untrailed ''/a/b/''" by (rule path_parts_roundtrip)
qed code_simp

text \<open>The parent of a tidy path that is not the root, joined with the path's name, is the
  path without its trailing slash.\<close>

theorem path_parent_name:
  assumes "tidy_ok p" and "p \<noteq> [slash]" and "''.'' \<notin> set (path_components p)"
  shows "floordiv (path_parent p) (path_name p) = untrailed p"
proof -
  obtain ab cs tr where p: "p = render ab cs tr" and ok: "comps_ok cs" and ne: "ab \<or> cs \<noteq> []"
    using assms(1) by (rule tidy_ok_canonical)
  from p ok assms(3) have nd: "''.'' \<notin> set cs" by (simp add: path_components_render)
  have "cs \<noteq> []" using p assms(2) ne by (auto simp: render_root)
  then obtain ds d where cs: "cs = ds @ [d]" by (cases cs rule: rev_cases) auto
  have okd: "comps_ok ds" "comps_ok [d]" using ok cs by auto
  have tid: "tidy (render b xs False) = render b xs False"
    if "comps_ok xs" "b \<or> xs \<noteq> []" "''.'' \<notin> set xs" for b xs
    using that by (intro tidy_ok_tidy) (auto simp: tidy_ok_render dest: hd_in_set)
  have un: "untrailed p = render ab (ds @ [d]) False"
    using untrailed_render [OF ok \<open>cs \<noteq> []\<close>] assms(1) p cs by simp
  have nroot: "\<not> root_p p" using assms(2) by (simp add: root_p_def)
  have d: "render False [d] False = d" by (simp add: render_def)
  note rp = rpartition_render [OF ok [unfolded cs], of ab]
  have nm: "path_name p = d" using nroot un rp by (simp add: path_name_def)
  show ?thesis
  proof (cases "ds = []")
    case True
    then have par: "path_parent p = (if ab then [slash] else ''.'')"
      using nroot un rp by (simp add: path_parent_def Path_single) (simp add: tidy_def)
    have "floordiv (render ab (if ab then [] else [''.'']) False) (render False [d] False)
        = tidy (render ab ((if ab then [] else [''.'']) @ [d]) False)"
      using okd by (subst floordiv_canonical) auto
    moreover have "render ab (if ab then [] else [''.'']) False = path_parent p"
      by (simp add: par render_def)
    ultimately show ?thesis
      using okd un True nd cs nm d tid [of "[d]" ab] tidy_render [of "[''.'', d]" False False]
      by (cases ab) auto
  next
    case False
    have "path_parent p = render ab ds False"
      using nroot un rp False okd nd cs tid [of ds ab]
      by (simp add: path_parent_def Path_single render_eq_Nil)
    then show ?thesis
      using floordiv_canonical [OF okd, of ab False False False] False nm d un nd cs
        tid [of "ds @ [d]" ab] okd by simp
  qed
qed

theorem path_parent_name_witness:
  "floordiv (path_parent ''a/b/'') (path_name ''a/b/'') = untrailed ''a/b/''"
  by (rule path_parent_name) (code_simp+)

text \<open>\<open>relative_to\<close> undoes the join operator: joining a relative path to a base
  and asking for the result relative to that base gives the relative path back.\<close>

theorem relative_to_floordiv:
  assumes "tidy_ok q" and "tidy_ok r" and "\<not> is_abs r"
    and "''.'' \<notin> set (path_components q)" and "''.'' \<notin> set (path_components r)"
  shows "relative_to (floordiv q r) q = Inr r"
proof -
  obtain ab cs tr where q: "q = render ab cs tr" and ok: "comps_ok cs" and ne: "ab \<or> cs \<noteq> []"
    using assms(1) by (rule tidy_ok_canonical)
  obtain ab' ds tr' where r: "r = render ab' ds tr'" and okd: "comps_ok ds" and ne': "ab' \<or> ds \<noteq> []"
    using assms(2) by (rule tidy_ok_canonical)
  have nab: "\<not> ab'" using assms(3) r okd by (simp add: is_abs_render)
  with ne' have "ds \<noteq> []" by simp
  from q ok assms(4) have nd: "''.'' \<notin> set cs" by (simp add: path_components_render)
  from r okd assms(5) have nd': "''.'' \<notin> set ds" by (simp add: path_components_render)
  have "floordiv q r = tidy (render ab (cs @ ds) tr')"
    using floordiv_canonical [OF ok okd ne] q r \<open>ds \<noteq> []\<close> by simp
  also have "\<dots> = render ab (cs @ ds) tr'"
    using ok okd \<open>ds \<noteq> []\<close> nd nd'
    by (intro tidy_ok_tidy) (auto simp: tidy_ok_render hd_append dest: hd_in_set)
  finally have fd: "floordiv q r = render ab (cs @ ds) tr'" .
  have un: "untrailed q = render ab cs False"
  proof (cases "cs = []")
    case True
    with ne q show ?thesis by (simp add: render_root)
  qed (use untrailed_render [OF ok _ assms(1) [unfolded q]] q in simp)
  have cp: "common_prefix (cs @ ds) cs = cs" by (induction cs) auto
  have filt: "filter (\<lambda>c. c \<noteq> ''.'') cs = cs" "filter (\<lambda>c. c \<noteq> ''.'') ds = ds"
    using nd nd' by (auto intro!: filter_True)
  have common: "commonpath (render ab (cs @ ds) tr') (render ab cs False) = Inr (render ab cs False)"
    using ok okd filt cp by (simp add: commonpath_def render_simps Let_def) (simp add: render_def)
  have drop: "drop (length (render ab cs False) + (if render ab cs False = [slash] then 0 else 1))
      (render ab (cs @ ds) tr') = render False ds tr'"
  proof (cases "cs = []")
    case True
    then show ?thesis using ne by (simp add: render_def)
  next
    case False
    then have "render ab cs False \<noteq> [slash]"
      using path_components_render [OF ok, of ab False] by auto
    moreover have "render ab (cs @ ds) tr' = render ab cs False @ slash # render False ds tr'"
      using False \<open>ds \<noteq> []\<close> by (simp add: render_def join_append)
    ultimately show ?thesis by simp
  qed
  have "tidy (render False ds tr') = render False ds tr'"
    using tidy_ok_tidy [OF assms(2)] r nab by simp
  then show ?thesis
    using fd un common drop r nab by (simp add: relative_to_def relative_to_str_def Path_single)
qed

theorem relative_to_floordiv_witness:
  "relative_to (floordiv ''/a/b/'' ''c/d/'') ''/a/b/'' = Inr ''c/d/''"
  by (rule relative_to_floordiv) (code_simp+)

end
