(* ===== verification/Variables.thy ===== *)
theory Variables
  imports Regex
begin

text \<open>
  Variable substitution (\<open>variables_sub\<close> of \<open>lib/charliecloud.py\<close>) and the
  expansion of replacement templates that \<open>re.sub\<close> performs on the substituted
  value. Lemmas: what the substitution pattern matches, and the effect of a substitution
  on text with one reference.
\<close>

section \<open>Replacement templates\<close>

text \<open>
  A string given to \<open>re.sub\<close> as replacement is a template: a backslash starts an
  escape, a group reference or an octal code. \<open>g1\<close> is the text of the pattern's only
  group, \<open>g0\<close> the whole match. References to other groups, unknown escapes of ASCII
  letters and a trailing backslash are errors (\<open>re.error\<close>).
\<close>

definition is_octal :: "char \<Rightarrow> bool" where "is_octal = in_range CHR ''0'' CHR ''7''"

definition octal_char :: "string \<Rightarrow> char" where
  "octal_char s = char_of (foldl (\<lambda>n c. 8 * n + digit_val c) 0 s mod 256)"

fun simple_escape :: "char \<Rightarrow> char option" where
  "simple_escape c =
     (if c = CHR ''n'' then Some CHR 0x0A else if c = CHR ''t'' then Some CHR 0x09
      else if c = CHR ''r'' then Some CHR 0x0D else if c = CHR ''a'' then Some CHR 0x07
      else if c = CHR ''b'' then Some CHR 0x08 else if c = CHR ''f'' then Some CHR 0x0C
      else if c = CHR ''v'' then Some CHR 0x0B else if c = backslash then Some backslash
      else None)"

definition template_escape :: "string \<Rightarrow> string \<Rightarrow> string \<Rightarrow> (string \<times> nat) res" where
  \<comment> \<open>expansion of the escape whose text after the backslash is \<open>t\<close>, and its length\<close>
  "template_escape g0 g1 t =
     (case t of
        [] \<Rightarrow> Inl Re_Error
      | c # r \<Rightarrow>
          if c = CHR ''g'' then
            (if prefix ''<0>'' r then Inr (g0, 4)
             else if prefix ''<1>'' r then Inr (g1, 4) else Inl Re_Error)
          else if c = CHR ''0'' then
            (let ds = takeWhile is_octal (take 2 r) in Inr ([octal_char (c # ds)], Suc (length ds)))
          else if is_digit c then
            (let d3 = take 3 t in
             if length d3 = 3 \<and> list_all is_octal d3
             then (if c \<in> set ''123'' then Inr ([octal_char d3], 3) else Inl Re_Error)
             else if r \<noteq> [] \<and> is_digit (hd r) then Inl Re_Error
             else if c = CHR ''1'' then Inr (g1, 1) else Inl Re_Error)
          else (case simple_escape c of
                  Some e \<Rightarrow> Inr ([e], 1)
                | None \<Rightarrow> if is_lower c \<or> is_upper c then Inl Re_Error else Inr ([backslash, c], 1)))"

function expand_template :: "string \<Rightarrow> string \<Rightarrow> string \<Rightarrow> string res" where
  "expand_template g0 g1 [] = Inr []"
| "expand_template g0 g1 (c # t) =
     (if c = backslash
      then bindr (template_escape g0 g1 t) (\<lambda>(x, n).
             bindr (expand_template g0 g1 (drop n t)) (\<lambda>y. Inr (x @ y)))
      else bindr (expand_template g0 g1 t) (\<lambda>y. Inr (c # y)))"
  by pat_completeness auto
termination
  by (relation "measure (\<lambda>(g0, g1, t). length t)") auto

lemma expand_template_plain: "backslash \<notin> set v \<Longrightarrow> expand_template g0 g1 v = Inr v"
  by (induction v) auto

section \<open>variables_sub\<close>

text \<open>\<open>r"(?<!\\)\${.+?:[+-].+?}"\<close>\<close>

definition modifier_re :: re where
  "modifier_re = Seqs [Not_Behind (\<lambda>c. c = backslash), Lit ''${'', Lazy1 Any, Lit '':'',
     Cls (\<lambda>c. c \<in> set ''+-''), Lazy1 Any, Lit ''}'']"

text \<open>\<open>r"(?<!\\)\$({%s}|%s(?=\W|$))" % (k, k)\<close>, for a name of word characters\<close>

definition var_re :: "string \<Rightarrow> re" where
  "var_re k = Seqs [Not_Behind (\<lambda>c. c = backslash), Lit ''$'',
     Grp 1 (Alt (Lit (''{'' @ k @ ''}''))
                (Seq (Lit k) (Ahead (Alt (Cls (\<lambda>c. \<not> is_word c)) Eol))))]"

fun sub_template :: "string \<Rightarrow> string \<Rightarrow> nat \<Rightarrow> match list \<Rightarrow> string res" where
  "sub_template v s i [] = Inr (drop i s)"
| "sub_template v s i (m # ms) =
     bindr (expand_template (re_group s m 0) (re_group s m 1) v) (\<lambda>x.
     bindr (sub_template v s (fst (snd m)) ms) (\<lambda>rest.
       Inr (slice s i (fst m) @ x @ rest)))"

text \<open>
  \<open>re.sub(var_re k, v, s)\<close>. The template is parsed even when nothing matches, so a bad
  one is an error in any case; group references do not matter for that.
\<close>

definition var_sub :: "string \<Rightarrow> string \<Rightarrow> string \<Rightarrow> string res" where
  "var_sub k v s =
     bindr (expand_template [] [] v) (\<lambda>_. sub_template v s 0 (finditer (var_re k) s))"

definition var_name :: "string \<Rightarrow> bool" where
  "var_name k \<longleftrightarrow> k \<noteq> [] \<and> list_all is_word k \<and> \<not> list_all is_digit k"

text \<open>
  The loop of \<open>variables_sub\<close>. A name with characters that mean something in a regular
  expression (or one that reads as a repetition count) would be interpolated into the
  pattern as such; the model stops there.
\<close>

fun variables_sub :: "string \<Rightarrow> (string, string) dict \<Rightarrow> string res" where
  "variables_sub s [] = Inr s"
| "variables_sub s ((k, v) # vars) =
     (if \<not> var_name k then Inl (Unmodelled ''variable name is not a word'')
      else if search_p modifier_re s
      then Inl (Fatal ''modifiers ${foo:+bar} and ${foo:-bar} not yet supported (issue #774)'')
      else bindr (var_sub k v s) (\<lambda>s'. variables_sub s' vars))"

definition variables_sub_opt :: "string option \<Rightarrow> (string, string) dict \<Rightarrow> string option res" where
  "variables_sub_opt s vars =
     (case s of None \<Rightarrow> Inr None | Some t \<Rightarrow> bindr (variables_sub t vars) (\<lambda>u. Inr (Some u)))"

section \<open>What the patterns match\<close>

text \<open>A dollar sign that is not preceded by a backslash starts each match.\<close>

definition dollar_at :: "string \<Rightarrow> nat \<Rightarrow> bool" where
  "dollar_at s i \<longleftrightarrow> i < length s \<and> s ! i = CHR ''$'' \<and> \<not> (i > 0 \<and> s ! (i - 1) = backslash)"

lemma not_behind_backslash:
  "i \<le> length s \<Longrightarrow>
   matches (Not_Behind (\<lambda>c. c = backslash)) s (i, cs) =
     (if i > 0 \<and> s ! (i - 1) = backslash then [] else [(i, cs)])"
  by (auto simp: char_at_def)

lemma prefix_single_drop: "prefix [c] (drop i s) \<longleftrightarrow> i < length s \<and> s ! i = c"
  by (cases "i < length s") (auto simp: Cons_nth_drop_Suc [symmetric])

lemma var_re_matches:
  assumes "i \<le> length s"
  shows "matches (var_re k) s (i, []) =
    (if dollar_at s i
     then matches (Grp 1 (Alt (Lit (''{'' @ k @ ''}''))
            (Seq (Lit k) (Ahead (Alt (Cls (\<lambda>c. \<not> is_word c)) Eol))))) s (Suc i, [])
     else [])"
  using assms matches_Lit [OF assms, of "''$''"]
  by (auto simp: var_re_def not_behind_backslash dollar_at_def prefix_single_drop
      simp del: matches.simps(2,10) Lit.simps)

lemma modifier_re_matches:
  assumes "i \<le> length s" and "\<not> dollar_at s i"
  shows "matches modifier_re s (i, []) = []"
proof -
  have "\<not> prefix ''${'' (drop i s)" if "i = 0 \<or> s ! (i - 1) \<noteq> backslash"
    using assms that
    by (cases "i < length s") (auto simp: dollar_at_def Cons_nth_drop_Suc [symmetric])
  then show ?thesis
    using assms(1)
    by (auto simp: modifier_re_def not_behind_backslash matches_Lit simp del: matches.simps(10) Lit.simps)
qed

lemma no_dollar_no_search:
  assumes "\<forall>i. i0 \<le> i \<longrightarrow> \<not> dollar_at s i"
  shows "search_from (var_re k) s i0 = None"
proof -
  have "matches (var_re k) s (i, []) = []" if "i \<in> set [i0 ..< Suc (length s)]" for i
    using that assms var_re_matches [of i s k] by (simp del: upt_Suc)
  then show ?thesis
    unfolding search_from_def by (auto simp: first_match_None_iff simp del: upt_Suc)
qed

lemma no_dollar_modifier:
  assumes "\<forall>i. \<not> dollar_at s i" shows "\<not> search_p modifier_re s"
  using assms modifier_re_matches by (auto simp: search_p_def search_None_iff)

text \<open>No modifier without a colon behind the dollar sign.\<close>

lemma modifier_needs_colon:
  assumes "i \<le> length s" and "matches modifier_re s (i, []) \<noteq> []"
  shows "CHR '':'' \<in> set (drop i s)"
proof -
  let ?tail = "Seq (Cls (\<lambda>c. c \<in> set ''+-'')) (Seq (Lazy1 Any) (Lit ''}''))"
  have "matches (Seq (Not_Behind (\<lambda>c. c = backslash)) (Seq (Lit ''${'')
        (Seq (Lazy1 Any) (Seq (Lit '':'') ?tail)))) s (i, []) \<noteq> []"
    using assms(2) unfolding modifier_re_def Seqs.simps .
  then obtain st where "st \<in> set (matches (Seq (Not_Behind (\<lambda>c. c = backslash)) (Seq (Lit ''${'')
        (Seq (Lazy1 Any) (Seq (Lit '':'') ?tail)))) s (i, []))"
    by (meson list.set_sel(1))
  then obtain s1 r1 where 1: "s1 \<in> set (matches (Not_Behind (\<lambda>c. c = backslash)) s (i, []))"
    and r1: "r1 \<in> set (matches (Seq (Lit ''${'') (Seq (Lazy1 Any) (Seq (Lit '':'') ?tail))) s s1)"
    by (blast elim: matches_SeqE)
  from r1 obtain s2 r2 where 2: "s2 \<in> set (matches (Lit ''${'') s s1)"
    and r2: "r2 \<in> set (matches (Seq (Lazy1 Any) (Seq (Lit '':'') ?tail)) s s2)"
    by (blast elim: matches_SeqE)
  from r2 obtain s3 r3 where 3: "s3 \<in> set (matches (Lazy1 Any) s s2)"
    and r3: "r3 \<in> set (matches (Seq (Lit '':'') ?tail) s s3)"
    by (blast elim: matches_SeqE)
  from r3 obtain s4 where s4: "s4 \<in> set (matches (Lit '':'') s s3)"
    by (blast elim: matches_SeqE)
  then have 4: "matches (Lit '':'') s s3 \<noteq> []" by (metis list.set(1) empty_iff)
  have "i \<le> fst s1" "fst s1 \<le> length s" using matches_bounds [OF 1] assms(1) by auto
  moreover from this have "fst s1 \<le> fst s2" "fst s2 \<le> length s" using matches_bounds [OF 2] by auto
  moreover from this have "fst s2 \<le> fst s3" "fst s3 \<le> length s" using matches_bounds [OF 3] by auto
  ultimately have "i \<le> fst s3" "fst s3 \<le> length s" by auto
  with 4 matches_Lit [of "fst s3" s "'':''" "snd s3"]
  have "prefix '':'' (drop (fst s3) s)" by (auto split: if_splits)
  then have "CHR '':'' \<in> set (drop (fst s3) s)"
    by (metis list.set_intros(1) prefix_Cons prefix_def append_Cons)
  moreover have "set (drop (fst s3) s) \<subseteq> set (drop i s)"
    using \<open>i \<le> fst s3\<close> by (rule set_drop_subset_set_drop)
  ultimately show ?thesis by blast
qed

section \<open>Text with one reference\<close>

text \<open>
  \<open>a\<close>, then \<open>${k}\<close>, then \<open>b\<close>, with no other dollar sign, no backslash in front and
  no colon behind.
\<close>

definition plain_context :: "string \<Rightarrow> string \<Rightarrow> bool" where
  "plain_context a b \<longleftrightarrow> CHR ''$'' \<notin> set a \<and> CHR ''$'' \<notin> set b \<and> CHR '':'' \<notin> set b
     \<and> (a = [] \<or> last a \<noteq> backslash)"

abbreviation braced :: "string \<Rightarrow> string" where
  "braced k \<equiv> ''${'' @ k @ ''}''"

lemma word_no_special:
  assumes "list_all is_word k" and "c \<in> set k"
  shows "c \<noteq> CHR ''$'' \<and> c \<noteq> CHR ''{'' \<and> c \<noteq> CHR ''}'' \<and> c \<noteq> CHR '':'' \<and> c \<noteq> backslash"
proof -
  from assms have "is_word c" by (auto simp: list_all_iff)
  then show ?thesis by (auto simp: char_class_defs)
qed

lemma dollar_at_braced:
  assumes "plain_context a b" and "list_all is_word k"
  shows "dollar_at (a @ braced k @ b) i \<longleftrightarrow> i = length a"
proof
  assume d: "dollar_at (a @ braced k @ b) i"
  show "i = length a"
  proof (rule ccontr)
    assume ne: "i \<noteq> length a"
    have "CHR ''$'' \<notin> set (CHR ''{'' # k @ CHR ''}'' # b)"
      using assms word_no_special [OF assms(2)] by (auto simp: plain_context_def)
    moreover have "(a @ braced k @ b) ! i \<in> set a \<union> set (CHR ''{'' # k @ CHR ''}'' # b)"
    proof (cases "i < length a")
      case True
      then show ?thesis by (simp add: nth_append)
    next
      case False
      with ne have i: "i > length a" by simp
      define n where "n = i - Suc (length a)"
      from i have i_eq: "i = length a + Suc n" by (simp add: n_def)
      have "(a @ braced k @ b) ! i = (CHR ''{'' # k @ CHR ''}'' # b) ! n"
        unfolding i_eq by (subst nth_append) simp
      moreover have "n < length (CHR ''{'' # k @ CHR ''}'' # b)"
        using d unfolding dollar_at_def i_eq by simp
      ultimately show ?thesis by (metis UnI2 nth_mem)
    qed
    ultimately show False
      using d assms(1) by (auto simp: dollar_at_def plain_context_def)
  qed
next
  assume "i = length a"
  with assms(1) show "dollar_at (a @ braced k @ b) i"
    by (auto simp: dollar_at_def plain_context_def nth_append last_conv_nth)
qed

lemma braced_no_modifier:
  assumes "plain_context a b" and "list_all is_word k"
  shows "\<not> search_p modifier_re (a @ braced k @ b)"
proof -
  let ?s = "a @ braced k @ b"
  have "matches modifier_re ?s (i, []) = []" if "i \<le> length ?s" for i
  proof (cases "i = length a")
    case True
    have "CHR '':'' \<notin> set (drop i ?s)"
      using assms word_no_special [OF assms(2)] True by (auto simp: plain_context_def)
    then show ?thesis using modifier_needs_colon [OF that] by blast
  next
    case False
    then have "\<not> dollar_at ?s i" using dollar_at_braced [OF assms] by blast
    with that show ?thesis by (rule modifier_re_matches)
  qed
  then show ?thesis by (simp add: search_p_def search_None_iff)
qed

lemma braced_key_unique:
  assumes "list_all is_word k" "list_all is_word k'" "prefix (''{'' @ k' @ ''}'') (''{'' @ k @ ''}'' @ b)"
  shows "k' = k"
proof -
  from assms(3) have "prefix (k' @ ''}'') (k @ ''}'' @ b)" by simp
  moreover have "takeWhile (\<lambda>c. c \<noteq> CHR ''}'') (k @ ''}'' @ b) = k"
    using word_no_special [OF assms(1)] by (subst takeWhile_append2) auto
  moreover have "takeWhile (\<lambda>c. c \<noteq> CHR ''}'') (k' @ ''}'' @ y) = k'" for y
    using word_no_special [OF assms(2)] by (subst takeWhile_append2) auto
  ultimately show ?thesis by (metis append.assoc prefix_def)
qed

lemma var_re_at_braced:
  assumes "plain_context a b" "list_all is_word k" "var_name k'"
  shows "matches (var_re k') (a @ braced k @ b) (length a, []) =
    (if k' = k then [(length a + length k + 3, [(1, Suc (length a), length a + length k + 3)])]
     else [])"
proof -
  let ?s = "a @ braced k @ b" and ?n = "length a"
  have n: "Suc ?n \<le> length ?s" by simp
  have d: "drop (Suc ?n) ?s = ''{'' @ k @ ''}'' @ b" by simp
  from assms(3) obtain x xs where k': "k' = x # xs" "is_word x" "list_all is_word k'"
    by (cases k') (auto simp: var_name_def)
  then have "x \<noteq> CHR ''{''" using word_no_special [of k' x] by auto
  then have np: "\<not> prefix k' (drop (Suc ?n) ?s)" using d k' by auto
  have br: "prefix (''{'' @ k' @ ''}'') (drop (Suc ?n) ?s) \<longleftrightarrow> k' = k"
    using braced_key_unique [OF assms(2) k'(3), of b] d by auto
  have "matches (Lit (''{'' @ k' @ ''}'')) ?s (Suc ?n, []) =
      (if k' = k then [(Suc ?n + length k + 2, [])] else [])"
    using matches_Lit [OF n, of "''{'' @ k' @ ''}''" "[]"] br by auto
  moreover have "matches (Lit k') ?s (Suc ?n, []) = []"
    using matches_Lit [OF n, of k' "[]"] np by simp
  ultimately show ?thesis
    using assms dollar_at_braced [OF assms(1,2), of ?n]
    by (subst var_re_matches) (auto simp del: Lit.simps)
qed

lemma var_sub_braced:
  assumes "plain_context a b" "list_all is_word k" "var_name k'" "backslash \<notin> set v"
  shows "var_sub k' v (a @ braced k @ b) = Inr (if k' = k then a @ v @ b else a @ braced k @ b)"
proof -
  let ?s = "a @ braced k @ b" and ?n = "length a"
  have off: "matches (var_re k') ?s (i, []) = []" if "i \<le> length ?s" "i \<noteq> ?n" for i
    using that dollar_at_braced [OF assms(1,2)] by (subst var_re_matches) auto
  show ?thesis
  proof (cases "k' = k")
    case True
    let ?j = "?n + length k + 3" let ?cs = "[(1, Suc ?n, ?j)]"
    have "re_search (var_re k') ?s = Some (?n, ?j, ?cs)"
      unfolding re_search_def
      using off var_re_at_braced [OF assms(1-3)] True
      by (intro search_from_first) auto
    moreover have "search_from (var_re k') ?s ?j = None"
      using dollar_at_braced [OF assms(1,2)] by (intro no_dollar_no_search) auto
    ultimately have "finditer (var_re k') ?s = [(?n, ?j, ?cs)]"
      by (intro finditer_one) auto
    moreover have "slice ?s 0 ?n = a" by (simp add: slice_def)
    moreover have "drop ?j ?s = b" by (simp add: numeral_3_eq_3)
    ultimately show ?thesis
      using True assms(4) by (simp add: var_sub_def expand_template_plain)
  next
    case False
    then have "matches (var_re k') ?s (i, []) = []" if "i \<le> length ?s" for i
      using that off var_re_at_braced [OF assms(1-3)] by (cases "i = ?n") auto
    then have "finditer (var_re k') ?s = []"
      by (intro finditer_none) (simp add: search_None_iff)
    with False show ?thesis
      using assms(4) by (simp add: var_sub_def expand_template_plain)
  qed
qed

lemma variables_sub_no_dollar:
  assumes "CHR ''$'' \<notin> set s" "\<forall>(k, v) \<in> set vars. var_name k \<and> backslash \<notin> set v"
  shows "variables_sub s vars = Inr s"
  using assms(2)
proof (induction vars)
  case (Cons p vars)
  obtain k v where p: "p = (k, v)" by (cases p)
  have nd: "\<not> dollar_at s i" for i
    using assms(1) nth_mem by (fastforce simp: dollar_at_def)
  have "finditer (var_re k) s = []"
    using no_dollar_no_search [of 0 s k] nd by (intro finditer_none) (simp add: re_search_def)
  then have "var_sub k v s = Inr s"
    using Cons.prems p by (simp add: var_sub_def expand_template_plain)
  with Cons p no_dollar_modifier nd show ?case by simp
qed simp

text \<open>A whole environment: later variables do not disturb the value put in earlier.\<close>

definition plain_env :: "(string, string) dict \<Rightarrow> bool" where
  "plain_env vars \<longleftrightarrow> dict_ok vars
     \<and> list_all (\<lambda>(k, v). var_name k \<and> CHR ''$'' \<notin> set v \<and> backslash \<notin> set v) vars"

text \<open>
  A braced reference to a variable of the environment is replaced by the variable's
  value and nothing else changes; a reference to a name the environment lacks stays as it
  is. This is \<open>variables_sub\<close> on text with one reference and no modifier, for any
  environment of plain values.
\<close>

theorem variables_sub_braced:
  assumes "plain_context a b" "var_name k" "plain_env vars"
  shows "variables_sub (a @ braced k @ b) vars =
    Inr (case map_of vars k of Some v \<Rightarrow> a @ v @ b | None \<Rightarrow> a @ braced k @ b)"
  using assms(3)
proof (induction vars)
  case (Cons p vars)
  obtain k' v where p: "p = (k', v)" by (cases p)
  from Cons.prems p have v: "var_name k'" "CHR ''$'' \<notin> set v" "backslash \<notin> set v"
    and env: "plain_env vars" by (auto simp: plain_env_def dict_ok_def)
  from assms(2) have k: "list_all is_word k" by (simp add: var_name_def)
  have sub: "variables_sub (a @ braced k @ b) (p # vars) =
    variables_sub (if k' = k then a @ v @ b else a @ braced k @ b) vars"
    unfolding p variables_sub.simps var_sub_braced [OF assms(1) k v(1,3)]
    using v(1) braced_no_modifier [OF assms(1) k] by simp
  show ?case
  proof (cases "k' = k")
    case True
    have "variables_sub (a @ v @ b) vars = Inr (a @ v @ b)"
      using env v assms(1)
      by (intro variables_sub_no_dollar) (auto simp: plain_context_def plain_env_def list_all_iff)
    with sub True have "variables_sub (a @ braced k @ b) (p # vars) = Inr (a @ v @ b)"
      by (simp only: if_True simp_thms)
    moreover have "map_of (p # vars) k = Some v" using True p by simp
    ultimately show ?thesis by (simp only: option.case)
  next
    case False
    then have "map_of (p # vars) k = map_of vars k" using p by simp
    with False sub Cons.IH [OF env] show ?thesis by (simp only: if_False)
  qed
qed simp

lemma variables_sub_braced_witness:
  "variables_sub ''p=${B}!'' [(''A'', ''x''), (''B'', ''usr'')] = Inr ''p=usr!''"
proof -
  have 1: "plain_context ''p='' ''!''" by (simp add: plain_context_def)
  have 2: "var_name ''B''" by (simp add: var_name_def char_class_defs)
  have 3: "plain_env [(''A'', ''x''), (''B'', ''usr'')]"
    by (simp add: plain_env_def dict_ok_def var_name_def char_class_defs)
  show ?thesis
    using variables_sub_braced [OF 1 2 3] by (simp del: variables_sub.simps)
qed

end
