(* ===== verification/Utils.thy ===== *)
theory Utils
  imports Complex_Main Paths Variables
begin

text \<open>
  The support code of \<open>lib/charliecloud.py\<close>: modes and log levels, the architecture
  dictionary, ordered sets, progress meters, logging with saved warnings, running
  commands, version checks, start-up (\<open>init\<close>), and killing a process. What the
  operating system answers (an exit status, a clock reading, the result of a signal) is
  an argument of the definitions.
\<close>

section \<open>Modes and levels\<close>

datatype build_mode = Cache_Enabled | Cache_Disabled | Cache_Rebuild
datatype download_mode = Dl_Enabled | Dl_Write_Only
datatype force_mode = Force_Fakeroot | Force_Seccomp | Force_None

definition build_mode_of :: "string \<Rightarrow> build_mode res" where
  "build_mode_of s =
     (if s = ''enabled'' then Inr Cache_Enabled
      else if s = ''disabled'' then Inr Cache_Disabled
      else if s = ''rebuild'' then Inr Cache_Rebuild else Inl Value_Error)"

definition force_mode_of :: "string \<Rightarrow> force_mode res" where
  "force_mode_of s =
     (if s = ''fakeroot'' then Inr Force_Fakeroot
      else if s = ''seccomp'' then Inr Force_Seccomp
      else if s = ''none'' then Inr Force_None else Inl Value_Error)"

datatype log_level = TRACE | DEBUG | VERBOSE | INFO | WARNING | STDERR | QUIET_STDERR

fun level_value :: "log_level \<Rightarrow> int" where
  "level_value TRACE = 3"
| "level_value DEBUG = 2"
| "level_value VERBOSE = 1"
| "level_value INFO = 0"
| "level_value WARNING = - 1"
| "level_value STDERR = - 2"
| "level_value QUIET_STDERR = - 3"

definition log_level_of :: "int \<Rightarrow> log_level res" where
  "log_level_of v =
     (case List.find (\<lambda>l. level_value l = v)
             [TRACE, DEBUG, VERBOSE, INFO, WARNING, STDERR, QUIET_STDERR] of
        None \<Rightarrow> Inl Value_Error | Some l \<Rightarrow> Inr l)"

lemma level_value_inj: "level_value l = level_value m \<longleftrightarrow> l = m"
  by (cases l; cases m) simp_all

text \<open>\<open>Log_Level.__lt__\<close>, which orders the levels\<close>

definition level_less :: "log_level \<Rightarrow> log_level \<Rightarrow> bool" where
  "level_less l m \<longleftrightarrow> level_value l < level_value m"

instantiation log_level :: linorder
begin

definition less_eq_log_level :: "log_level \<Rightarrow> log_level \<Rightarrow> bool" where
  "less_eq_log_level l m \<longleftrightarrow> level_value l \<le> level_value m"

definition less_log_level :: "log_level \<Rightarrow> log_level \<Rightarrow> bool" where
  "less_log_level l m \<longleftrightarrow> level_less l m"

instance
  by standard (auto simp: less_eq_log_level_def less_log_level_def level_less_def level_value_inj)

end

lemmas level_order = less_eq_log_level_def less_log_level_def level_less_def

lemma log_level_of_value: "log_level_of (level_value l) = Inr l"
  by (cases l) (simp_all add: log_level_of_def)

lemma log_level_of_ok: "log_level_of v = Inr l \<longleftrightarrow> level_value l = v"
proof
  assume "log_level_of v = Inr l"
  then show "level_value l = v"
    by (auto simp: log_level_of_def find_Some_iff simp del: find.simps split: option.splits)
qed (auto simp: log_level_of_value)

section \<open>Architectures\<close>

definition arch_map :: "(string, string) dict" where
  "arch_map =
     [(''armv5l'', ''arm/v5''), (''armv6l'', ''arm/v6''), (''aarch32'', ''arm/v7''),
      (''armv7l'', ''arm/v7''), (''aarch64'', ''arm64/v8''), (''armv8l'', ''arm64/v8''),
      (''i386'', ''386''), (''i686'', ''386''), (''mips64le'', ''mips64le''),
      (''ppc64le'', ''ppc64le''), (''s390x'', ''s390x''), (''x86_64'', ''amd64'')]"

definition arch_map_fallback :: "(string, string list) dict" where
  "arch_map_fallback = [(''arm/v7'', [''arm'']), (''arm64/v8'', [''arm64''])]"

definition arch_host_get :: "string \<Rightarrow> string res" where
  "arch_host_get machine =
     of_opt (Fatal ''unknown host architecture: %s'') (map_of arch_map machine)"

text \<open>\<open>Arch_Dict\<close>: a dictionary whose look-ups consider fallback architectures.\<close>

definition fallback_key :: "(string, 'a) dict \<Rightarrow> string \<Rightarrow> string res" where
  "fallback_key d k =
     (if map_of d k \<noteq> None then Inl Assertion_Error
      else case map_of arch_map_fallback k of
             None \<Rightarrow> Inl Key_Error
           | Some fs \<Rightarrow> of_opt Key_Error (List.find (\<lambda>f. map_of d f \<noteq> None) fs))"

definition arch_contains :: "(string, 'a) dict \<Rightarrow> string \<Rightarrow> bool res" where
  "arch_contains d k =
     (if map_of d k \<noteq> None then Inr True
      else case fallback_key d k of
             Inl e \<Rightarrow> if e = Key_Error then Inr False else Inl e
           | Inr f \<Rightarrow> Inr (map_of d f \<noteq> None))"

definition arch_getitem :: "(string, 'a) dict \<Rightarrow> string \<Rightarrow> 'a res" where
  "arch_getitem d k =
     (case map_of d k of
        Some v \<Rightarrow> Inr v
      | None \<Rightarrow> bindr (fallback_key d k) (\<lambda>f. of_opt Key_Error (map_of d f)))"

definition arch_in_warn :: "(string, 'a) dict \<Rightarrow> string \<Rightarrow> (bool \<times> bool) res" where
  \<comment> \<open>the answer, and whether a fallback warning was logged\<close>
  "arch_in_warn d k =
     bindr (arch_contains d k) (\<lambda>r.
       if r \<and> map_of d k = None then bindr (fallback_key d k) (\<lambda>_. Inr (r, True))
       else Inr (r, False))"

section \<open>Ordered sets\<close>

text \<open>\<open>OrderedSet\<close>: the keys of an ordered dictionary.\<close>

definition oset_add :: "'a \<Rightarrow> 'a list \<Rightarrow> 'a list" where
  "oset_add x xs = (if x \<in> set xs then xs else xs @ [x])"

definition oset_init :: "'a list \<Rightarrow> 'a list" where
  "oset_init xs = fold oset_add xs []"

definition oset_discard :: "'a \<Rightarrow> 'a list \<Rightarrow> 'a list" where
  "oset_discard x xs = filter (\<lambda>y. y \<noteq> x) xs"

definition oset_clear :: "'a list \<Rightarrow> 'a list" where "oset_clear xs = []"

section \<open>Progress meters\<close>

text \<open>
  What a line of a progress meter reports: the count, and with a known length the
  percentage (\<open>"%d" % (100 * progress / length)\<close>, which truncates).
\<close>

record progress =
  p_divisor :: nat
  p_length :: "nat option"
  p_progress :: nat
  p_display_last :: "rat option" \<comment> \<open>\<open>None\<close> stands for minus infinity\<close>

datatype progress_line =
    Count_Only nat
  | Count_Of nat nat int \<comment> \<open>progress, length, percent\<close>

definition progress_update :: "rat \<Rightarrow> nat \<Rightarrow> bool \<Rightarrow> progress \<Rightarrow>
    (progress \<times> progress_line option) res" where
  "progress_update now inc final p =
     (let p' = p\<lparr>p_progress := p_progress p + inc\<rparr> in
      if final \<or> (case p_display_last p of None \<Rightarrow> True | Some t \<Rightarrow> now - t > 1)
      then (case p_length p' of
              None \<Rightarrow> Inr (p'\<lparr>p_display_last := Some now\<rparr>, Some (Count_Only (p_progress p')))
            | Some n \<Rightarrow>
                if n = 0 then Inl Zero_Division_Error
                else Inr (p'\<lparr>p_display_last := Some now\<rparr>,
                          Some (Count_Of (p_progress p') n (int (100 * p_progress p' div n)))))
      else Inr (p', None))"

definition progress_init :: "rat \<Rightarrow> nat \<Rightarrow> nat option \<Rightarrow> (progress \<times> progress_line option) res" where
  "progress_init now divisor len =
     progress_update now 0 False
       \<lparr>p_divisor = divisor, p_length = len, p_progress = 0, p_display_last = None\<rparr>"

definition progress_done :: "rat \<Rightarrow> progress \<Rightarrow> (progress \<times> progress_line option) res" where
  "progress_done now p = progress_update now 0 True p"

text \<open>A meter fed with timed increments; the lines it prints, with their times.\<close>

fun progress_run :: "(rat \<times> nat) list \<Rightarrow> progress \<Rightarrow>
    (progress \<times> (rat \<times> progress_line) list) res" where
  "progress_run [] p = Inr (p, [])"
| "progress_run ((now, inc) # us) p =
     bindr (progress_update now inc False p) (\<lambda>(p1, line).
     bindr (progress_run us p1) (\<lambda>(p2, ls).
       Inr (p2, (case line of None \<Rightarrow> ls | Some l \<Rightarrow> (now, l) # ls))))"

text \<open>
  \<open>Progress_Writer\<close>: downloads go to a temporary sibling of the target. \<open>close\<close>
  replaces the target by it; the file system is a map from paths to contents.
\<close>

definition writer_path_tmp :: "string \<Rightarrow> string res" where
  "writer_path_tmp path = with_name path (''part_'' @ path_name path)"

definition writer_close :: "bool \<Rightarrow> string \<Rightarrow> (string \<rightharpoonup> string) \<Rightarrow> (string \<rightharpoonup> string) res" where
  "writer_close started path fs =
     (if \<not> started then Inr fs
      else bindr (writer_path_tmp path) (\<lambda>tmp.
        case (fs(path := None)) tmp of
          None \<Rightarrow> Inl (Os_Error ''rename'')
        | Some c \<Rightarrow> Inr (fs(path \<mapsto> c, tmp := None))))"

section \<open>Logging\<close>

text \<open>The lines \<open>log\<close> prints: the message, then a hint and a trace when given.\<close>

definition log_lines :: "string \<Rightarrow> string \<Rightarrow> string \<Rightarrow> string option \<Rightarrow> string option \<Rightarrow> string list" where
  "log_lines festoon prfx msg hint trace =
     [festoon @ prfx @ msg]
     @ (case hint of None \<Rightarrow> [] | Some h \<Rightarrow> [festoon @ ''hint: '' @ h])
     @ (case trace of None \<Rightarrow> [] | Some t \<Rightarrow> [festoon @ ''trace: '' @ t])"

record logger =
  lg_level :: log_level
  lg_warns :: "string list"   \<comment> \<open>warnings to be reprinted at exit\<close>
  lg_out :: "string list"     \<comment> \<open>lines written to the log\<close>

definition log_emit :: "string \<Rightarrow> string \<Rightarrow> string option \<Rightarrow> logger \<Rightarrow> logger" where
  "log_emit prfx msg hint lg = lg\<lparr>lg_out := lg_out lg @ log_lines [] prfx msg hint None\<rparr>"

definition log_info :: "string \<Rightarrow> string option \<Rightarrow> logger \<Rightarrow> logger" where
  "log_info msg hint lg = (if lg_level lg \<ge> INFO then log_emit [] msg hint lg else lg)"

definition log_verbose :: "string \<Rightarrow> string option \<Rightarrow> logger \<Rightarrow> logger" where
  "log_verbose msg hint lg = (if lg_level lg \<ge> VERBOSE then log_emit [] msg hint lg else lg)"

definition log_debug :: "string \<Rightarrow> string option \<Rightarrow> logger \<Rightarrow> logger" where
  "log_debug msg hint lg = (if lg_level lg \<ge> DEBUG then log_emit [] msg hint lg else lg)"

definition log_trace :: "string \<Rightarrow> string option \<Rightarrow> logger \<Rightarrow> logger" where
  "log_trace msg hint lg = (if lg_level lg \<ge> TRACE then log_emit [] msg hint lg else lg)"

definition log_warning :: "string \<Rightarrow> string option \<Rightarrow> bool \<Rightarrow> logger \<Rightarrow> logger" where
  "log_warning msg hint msg_save lg =
     (if lg_level lg > STDERR
      then log_emit ''warning: '' msg hint
             (if msg_save then lg\<lparr>lg_warns := lg_warns lg @ [msg]\<rparr> else lg)
      else lg)"

definition warnings_dump :: "logger \<Rightarrow> logger" where
  "warnings_dump lg =
     fold (\<lambda>msg. log_warning msg None False) (lg_warns lg)
       (if lg_warns lg \<noteq> []
        then log_warning (''reprinting '' @ str_of_nat (length (lg_warns lg)) @ '' warning(s)'')
               None False lg
        else lg)"

section \<open>Command lines as text\<close>

definition shell_safe :: "char \<Rightarrow> bool" where
  "shell_safe c \<longleftrightarrow> is_word c \<or> c \<in> set ''@%+=:,./-''"

definition shlex_quote :: "string \<Rightarrow> string" where
  "shlex_quote s =
     (if s = [] then [squote, squote]
      else if list_all shell_safe s then s
      else squote # replace_str [squote] [squote, dquote, squote, dquote, squote] s @ [squote])"

definition argv_to_string :: "string list \<Rightarrow> string" where
  "argv_to_string argv =
     join '' '' (map (\<lambda>i. replace_str [newline] [backslash, CHR ''n''] (shlex_quote i)) argv)"

text \<open>
  The inverse of quoting: word splitting of \<open>shlex.split\<close> (POSIX mode). The first
  argument is the word read so far, if one has begun.
\<close>

fun shell_words :: "string option \<Rightarrow> string \<Rightarrow> string list option"
  and shell_single :: "string \<Rightarrow> string \<Rightarrow> string list option"
  and shell_double :: "string \<Rightarrow> string \<Rightarrow> string list option" where
  "shell_words w [] = Some (case w of None \<Rightarrow> [] | Some t \<Rightarrow> [t])"
| "shell_words w (c # s) =
     (let t = (case w of None \<Rightarrow> [] | Some t \<Rightarrow> t) in
      if c \<in> {CHR '' '', tab, newline, CHR 0x0D} then
        (case w of None \<Rightarrow> shell_words None s
         | Some t \<Rightarrow> map_option ((#) t) (shell_words None s))
      else if c = squote then shell_single t s
      else if c = dquote then shell_double t s
      else if c = backslash then
        (case s of [] \<Rightarrow> None | d # s' \<Rightarrow> shell_words (Some (t @ [d])) s')
      else shell_words (Some (t @ [c])) s)"
| "shell_single t [] = None"
| "shell_single t (c # s) =
     (if c = squote then shell_words (Some t) s else shell_single (t @ [c]) s)"
| "shell_double t [] = None"
| "shell_double t (c # s) =
     (if c = dquote then shell_words (Some t) s
      else if c = backslash then
        (case s of [] \<Rightarrow> None
         | d # s' \<Rightarrow> if d \<in> {dquote, backslash} then shell_double (t @ [d]) s'
                    else shell_double (t @ [c, d]) s')
      else shell_double (t @ [c]) s)"

definition shlex_split :: "string \<Rightarrow> string list option" where
  "shlex_split s = shell_words None s"

section \<open>Running commands\<close>

datatype stream = Inherit | Pipe | Devnull | To_Stdout

text \<open>Keyword arguments of \<open>subprocess.run\<close>; outer \<open>None\<close> is an absent one.\<close>

record run_opts =
  o_env :: "(string, string) dict option"
  o_input :: "string option"
  o_stdin :: "stream option"
  o_stdout :: "stream option"
  o_stderr :: "stream option"

definition no_opts :: run_opts where
  "no_opts = \<lparr>o_env = None, o_input = None, o_stdin = None, o_stdout = None, o_stderr = None\<rparr>"

record completed =
  cp_code :: int
  cp_stdout :: string
  cp_stderr :: "string option"

text \<open>
  \<open>subprocess.run\<close> as a function of the command and the options; \<open>Os_Error\<close> when the
  command cannot be started.
\<close>

type_synonym runner = "string list \<Rightarrow> run_opts \<Rightarrow> completed res"

definition cmd_base :: "runner \<Rightarrow> log_level \<Rightarrow> string list \<Rightarrow> bool \<Rightarrow> run_opts \<Rightarrow> completed res" where
  "cmd_base run lvl argv fail_ok opts =
     (let opts = (if o_stderr opts = None \<and> lvl \<le> INFO then opts\<lparr>o_stderr := Some Pipe\<rparr> else opts);
          opts = (if o_input opts = None then opts\<lparr>o_stdin := Some Devnull\<rparr> else opts) in
      bindr (case run argv opts of
               Inl (Os_Error x) \<Rightarrow> Inr \<lparr>cp_code = 127, cp_stdout = [], cp_stderr = None\<rparr>
             | r \<Rightarrow> r) (\<lambda>cp.
      if \<not> fail_ok \<and> cp_code cp \<noteq> 0 then Inl (Fatal ''command failed with code %d: %s'')
      else Inr cp))"

definition cmd :: "runner \<Rightarrow> log_level \<Rightarrow> string list \<Rightarrow> bool \<Rightarrow> run_opts \<Rightarrow> int res" where
  "cmd run lvl argv fail_ok opts =
     (let opts = (if lvl < WARNING then opts\<lparr>o_stdout := Some Devnull\<rparr> else opts);
          opts = (if lvl \<le> QUIET_STDERR then opts\<lparr>o_stderr := Some Devnull\<rparr> else opts) in
      bindr (cmd_base run lvl argv fail_ok opts) (\<lambda>cp. Inr (cp_code cp)))"

definition cmd_quiet :: "runner \<Rightarrow> log_level \<Rightarrow> string list \<Rightarrow> bool \<Rightarrow> run_opts \<Rightarrow> int res" where
  "cmd_quiet run lvl argv fail_ok opts =
     cmd run lvl argv fail_ok
       (opts\<lparr>o_stdout := Some (if lvl \<ge> DEBUG then Inherit else Devnull)\<rparr>)"

definition cmd_stdout :: "runner \<Rightarrow> log_level \<Rightarrow> string list \<Rightarrow> bool \<Rightarrow> run_opts \<Rightarrow> completed res" where
  "cmd_stdout run lvl argv fail_ok opts =
     cmd_base run lvl argv fail_ok (opts\<lparr>o_stdout := Some Pipe\<rparr>)"

definition ch_run_argv :: "string \<Rightarrow> string \<Rightarrow> string list \<Rightarrow> string \<Rightarrow> string list \<Rightarrow> string list \<Rightarrow> string list" where
  "ch_run_argv ch_bin img args workdir binds ch_run_args =
     [ch_bin @ ''/ch-run''] @ ch_run_args
     @ [''-w'', ''-u0'', ''-g0'', ''--no-passwd'', ''--cd'', workdir, ''--unsafe'']
     @ concat (map (\<lambda>i. [''-b'', i]) binds)
     @ [img, ''--''] @ args"

definition ch_run_modify :: "runner \<Rightarrow> log_level \<Rightarrow> string \<Rightarrow> string \<Rightarrow> string list \<Rightarrow>
    (string, string) dict \<Rightarrow> string \<Rightarrow> string list \<Rightarrow> string list \<Rightarrow> bool \<Rightarrow> int res" where
  "ch_run_modify run lvl ch_bin img args env workdir binds ch_run_args fail_ok =
     cmd run lvl (ch_run_argv ch_bin img args workdir binds ch_run_args) fail_ok
       (no_opts\<lparr>o_env := Some env, o_stderr := Some Inherit\<rparr>)"

section \<open>Versions and digests\<close>

text \<open>\<open>r"(\d+)\.(\d+)\.(\d+)"\<close>\<close>

definition version_re :: re where
  "version_re = Seqs [Grp 1 (Many1 (Cls is_digit)), Cls (\<lambda>c. c = CHR ''.''),
     Grp 2 (Many1 (Cls is_digit)), Cls (\<lambda>c. c = CHR ''.''), Grp 3 (Many1 (Cls is_digit))]"

definition version_check :: "runner \<Rightarrow> log_level \<Rightarrow> string list \<Rightarrow> int list \<Rightarrow> bool \<Rightarrow> bool res" where
  "version_check run lvl argv vmin required =
     bindr (cmd_stdout run lvl argv True (no_opts\<lparr>o_stderr := Some To_Stdout\<rparr>)) (\<lambda>cp.
     if cp_code cp \<noteq> 0 then
       (if required then Inl (Fatal ''%s failed with exit code %d, assuming not present'')
        else Inr False)
     else case re_search version_re (cp_stdout cp) of
       None \<Rightarrow> (if required
                then Inl (Fatal ''can't parse %s version, assuming not present: %s'')
                else Inr False)
     | Some m \<Rightarrow>
         (case map (\<lambda>k. py_int (re_group (cp_stdout cp) m k)) [1, 2, 3] of vs \<Rightarrow>
            if None \<in> set vs then
              (if required
               then Inl (Fatal ''can't parse %s version part, assuming not present: %s'')
               else Inr False)
            else if map the vs < vmin then
              (if required then Inl (Fatal ''%s is too old: %d.%d.%d < %d.%d.%d'') else Inr False)
            else Inr True))"

text \<open>\<open>dependencies_check\<close>, with the Python version and the problems found so far.\<close>

definition dependencies_check :: "int list \<Rightarrow> (string \<times> string) list \<Rightarrow> unit res" where
  "dependencies_check vsys depfails =
     (let depfails = (if vsys < [3, 6]
                      then depfails @ [(''bad'', ''need Python %s but running under %s: %s'')]
                      else depfails) in
      guard (depfails = []) (System_Exit 1))"

definition digest_trim :: "string \<Rightarrow> string res" where
  "digest_trim d =
     (case split1 CHR '':'' d of [a, b] \<Rightarrow> Inr b | _ \<Rightarrow> Inl (Fatal ''no algorithm tag: %s''))"

section \<open>Numbers\<close>

text \<open>
  The loops of \<open>si_binary_bytes\<close> and \<open>si_decimal\<close> over the list of suffixes. Rationals
  stand for floats: dividing by 1024 is exact there as well, dividing by 1000 rounds.
\<close>

fun si_loop :: "rat \<Rightarrow> string list \<Rightarrow> rat \<Rightarrow> (rat \<times> string) res" where
  "si_loop base [] ct = Inl Assertion_Error"
| "si_loop base (sfx # sfxs) ct =
     (if ct < base then Inr (ct, sfx) else si_loop base sfxs (ct / base))"

definition si_binary_suffixes :: "string list" where
  "si_binary_suffixes = [''B'', ''KiB'', ''MiB'', ''GiB'', ''TiB'', ''PiB'', ''EiB'', ''ZiB'']"

definition si_binary_bytes :: "nat \<Rightarrow> (rat \<times> string) res" where
  "si_binary_bytes ct = si_loop 1024 si_binary_suffixes (of_nat ct)"

definition si_decimal :: "nat \<Rightarrow> (rat \<times> string) res" where
  "si_decimal ct = si_loop 1000 [[], ''K'', ''M'', ''G'', ''T'', ''P'', ''E'', ''Z''] (of_nat ct)"

text \<open>\<open>positive\<close>; \<open>None\<close> is infinity.\<close>

definition positive :: "rat \<Rightarrow> rat option" where
  "positive x = (if x \<le> 0 then None else Some x)"

section \<open>Start-up\<close>

text \<open>The parsed command line, as far as \<open>parse_args\<close> and \<open>init\<close> use it.\<close>

record cli =
  c_func :: "string option"    \<comment> \<open>module of the subcommand's function\<close>
  c_quiet :: nat
  c_verbose :: nat
  c_xattrs :: bool
  c_no_xattrs :: bool
  c_debug :: bool
  c_storage :: "string option"
  c_no_lock :: bool
  c_arch :: string
  c_always_download :: bool
  c_auth :: bool
  c_password_many :: bool
  c_profile :: bool
  c_tls_no_verify :: bool
  c_bucache :: "build_mode option"

type_synonym environ = "(string, string) dict"

definition parse_args :: "environ \<Rightarrow> cli \<Rightarrow> cli res" where
  "parse_args env c =
     bindr (guard (c_func c \<noteq> None) (System_Exit 2)) (\<lambda>_.
     case (c_bucache c, map_of env ''CH_IMAGE_CACHE'') of
       (None, Some s) \<Rightarrow>
         (case build_mode_of s of
            Inl e \<Rightarrow> Inl (Fatal ''$CH_IMAGE_CACHE: invalid build cache mode: %s'')
          | Inr m \<Rightarrow> Inr (c\<lparr>c_bucache := Some m\<rparr>))
     | _ \<Rightarrow> Inr c)"

text \<open>The global variables that \<open>init\<close> sets.\<close>

record settings =
  s_xattrs_save :: bool
  s_trace_fatal :: bool
  s_log_level :: log_level
  s_log_festoon :: bool
  s_storage_lock :: bool
  s_arch :: string
  s_arch_host :: string
  s_dlcache_p :: bool
  s_auth_p :: bool
  s_password_many :: bool
  s_profiling :: bool
  s_tls_verify :: bool

definition incompatible_opts :: "cli \<Rightarrow> nat" where
  "incompatible_opts c =
     length (filter id [c_quiet c > 0 \<and> c_verbose c > 0, c_xattrs c \<and> c_no_xattrs c])"

definition auth_mode :: "environ \<Rightarrow> cli \<Rightarrow> bool" where
  "auth_mode env c =
     (if c_func c = Some ''push'' then True
      else if c_auth c then True
      else case map_of env ''CH_IMAGE_AUTH'' of Some v \<Rightarrow> v = ''yes'' | None \<Rightarrow> False)"

text \<open>
  \<open>init\<close>: \<open>storage\<close> is the result of the constructor \<open>fs.Storage(cli.storage)\<close>
  and \<open>machine\<close> the machine name of the host. The log file is opened with a method
  of the string that \<open>os.getenv\<close> returned; strings have none of that name.
\<close>

definition init :: "unit res \<Rightarrow> string \<Rightarrow> environ \<Rightarrow> cli \<Rightarrow> settings res" where
  "init storage machine env c =
     bindr (guard (incompatible_opts c = 0) (Fatal ''%d incompatible option pair(s)'')) (\<lambda>_.
     bindr (log_level_of (int (c_verbose c) - int (c_quiet c))) (\<lambda>lvl.
     bindr (guard (map_of env ''CH_LOG_FILE'' = None) Attribute_Error) (\<lambda>_.
     bindr storage (\<lambda>_.
     bindr (arch_host_get machine) (\<lambda>host.
       Inr \<lparr>s_xattrs_save = c_xattrs c \<or> (map_of env ''CH_XATTRS'' \<noteq> None \<and> \<not> c_no_xattrs c),
            s_trace_fatal = c_debug c \<or> map_of env ''CH_IMAGE_DEBUG'' \<notin> {None, Some []},
            s_log_level = lvl,
            s_log_festoon = (map_of env ''CH_LOG_FESTOON'' \<noteq> None),
            s_storage_lock = (\<not> c_no_lock c),
            s_arch = (if c_arch c = ''host'' then host else c_arch c),
            s_arch_host = host,
            s_dlcache_p = (\<not> c_always_download c),
            s_auth_p = auth_mode env c,
            s_password_many = c_password_many c,
            s_profiling = c_profile c,
            s_tls_verify = (\<not> c_tls_no_verify c)\<rparr>)))))"

definition user :: "environ \<Rightarrow> string res" where
  "user env = of_opt (Fatal ''can't get username: $USER not set'') (map_of env ''USER'')"

section \<open>Killing a process\<close>

datatype kill_result = Signalled | No_Such_Process | Kill_Error

text \<open>
  \<open>kill_blocking\<close>: \<open>sent\<close> is the result of the \<open>SIGTERM\<close>, \<open>probe i\<close> that of the
  \<open>i\<close>th null signal. The second component counts the sleeps of half a second.
\<close>

fun kill_wait :: "(nat \<Rightarrow> kill_result) \<Rightarrow> nat list \<Rightarrow> nat \<Rightarrow> unit res \<times> nat" where
  "kill_wait probe [] n = (Inl (Fatal ''timeout of %ds exceeded trying to kill PID %d''), n)"
| "kill_wait probe (i # is) n =
     (case probe i of
        No_Such_Process \<Rightarrow> (Inr (), n)
      | Kill_Error \<Rightarrow> (Inl (Fatal ''can't signal PID %s with 0: %s''), n)
      | Signalled \<Rightarrow> kill_wait probe is (Suc n))"

definition kill_blocking :: "kill_result \<Rightarrow> (nat \<Rightarrow> kill_result) \<Rightarrow> nat \<Rightarrow> unit res \<times> nat" where
  "kill_blocking sent probe timeout =
     (case sent of
        No_Such_Process \<Rightarrow> (Inr (), 0)
      | Kill_Error \<Rightarrow> (Inl (Fatal ''can't signal PID %d with %d: %s''), 0)
      | Signalled \<Rightarrow> kill_wait probe [0 ..< timeout * 2] 0)"

section \<open>Properties\<close>

lemma shell_safe_plain:
  "shell_safe c \<Longrightarrow> c \<notin> {CHR '' '', tab, newline, CHR 0x0D} \<and> c \<noteq> squote \<and> c \<noteq> dquote \<and> c \<noteq> backslash"
  by (auto simp: shell_safe_def char_class_defs)

lemma shell_words_safe:
  "list_all shell_safe a \<Longrightarrow> shell_words (Some t) (a @ rest) = shell_words (Some (t @ a)) rest"
proof (induction a arbitrary: t)
  case (Cons c a)
  then show ?case using shell_safe_plain [of c] by simp
qed simp

lemma shell_single_body:
  "shell_single t (replace_str [squote] [squote, dquote, squote, dquote, squote] a @ squote # rest)
     = shell_words (Some (t @ a)) rest"
  unfolding replace_str_single by (induction a arbitrary: t) auto

lemma shell_words_quote:
  "shell_words None (shlex_quote a @ rest) = shell_words (Some a) rest"
proof (cases "a \<noteq> [] \<and> list_all shell_safe a")
  case True
  then obtain c b where a: "a = c # b" "shell_safe c" "list_all shell_safe b" by (cases a) auto
  then show ?thesis
    using shell_safe_plain [of c] shell_words_safe [of b "[c]" rest] by (simp add: shlex_quote_def)
next
  case False
  then show ?thesis
    using shell_single_body [of "[]" a rest] by (auto simp: shlex_quote_def)
qed

lemma newline_shlex_quote: "newline \<notin> set a \<Longrightarrow> newline \<notin> set (shlex_quote a)"
  by (auto simp: shlex_quote_def replace_str_single)



text \<open>
  \<open>in\<close> on an architecture dictionary never raises and is true exactly when subscription
  returns a value, for direct and fallback architectures alike.
\<close>

theorem arch_contains_getitem: "arch_contains d k = Inr (is_ok (arch_getitem d k))"
proof (cases "map_of d k")
  case None
  then show ?thesis
    by (auto simp: arch_contains_def arch_getitem_def fallback_key_def of_opt_def find_Some_iff
        split: option.splits)
qed (auto simp: arch_contains_def arch_getitem_def)

lemma si_loop_spec:
  assumes "base > 1" "0 \<le> ct" "ct < base ^ length sfxs" "sfxs = [] \<longrightarrow> 1 \<le> ct"
  shows "\<exists>k < length sfxs. si_loop base sfxs ct = Inr (ct / base ^ k, sfxs ! k)
           \<and> ct / base ^ k < base \<and> (k > 0 \<longrightarrow> base ^ k \<le> ct)"
  using assms(2-4)
proof (induction sfxs arbitrary: ct)
  case (Cons s ss)
  show ?case
  proof (cases "ct < base")
    case True
    with Cons.prems show ?thesis by (intro exI [of _ 0]) auto
  next
    case False
    with Cons.prems assms(1) have "0 \<le> ct / base" "ct / base < base ^ length ss" "ss = [] \<longrightarrow> 1 \<le> ct / base"
      by (auto simp: field_simps)
    from Cons.IH [OF this] obtain k where k: "k < length ss"
      "si_loop base ss (ct / base) = Inr (ct / base / base ^ k, ss ! k)"
      "ct / base / base ^ k < base" "k > 0 \<longrightarrow> base ^ k \<le> ct / base" by blast
    then have "base ^ Suc k \<le> ct"
      using False assms(1) by (cases k) (auto simp: field_simps)
    with k False show ?thesis by (intro exI [of _ "Suc k"]) (auto simp: field_simps)
  qed
qed simp

lemma si_binary_bytes_spec:
  assumes "ct < 1024 ^ 8"
  shows "\<exists>k < 8. si_binary_bytes ct = Inr (of_nat ct / 1024 ^ k, si_binary_suffixes ! k)
           \<and> of_nat ct / 1024 ^ k < (1024 :: rat) \<and> (k > 0 \<longrightarrow> 1024 ^ k \<le> ct)"
proof -
  have "of_nat ct < (1024 :: rat) ^ length si_binary_suffixes"
    using assms by (simp add: si_binary_suffixes_def)
  moreover have "length si_binary_suffixes = 8" "si_binary_suffixes \<noteq> []"
    by (simp_all add: si_binary_suffixes_def)
  ultimately obtain k where k: "k < 8"
    "si_binary_bytes ct = Inr (of_nat ct / 1024 ^ k, si_binary_suffixes ! k)"
    "of_nat ct / 1024 ^ k < (1024 :: rat)" "k > 0 \<longrightarrow> (1024 :: rat) ^ k \<le> of_nat ct"
    using si_loop_spec [of 1024 "of_nat ct" si_binary_suffixes] unfolding si_binary_bytes_def by auto
  have "(1024 :: rat) ^ k = of_nat (1024 ^ k)" by simp
  with k(4) have "k > 0 \<longrightarrow> 1024 ^ k \<le> ct" by (metis of_nat_le_iff)
  with k show ?thesis by blast
qed

lemma kill_wait_spec:
  "kill_wait probe is n =
     (case List.find (\<lambda>i. probe (is ! i) \<noteq> Signalled) [0 ..< length is] of
        None \<Rightarrow> (Inl (Fatal ''timeout of %ds exceeded trying to kill PID %d''), n + length is)
      | Some i \<Rightarrow> (if probe (is ! i) = No_Such_Process then Inr ()
                   else Inl (Fatal ''can't signal PID %s with 0: %s''), n + i))"
proof (induction "is" arbitrary: n)
  case (Cons j "is")
  have "List.find P (map Suc xs) = map_option Suc (List.find (\<lambda>i. P (Suc i)) xs)" for P xs
    by (induction xs) auto
  then have "List.find (\<lambda>i. probe ((j # is) ! i) \<noteq> Signalled) [0 ..< length (j # is)] =
    (if probe j \<noteq> Signalled then Some 0
     else map_option Suc (List.find (\<lambda>i. probe (is ! i) \<noteq> Signalled) [0 ..< length is]))"
    by (simp add: upt_conv_Cons map_Suc_upt [symmetric] del: upt_Suc)
  then show ?case
    by (auto simp: Cons.IH split: kill_result.splits option.splits)
qed simp

lemma kill_blocking_bounded:
  "snd (kill_blocking sent probe timeout) \<le> 2 * timeout \<and>
   (is_ok (fst (kill_blocking sent probe timeout)) \<longleftrightarrow>
      sent = No_Such_Process \<or>
      sent = Signalled \<and> (\<exists>i < 2 * timeout. probe i = No_Such_Process \<and> (\<forall>j < i. probe j = Signalled)))"
proof (cases sent)
  case Signalled
  then show ?thesis
    by (auto simp: kill_blocking_def kill_wait_spec find_Some_iff find_None_iff mult.commute split: option.splits)
     (metis kill_result.distinct linorder_neqE_nat)+
qed (auto simp: kill_blocking_def)

text \<open>
  A successful \<open>init\<close> authenticates to registries exactly for \<open>push\<close>, with
  \<open>--auth\<close> or with \<open>$CH_IMAGE_AUTH\<close> set to \<open>yes\<close>; the log level is the number of
  \<open>-v\<close> less that of \<open>-q\<close>, never both, at most three.
\<close>

theorem init_settings:
  assumes "init st machine env c = Inr s"
  shows "(s_auth_p s \<longleftrightarrow> c_func c = Some ''push'' \<or> c_auth c \<or> map_of env ''CH_IMAGE_AUTH'' = Some ''yes'')
    \<and> level_value (s_log_level s) = int (c_verbose c) - int (c_quiet c)
    \<and> (c_quiet c = 0 \<or> c_verbose c = 0) \<and> max (c_quiet c) (c_verbose c) \<le> 3"
proof -
  from assms have 1: "incompatible_opts c = 0" and
    2: "log_level_of (int (c_verbose c) - int (c_quiet c)) = Inr (s_log_level s)"
    and 3: "s_auth_p s = auth_mode env c"
    by (auto simp: init_def res_simps)
  from 1 have q: "c_quiet c = 0 \<or> c_verbose c = 0" by (auto simp: incompatible_opts_def split: if_splits)
  from 2 have v: "level_value (s_log_level s) = int (c_verbose c) - int (c_quiet c)"
    by (simp add: log_level_of_ok)
  have "- 3 \<le> level_value (s_log_level s)" "level_value (s_log_level s) \<le> 3"
    by (cases "s_log_level s"; simp)+
  with v q have "max (c_quiet c) (c_verbose c) \<le> 3" by auto
  with v q 3 show ?thesis by (auto simp: auth_mode_def split: option.splits)
qed

lemma init_settings_witness:
  "\<exists>s. init (Inr ()) ''x86_64'' [] \<lparr>c_func = Some ''push'', c_quiet = 0, c_verbose = 2, c_xattrs = False,
      c_no_xattrs = False, c_debug = False, c_storage = None, c_no_lock = False, c_arch = ''host'',
      c_always_download = False, c_auth = False, c_password_many = False, c_profile = False,
      c_tls_no_verify = False, c_bucache = None\<rparr> = Inr s \<and> s_auth_p s \<and> level_value (s_log_level s) = 2"
proof -
  let ?c = "\<lparr>c_func = Some ''push'', c_quiet = 0, c_verbose = 2, c_xattrs = False,
      c_no_xattrs = False, c_debug = False, c_storage = None, c_no_lock = False, c_arch = ''host'',
      c_always_download = False, c_auth = False, c_password_many = False, c_profile = False,
      c_tls_no_verify = False, c_bucache = None\<rparr>"
  obtain s where s: "init (Inr ()) ''x86_64'' [] ?c = Inr s"
    by (simp add: init_def incompatible_opts_def log_level_of_def arch_host_get_def arch_map_def)
  show ?thesis using init_settings [OF s] s by simp
qed

lemma init_log_file: "map_of env ''CH_LOG_FILE'' = Some f \<Longrightarrow> \<not> is_ok (init st machine env c)"
  by (cases "incompatible_opts c = 0"; cases "log_level_of (int (c_verbose c) - int (c_quiet c))")
    (simp_all add: init_def)

fun spaced :: "rat option \<Rightarrow> (rat \<times> 'a) list \<Rightarrow> bool" where
  "spaced t [] = True"
| "spaced t ((now, l) # ls) = ((case t of None \<Rightarrow> True | Some t \<Rightarrow> now - t > 1) \<and> spaced (Some now) ls)"

lemma progress_run_spaced:
  assumes "progress_run us p = Inr (p', ls)"
  shows "spaced (p_display_last p) ls \<and> p_progress p' = p_progress p + sum_list (map snd us)"
  using assms
proof (induction us arbitrary: p p' ls)
  case (Cons u us)
  obtain now inc where u: "u = (now, inc)" by (cases u)
  with Cons.prems obtain p1 line ls1 where 1: "progress_update now inc False p = Inr (p1, line)"
    and 2: "progress_run us p1 = Inr (p', ls1)" 
    and 3: "ls = (case line of None \<Rightarrow> ls1 | Some l \<Rightarrow> (now, l) # ls1)" by (auto simp: res_simps)
  from Cons.IH [OF 2] 1 3 u show ?case
    by (auto simp: progress_update_def Let_def split: if_splits option.splits)
qed simp

definition number :: "string \<Rightarrow> bool" where "number d \<longleftrightarrow> d \<noteq> [] \<and> list_all is_digit d"

lemma Grp_number_first:
  assumes "s = a @ d @ b" "number d" "b = [] \<or> \<not> is_digit (hd b)" and i: "i = length a"
  shows "\<exists>ms. matches (Grp k (Many1 (Cls is_digit))) s (i, cs)
    = (i + length d, AList.update k (i, i + length d) cs) # ms"
proof -
  have "takeWhile is_digit (d @ b) = d"
    using assms(2,3) by (cases b) (auto simp: number_def list_all_iff takeWhile_append)
  with assms have "length (takeWhile is_digit (drop (length a) s)) = length d" "length d > 0"
    by (simp_all add: number_def)
  from Grp_first [OF Many1_Cls_first [OF _ this]] assms(1) show ?thesis by (simp add: i)
qed

lemma dot_not_digit: "\<not> is_digit CHR ''.''" by (simp add: char_class_defs)

lemma version_re_search:
  assumes s: "s = a @ x @ ''.'' @ y @ ''.'' @ z @ b"
    and "list_all (\<lambda>c. \<not> is_digit c) a" and "number x" "number y" "number z" and "b = [] \<or> \<not> is_digit (hd b)"
  shows "\<exists>m. re_search version_re s = Some m \<and> re_group s m 1 = x \<and> re_group s m 2 = y \<and> re_group s m 3 = z"
proof -
  let ?d = "Cls (\<lambda>c. c = CHR ''.'')" and ?g = "\<lambda>k. Grp k (Many1 (Cls is_digit))"
  define c1 where "c1 = AList.update (1::nat) (length a, length a + length x) []"
  define i2 where "i2 = length a + length x + 1"
  define c2 where "c2 = AList.update 2 (i2, i2 + length y) c1"
  define i3 where "i3 = i2 + length y + 1"
  define c3 where "c3 = AList.update 3 (i3, i3 + length z) c2"
  have 1: "\<exists>ms. matches (?g 1) s (length a, []) = (length a + length x, c1) # ms"
    using Grp_number_first [of s a x "''.'' @ y @ ''.'' @ z @ b" "length a" 1 "[]"] assms dot_not_digit
    by (simp add: c1_def del: matches.simps)
  have d1: "\<exists>ms. matches ?d s (length a + length x, c1) = (i2, c1) # ms"
    by (simp add: s char_at_def nth_append i2_def)
  have 2: "\<exists>ms. matches (?g 2) s (i2, c1) = (i2 + length y, c2) # ms"
    using Grp_number_first [of s "a @ x @ ''.''" y "''.'' @ z @ b" i2 2 c1] assms dot_not_digit
    by (simp add: c2_def i2_def del: matches.simps)
  have d2: "\<exists>ms. matches ?d s (i2 + length y, c2) = (i3, c2) # ms"
    by (simp add: s char_at_def nth_append i2_def i3_def)
  have 3: "\<exists>ms. matches (?g 3) s (i3, c2) = (i3 + length z, c3) # ms"
    using Grp_number_first [of s "a @ x @ ''.'' @ y @ ''.''" z b i3 3 c2] assms
    by (simp add: c3_def i2_def i3_def del: matches.simps)
  have m: "\<exists>ms. matches version_re s (length a, []) = (i3 + length z, c3) # ms"
    unfolding version_re_def Seqs.simps 
    by (rule Seq_first [OF 1 Seq_first [OF d1 Seq_first [OF 2 Seq_first [OF d2 3]]]])
  have off: "matches version_re s (i, []) = []" if "i < length a" for i
  proof -
    from that have "i < length s" "s ! i = a ! i" by (auto simp: s nth_append)
    then have "char_at s i = Some (a ! i)" "\<not> is_digit (a ! i)"
      using that assms(2) by (auto simp: char_at_def list_all_length)
    then show ?thesis by (simp add: version_re_def Many1_def)
  qed
  from m obtain ms where m': "matches version_re s (length a, []) = (i3 + length z, c3) # ms" by blast
  have "re_search version_re s = Some (length a, i3 + length z, c3)"
    unfolding re_search_def by (rule search_from_first [OF _ _ off m']) (auto simp: s)
  moreover have "slice s (length a) (length a + length x) = x" "slice s i2 (i2 + length y) = y"
    "slice s i3 (i3 + length z) = z"
    by (simp_all add: s slice_def i2_def i3_def)
  ultimately show ?thesis
    by (auto simp: re_group_def c1_def c2_def c3_def update_conv')
qed

text \<open>
  On a program that exits with zero and prints a version \<open>x.y.z\<close> (with no digit in
  front), \<open>version_check\<close> compares the three numbers component by component as integers;
  it answers or, when the version is required, fails exactly according to that comparison.
\<close>

theorem version_check_numeric:
  assumes "cmd_stdout run lvl argv True (no_opts\<lparr>o_stderr := Some To_Stdout\<rparr>)
      = Inr \<lparr>cp_code = 0, cp_stdout = a @ x @ ''.'' @ y @ ''.'' @ z @ b, cp_stderr = e\<rparr>"
    and "list_all (\<lambda>c. \<not> is_digit c) a" "number x" "number y" "number z" "b = [] \<or> \<not> is_digit (hd b)"
  shows "version_check run lvl argv vmin False =
     Inr (vmin \<le> [int (nat_of_digits x), int (nat_of_digits y), int (nat_of_digits z)])
    \<and> is_ok (version_check run lvl argv vmin True) =
       (vmin \<le> [int (nat_of_digits x), int (nat_of_digits y), int (nat_of_digits z)])"
proof -
  from version_re_search [OF refl assms(2-6)] obtain m
    where "re_search version_re (a @ x @ ''.'' @ y @ ''.'' @ z @ b) = Some m"
      "re_group (a @ x @ ''.'' @ y @ ''.'' @ z @ b) m 1 = x"
      "re_group (a @ x @ ''.'' @ y @ ''.'' @ z @ b) m 2 = y"
      "re_group (a @ x @ ''.'' @ y @ ''.'' @ z @ b) m 3 = z" by blast
  moreover have "py_int x = Some (int (nat_of_digits x))" "py_int y = Some (int (nat_of_digits y))"
    "py_int z = Some (int (nat_of_digits z))"
    using assms(3-5) by (auto simp: number_def py_int_digits)
  ultimately show ?thesis
    using assms(1) by (auto simp: version_check_def)
qed

lemma version_check_numeric_witness:
  "version_check (\<lambda>_ _. Inr \<lparr>cp_code = 0, cp_stdout = ''git version 2.10.1'', cp_stderr = None\<rparr>) INFO
     [''git'', ''--version''] [2, 9, 5] False = Inr True"
  using version_check_numeric
    [of "\<lambda>_ _. Inr \<lparr>cp_code = 0, cp_stdout = ''git version 2.10.1'', cp_stderr = None\<rparr>" INFO
       "[''git'', ''--version'']" "''git version ''" "''2''" "''10''" "''1''" "[]" None "[2, 9, 5]"]
  by (simp add: cmd_stdout_def cmd_base_def number_def char_class_defs nat_of_digits_def digit_val_def)

end
