(* ===== verification/References.thy ===== *)
theory References
  imports Trees Utils
begin

text \<open>
  Image references: the class \<open>Reference\<close> of \<open>lib/image.py\<close>. A reference is
  parsed by Lark from \<open>GRAMMAR_IMAGE_REF\<close> (the parser is an argument), read from the
  tree, printed, completed with defaults, and named in the storage directory.
\<close>

record reference =
  r_host :: "string option"
  r_port :: "int option"
  r_path :: "string list"
  r_name :: "string option"
  r_tag :: "string option"
  r_digest :: "string option"
  r_variables :: "(string, string) dict"

definition empty_reference :: "(string, string) dict \<Rightarrow> reference" where
  "empty_reference vars = \<lparr>r_host = None, r_port = None, r_path = [], r_name = None,
     r_tag = None, r_digest = None, r_variables = vars\<rparr>"

section \<open>Names in the storage directory\<close>

definition path_to_ref :: "string \<Rightarrow> string" where
  "path_to_ref p = replace_char CHR ''%'' CHR ''/'' (replace_char CHR ''+'' CHR '':'' p)"

definition ref_to_pathstr :: "string \<Rightarrow> string" where
  "ref_to_pathstr s = replace_char CHR '':'' CHR ''+'' (replace_char CHR ''/'' CHR ''%'' s)"

section \<open>Parsing and printing\<close>

text \<open>\<open>s.translate(str.maketrans("%+", "/:", "&"))\<close>\<close>

definition ref_translate :: "string \<Rightarrow> string" where
  "ref_translate s =
     map (\<lambda>c. if c = CHR ''%'' then CHR ''/'' else if c = CHR ''+'' then CHR '':'' else c)
       (filter (\<lambda>c. c \<noteq> CHR ''&'') s)"

definition reference_parse :: "(string \<Rightarrow> tree option) \<Rightarrow> string \<Rightarrow> (string, string) dict \<Rightarrow> tree res" where
  "reference_parse parser s vars =
     bindr (variables_sub (ref_translate s) vars) (\<lambda>s.
     if CHR ''$'' \<in> set s then Inl (Fatal ''image reference contains an undefined variable: %s'')
     else of_opt (Fatal ''image ref syntax'') (parser s))"

definition sub_field :: "(string, string) dict \<Rightarrow> string option \<Rightarrow> string option res" where
  "sub_field vars x = variables_sub_opt x vars"

text \<open>
  \<open>from_tree\<close>. The port is an integer by the time \<open>variables_sub\<close> gets it: with a
  non-empty set of variables the regular expression search on it is a \<open>TypeError\<close>.
\<close>

definition sub_port :: "(string, string) dict \<Rightarrow> int option \<Rightarrow> int option res" where
  "sub_port vars p = (case p of None \<Rightarrow> Inr None
     | Some n \<Rightarrow> if vars = [] then Inr (Some n) else Inl Type_Error)"

definition reference_from_tree :: "walk \<Rightarrow> (string, string) dict \<Rightarrow> tree \<Rightarrow> reference res" where
  "reference_from_tree walk vars t =
     bindr (case child_terminal walk ''ir_hostport'' ''IR_PORT'' 0 t of
              None \<Rightarrow> Inr None
            | Some p \<Rightarrow> bindr (of_opt Value_Error (py_int p)) (\<lambda>n. Inr (Some n))) (\<lambda>port.
     bindr (mapr (\<lambda>s. variables_sub s vars)
              (child_terminals walk ''ir_path'' ''IR_PATH_COMPONENT'' t)) (\<lambda>path.
     bindr (sub_field vars (child_terminal walk ''ir_hostport'' ''IR_HOST'' 0 t)) (\<lambda>host.
     bindr (sub_port vars port) (\<lambda>port.
     bindr (sub_field vars (child_terminal walk ''ir_name'' ''IR_PATH_COMPONENT'' 0 t)) (\<lambda>name.
     bindr (sub_field vars (child_terminal walk ''ir_tag'' ''IR_TAG'' 0 t)) (\<lambda>tag.
     bindr (sub_field vars (child_terminal walk ''ir_digest'' ''HEX_STRING'' 0 t)) (\<lambda>digest.
     let (host, path) =
           (case host of
              Some h \<Rightarrow> if CHR ''.'' \<notin> set h \<and> port = None then (None, h # path) else (host, path)
            | None \<Rightarrow> (host, path))
     in Inr \<lparr>r_host = host, r_port = port, r_path = path, r_name = name, r_tag = tag,
             r_digest = digest, r_variables = vars\<rparr>)))))))"

definition reference_of_string :: "(string \<Rightarrow> tree option) \<Rightarrow> walk \<Rightarrow> string \<Rightarrow> (string, string) dict \<Rightarrow> reference res" where
  "reference_of_string parser walk s vars =
     bindr (reference_parse parser s vars) (reference_from_tree walk vars)"

definition path_full :: "reference \<Rightarrow> string res" where
  "path_full r =
     bindr (of_opt Type_Error (r_name r)) (\<lambda>name.
       Inr ((if r_path r \<noteq> [] then join ''/'' (r_path r) @ ''/'' else []) @ name))"

definition reference_str :: "reference \<Rightarrow> string res" where
  "reference_str r =
     bindr (path_full r) (\<lambda>full.
       Inr ((case r_host r of None \<Rightarrow> [] | Some h \<Rightarrow> h)
          @ (case r_port r of None \<Rightarrow> [] | Some p \<Rightarrow> '':'' @ str_of_int p)
          @ (if r_host r \<noteq> None then ''/'' else [])
          @ full
          @ (case r_tag r of None \<Rightarrow> [] | Some t \<Rightarrow> '':'' @ t)
          @ (case r_digest r of None \<Rightarrow> [] | Some d \<Rightarrow> ''@sha256:'' @ d)))"

definition for_path :: "reference \<Rightarrow> string res" where
  "for_path r = bindr (reference_str r) (\<lambda>s. Inr (ref_to_pathstr s))"

definition ref_version :: "reference \<Rightarrow> string res" where
  "ref_version r =
     (case r_tag r of Some t \<Rightarrow> Inr t
      | None \<Rightarrow> (case r_digest r of Some d \<Rightarrow> Inr (''sha256:'' @ d) | None \<Rightarrow> Inl Assertion_Error))"

text \<open>\<open>Reference.glob\<close>, with the names of the matching directories as an argument.\<close>

definition reference_glob :: "(string \<Rightarrow> tree option) \<Rightarrow> walk \<Rightarrow> (string \<Rightarrow> string list) \<Rightarrow> string \<Rightarrow> reference list res" where
  "reference_glob parser walk unpack_glob image_glob =
     mapr (\<lambda>p. reference_of_string parser walk (path_to_ref p) [])
       (unpack_glob (ref_to_pathstr image_glob))"

section \<open>Defaults\<close>

definition defaults_host :: "environ \<Rightarrow> reference \<Rightarrow> reference res" where
  "defaults_host env r =
     (if r_host r = None then
        (case map_of env ''CH_REGY_DEFAULT_HOST'' of
           None \<Rightarrow> Inr (r\<lparr>r_host := Some ''registry-1.docker.io''\<rparr>)
         | Some h \<Rightarrow>
             bindr (case map_of env ''CH_REGY_DEFAULT_PORT'' of
                      None \<Rightarrow> Inr 443 | Some p \<Rightarrow> of_opt Value_Error (py_int p)) (\<lambda>port.
             Inr (r\<lparr>r_host := Some h, r_port := Some port,
                    r_path := (case map_of env ''CH_REGY_PATH_PREFIX'' of
                                 None \<Rightarrow> r_path r
                               | Some prfx \<Rightarrow> split_on CHR ''/'' prfx @ r_path r)\<rparr>)))
      else Inr r)"

definition defaults_rest :: "reference \<Rightarrow> reference" where
  "defaults_rest r =
     (let r = (if r_port r = None then r\<lparr>r_port := Some 443\<rparr> else r);
          r = (if r_host r = Some ''registry-1.docker.io'' \<and> r_path r = []
               then r\<lparr>r_path := [''library'']\<rparr> else r)
      in if r_tag r = None \<and> r_digest r = None then r\<lparr>r_tag := Some ''latest''\<rparr> else r)"

definition defaults_add :: "environ \<Rightarrow> reference \<Rightarrow> reference res" where
  "defaults_add env r = bindr (defaults_host env r) (\<lambda>r. Inr (defaults_rest r))"

definition canonical :: "environ \<Rightarrow> reference \<Rightarrow> reference res" where
  "canonical env r = defaults_add env r"

section \<open>The grammar\<close>

text \<open>
  A derivation of \<open>GRAMMAR_IMAGE_REF\<close> as data: the text it derives and the tree Lark
  builds for it (anonymous tokens left out).
\<close>

datatype ref_suffix = No_Suffix | Tag_Suffix string | Digest_Suffix string

record ref_ast =
  a_host :: "string option"
  a_port :: "string option"   \<comment> \<open>only with a host\<close>
  a_path :: "string list"
  a_name :: string
  a_suffix :: ref_suffix

definition ref_text :: "ref_ast \<Rightarrow> string" where
  "ref_text a =
     (case a_host a of None \<Rightarrow> []
      | Some h \<Rightarrow> h @ (case a_port a of None \<Rightarrow> [] | Some p \<Rightarrow> '':'' @ p) @ ''/'')
     @ (if a_path a \<noteq> [] then join ''/'' (a_path a) @ ''/'' else [])
     @ a_name a
     @ (case a_suffix a of No_Suffix \<Rightarrow> [] | Tag_Suffix t \<Rightarrow> '':'' @ t
        | Digest_Suffix d \<Rightarrow> ''@sha256:'' @ d)"

definition ref_tree :: "ref_ast \<Rightarrow> tree" where
  "ref_tree a = Tree ''start'' [Tree ''image_ref''
     ((case a_host a of None \<Rightarrow> []
       | Some h \<Rightarrow> [Tree ''ir_hostport'' (Token ''IR_HOST'' h
           # (case a_port a of None \<Rightarrow> [] | Some p \<Rightarrow> [Token ''IR_PORT'' p]))])
      @ (if a_path a = [] then []
         else [Tree ''ir_path'' (map (Token ''IR_PATH_COMPONENT'') (a_path a))])
      @ [Tree ''ir_name'' [Token ''IR_PATH_COMPONENT'' (a_name a)]]
      @ (case a_suffix a of No_Suffix \<Rightarrow> []
         | Tag_Suffix t \<Rightarrow> [Tree ''ir_tag'' [Token ''IR_TAG'' t]]
         | Digest_Suffix d \<Rightarrow> [Tree ''ir_digest'' [Token ''HEX_STRING'' d]]))]"

definition ref_ast_ok :: "ref_ast \<Rightarrow> bool" where
  "ref_ast_ok a \<longleftrightarrow> (case a_port a of None \<Rightarrow> True
     | Some p \<Rightarrow> a_host a \<noteq> None \<and> p = str_of_nat (nat_of_digits p))"

definition ref_nodes :: "ref_ast \<Rightarrow> tree list" where
  "ref_nodes a =
     (case a_host a of None \<Rightarrow> []
       | Some h \<Rightarrow> [Tree ''ir_hostport'' (Token ''IR_HOST'' h
           # (case a_port a of None \<Rightarrow> [] | Some p \<Rightarrow> [Token ''IR_PORT'' p]))])
      @ (if a_path a = [] then []
         else [Tree ''ir_path'' (map (Token ''IR_PATH_COMPONENT'') (a_path a))])
      @ [Tree ''ir_name'' [Token ''IR_PATH_COMPONENT'' (a_name a)]]
      @ (case a_suffix a of No_Suffix \<Rightarrow> []
         | Tag_Suffix t \<Rightarrow> [Tree ''ir_tag'' [Token ''IR_TAG'' t]]
         | Digest_Suffix d \<Rightarrow> [Tree ''ir_digest'' [Token ''HEX_STRING'' d]])"

lemma ref_nodes_flat: "\<forall>x \<in> set (ref_nodes a). subtrees x = [x]"
  by (auto simp: ref_nodes_def subtrees_tokens o_def split: option.splits ref_suffix.splits)

lemma ref_tree_child:
  assumes "walk_ok walk"
  shows "child walk ''ir_hostport'' (ref_tree a) =
      (case a_host a of None \<Rightarrow> None | Some h \<Rightarrow> Some (Tree ''ir_hostport'' (Token ''IR_HOST'' h
           # (case a_port a of None \<Rightarrow> [] | Some p \<Rightarrow> [Token ''IR_PORT'' p]))))"
    and "child walk ''ir_path'' (ref_tree a) =
      (if a_path a = [] then None else Some (Tree ''ir_path'' (map (Token ''IR_PATH_COMPONENT'') (a_path a))))"
    and "child walk ''ir_name'' (ref_tree a) =
      Some (Tree ''ir_name'' [Token ''IR_PATH_COMPONENT'' (a_name a)])"
    and "child walk ''ir_tag'' (ref_tree a) =
      (case a_suffix a of Tag_Suffix t \<Rightarrow> Some (Tree ''ir_tag'' [Token ''IR_TAG'' t]) | _ \<Rightarrow> None)"
    and "child walk ''ir_digest'' (ref_tree a) =
      (case a_suffix a of Digest_Suffix d \<Rightarrow> Some (Tree ''ir_digest'' [Token ''HEX_STRING'' d]) | _ \<Rightarrow> None)"
  unfolding ref_tree_def ref_nodes_def [symmetric]
  by (rule flat_child [OF assms ref_nodes_flat];
      auto simp: ref_nodes_def split: option.splits ref_suffix.splits)+

lemma ref_tree_terminals:
  assumes "walk_ok walk"
  shows "child_terminal walk ''ir_hostport'' ''IR_HOST'' 0 (ref_tree a) = a_host a"
    and "child_terminal walk ''ir_hostport'' ''IR_PORT'' 0 (ref_tree a) = (if a_host a = None then None else a_port a)"
    and "child_terminals walk ''ir_path'' ''IR_PATH_COMPONENT'' (ref_tree a) = a_path a"
    and "child_terminal walk ''ir_name'' ''IR_PATH_COMPONENT'' 0 (ref_tree a) = Some (a_name a)"
    and "child_terminal walk ''ir_tag'' ''IR_TAG'' 0 (ref_tree a) =
      (case a_suffix a of Tag_Suffix t \<Rightarrow> Some t | _ \<Rightarrow> None)"
    and "child_terminal walk ''ir_digest'' ''HEX_STRING'' 0 (ref_tree a) =
      (case a_suffix a of Digest_Suffix d \<Rightarrow> Some d | _ \<Rightarrow> None)"
  using terminals_tokens
  by (auto simp: child_terminal_def child_terminals_child ref_tree_child [OF assms] terminal_def terminals_def Let_def
      split: option.splits ref_suffix.splits)

lemma variables_sub_opt_empty [simp]: "variables_sub_opt s [] = Inr s"
  by (cases s) (auto simp: variables_sub_opt_def)

text \<open>The fields of a parsed reference.\<close>

definition ref_of_ast :: "ref_ast \<Rightarrow> reference" where
  "ref_of_ast a =
     (let plain = (case a_host a of None \<Rightarrow> False | Some h \<Rightarrow> CHR ''.'' \<notin> set h \<and> a_port a = None) in
      \<lparr>r_host = (if plain then None else a_host a),
       r_port = map_option (\<lambda>p. int (nat_of_digits p)) (a_port a),
       r_path = (if plain then the (a_host a) # a_path a else a_path a),
       r_name = Some (a_name a),
       r_tag = (case a_suffix a of Tag_Suffix t \<Rightarrow> Some t | _ \<Rightarrow> None),
       r_digest = (case a_suffix a of Digest_Suffix d \<Rightarrow> Some d | _ \<Rightarrow> None),
       r_variables = []\<rparr>)"

lemma reference_from_ref_tree:
  assumes "walk_ok walk" "ref_ast_ok a"
  shows "reference_from_tree walk [] (ref_tree a) = Inr (ref_of_ast a)"
proof -
  have "py_int p = Some (int (nat_of_digits p))" if "a_port a = Some p" for p
    using that assms(2) py_int_str_of_nat [of "nat_of_digits p"] by (auto simp: ref_ast_ok_def)
  then show ?thesis
    using assms(2)
    by (auto simp: reference_from_tree_def ref_tree_terminals [OF assms(1)] sub_field_def sub_port_def
        ref_of_ast_def ref_ast_ok_def Let_def split: option.splits)
qed

lemma reference_str_ref_of_ast:
  assumes "ref_ast_ok a"
  shows "reference_str (ref_of_ast a) = Inr (ref_text a)"
proof -
  have "str_of_int (int (nat_of_digits p)) = p" if "a_port a = Some p" for p
    using that assms by (auto simp: ref_ast_ok_def str_of_int_def)
  then show ?thesis
    using assms
    by (auto simp: reference_str_def path_full_def ref_of_ast_def ref_text_def Let_def ref_ast_ok_def join_Cons
        split: option.splits ref_suffix.splits)
qed

lemma ref_translate_plain: "set s \<inter> set ''%+&'' = {} \<Longrightarrow> ref_translate s = s"
  by (induction s) (auto simp: ref_translate_def)

lemma ref_translate_pathstr:
  "set s \<inter> set ''%+&'' = {} \<Longrightarrow> ref_translate (ref_to_pathstr s) = s"
  by (induction s) (auto simp: ref_translate_def ref_to_pathstr_def replace_char_def)

lemma path_to_ref_pathstr: "set s \<inter> set ''%+&'' = {} \<Longrightarrow> path_to_ref (ref_to_pathstr s) = s"
  by (induction s) (auto simp: path_to_ref_def ref_to_pathstr_def replace_char_def)

lemma pathstr_component: "CHR ''/'' \<notin> set (ref_to_pathstr s) \<and> CHR '':'' \<notin> set (ref_to_pathstr s)"
  by (auto simp: ref_to_pathstr_def replace_char_def)

section \<open>Properties\<close>

text \<open>
  C2: An image reference survives the way through its directory name. For text derived
  from the grammar of references (and free of the characters that directory names and
  variables use), the parsed reference prints as that text, hosts without a dot included;
  its name in the storage directory is a single path component; and both that name and the
  name decoded by \<open>path_to_ref\<close> parse to the same reference.
\<close>

theorem reference_roundtrip:
  assumes "walk_ok walk" "ref_ast_ok a" "set (ref_text a) \<inter> set ''%+&$'' = {}"
    and "parser (ref_text a) = Some (ref_tree a)"
  shows "\<exists>r f. reference_of_string parser walk (ref_text a) [] = Inr r
    \<and> reference_str r = Inr (ref_text a) \<and> for_path r = Inr f \<and> CHR ''/'' \<notin> set f
    \<and> reference_of_string parser walk f [] = Inr r
    \<and> reference_of_string parser walk (path_to_ref f) [] = Inr r"
proof -
  let ?s = "ref_text a"
  have plain: "set ?s \<inter> set ''%+&'' = {}" "CHR ''$'' \<notin> set ?s" using assms(3) by auto
  have parse: "reference_of_string parser walk t [] = Inr (ref_of_ast a)" if "ref_translate t = ?s" for t
    using that plain(2) assms(4) reference_from_ref_tree [OF assms(1,2)]
    by (simp add: reference_of_string_def reference_parse_def)
  show ?thesis
    using reference_str_ref_of_ast [OF assms(2)] pathstr_component [of ?s]
      parse [OF ref_translate_plain [OF plain(1)]] parse [OF ref_translate_pathstr [OF plain(1)]]
      path_to_ref_pathstr [OF plain(1)]
    by (intro exI [of _ "ref_of_ast a"] exI [of _ "ref_to_pathstr ?s"]) (simp add: for_path_def)
qed

lemma reference_roundtrip_witness:
  "\<exists>r f. reference_of_string (\<lambda>s. if s = ''localhost:5000/a/b:1'' then Some (ref_tree
        \<lparr>a_host = Some ''localhost'', a_port = Some ''5000'', a_path = [''a''], a_name = ''b'', a_suffix = Tag_Suffix ''1''\<rparr>)
      else None) subtrees ''localhost:5000/a/b:1'' [] = Inr r \<and> for_path r = Inr f \<and> CHR ''/'' \<notin> set f"
proof -
  let ?a = "\<lparr>a_host = Some ''localhost'', a_port = Some ''5000'', a_path = [''a''], a_name = ''b'', a_suffix = Tag_Suffix ''1''\<rparr>"
  have s: "ref_text ?a = ''localhost:5000/a/b:1''" by (simp add: ref_text_def)
  have "nat_of_digits ''5000'' = 5000" by (simp add: nat_of_digits_def digit_val_def)
  moreover have "str_of_nat 5000 = ''5000''" by (simp add: str_of_nat.simps char_of_def bit_0)
  ultimately have ok: "ref_ast_ok ?a" by (simp add: ref_ast_ok_def del: str_of_nat.simps)
  show ?thesis
    using reference_roundtrip [OF walk_ok_subtrees ok,
        of "\<lambda>s. if s = ''localhost:5000/a/b:1'' then Some (ref_tree ?a) else None"]
    unfolding s by auto
qed

text \<open>
  Completing a reference fills host, port and tag (unless there is a digest), keeps
  the name, every field given, and the given path as the end of the path, and completing
  it again changes nothing.
\<close>

theorem canonical_complete:
  assumes "canonical env r = Inr c"
  shows "r_host c \<noteq> None \<and> r_port c \<noteq> None \<and> (r_tag c \<noteq> None \<or> r_digest c \<noteq> None)
    \<and> canonical env c = Inr c
    \<and> r_name c = r_name r \<and> r_digest c = r_digest r \<and> suffix (r_path r) (r_path c)
    \<and> (r_host r \<noteq> None \<longrightarrow> r_host c = r_host r \<and> (r_port r \<noteq> None \<longrightarrow> r_port c = r_port r))
    \<and> (r_tag r \<noteq> None \<or> r_digest r \<noteq> None \<longrightarrow> r_tag c = r_tag r)"
proof -
  from assms obtain r1 where h: "defaults_host env r = Inr r1" and c: "c = defaults_rest r1"
    by (auto simp: canonical_def defaults_add_def res_simps)
  from h have r1: "r_host r1 \<noteq> None" "r_name r1 = r_name r" "r_digest r1 = r_digest r"
      "r_tag r1 = r_tag r" "suffix (r_path r) (r_path r1)" "r_host r \<noteq> None \<Longrightarrow> r1 = r"
    by (auto simp: defaults_host_def res_simps suffix_def split: if_splits option.splits)
  have d: "r_host c \<noteq> None" "r_port c \<noteq> None" "r_tag c \<noteq> None \<or> r_digest c \<noteq> None"
    "\<not> (r_host c = Some ''registry-1.docker.io'' \<and> r_path c = [])"
    using r1(1) by (auto simp: c defaults_rest_def Let_def)
  have "defaults_host env c = Inr c" using d(1) by (simp only: defaults_host_def if_False)
  moreover have "defaults_rest c = c" using d(2-4) unfolding defaults_rest_def Let_def by (simp only: if_False)
      (metis (no_types))
  ultimately have "canonical env c = Inr c" by (simp add: canonical_def defaults_add_def)
  moreover have "r_name c = r_name r" "r_digest c = r_digest r"
    using r1(2,3) by (simp_all add: c defaults_rest_def Let_def)
  moreover have "suffix (r_path r) (r_path c)"
    using r1(5) by (auto simp: c defaults_rest_def Let_def)
  moreover have "r_host r \<noteq> None \<longrightarrow> r_host c = r_host r \<and> (r_port r \<noteq> None \<longrightarrow> r_port c = r_port r)"
    using r1(6) by (auto simp: c defaults_rest_def Let_def)
  moreover have "r_tag r \<noteq> None \<or> r_digest r \<noteq> None \<longrightarrow> r_tag c = r_tag r"
    using r1(3,4) by (auto simp: c defaults_rest_def Let_def)
  moreover note d(1-3)
  ultimately show ?thesis by blast
qed

lemma canonical_complete_witness:
  "canonical [] \<lparr>r_host = None, r_port = None, r_path = [], r_name = Some ''alpine'', r_tag = None,
      r_digest = None, r_variables = []\<rparr>
    = Inr \<lparr>r_host = Some ''registry-1.docker.io'', r_port = Some 443, r_path = [''library''],
      r_name = Some ''alpine'', r_tag = Some ''latest'', r_digest = None, r_variables = []\<rparr>
   \<and> suffix [] [''library'']"
proof -
  have c: "canonical [] \<lparr>r_host = None, r_port = None, r_path = [], r_name = Some ''alpine'', r_tag = None,
      r_digest = None, r_variables = []\<rparr>
    = Inr \<lparr>r_host = Some ''registry-1.docker.io'', r_port = Some 443, r_path = [''library''],
      r_name = Some ''alpine'', r_tag = Some ''latest'', r_digest = None, r_variables = []\<rparr>"
    by (simp add: canonical_def defaults_add_def defaults_host_def defaults_rest_def)
  show ?thesis using canonical_complete [OF c] c by simp
qed

text \<open>
  A port in a reference is no longer text when variables are substituted in it: with any
  pre-\<open>FROM\<close> argument defined, parsing such a reference raises.
\<close>

lemma reference_port_variables:
  assumes "walk_ok walk" "ref_ast_ok a" "a_port a = Some p" "plain_env vars" "vars \<noteq> []"
    and "\<forall>s \<in> set (the (a_host a) # a_path a). CHR ''$'' \<notin> set s"
  shows "reference_from_tree walk vars (ref_tree a) = Inl Type_Error"
proof -
  have env: "\<forall>(k, v) \<in> set vars. var_name k \<and> backslash \<notin> set v"
    using assms(4) by (auto simp: plain_env_def list_all_iff)
  have "mapr (\<lambda>s. variables_sub s vars) (a_path a) = mapr Inr (a_path a)"
  proof -
    have "list_all2 (\<lambda>x y. variables_sub x vars = Inr y) (a_path a) (a_path a)"
      using assms(6) variables_sub_no_dollar [OF _ env] by (intro list_all2_same [THEN iffD2]) auto
    then show ?thesis by (simp add: mapr_Inr_iff [symmetric])
  qed
  moreover obtain h where "a_host a = Some h" using assms(2,3) by (auto simp: ref_ast_ok_def)
  moreover have "py_int p = Some (int (nat_of_digits p))"
    using assms(2,3) py_int_str_of_nat [of "nat_of_digits p"] by (auto simp: ref_ast_ok_def)
  ultimately show ?thesis
    using assms variables_sub_no_dollar [OF _ env, of h]
    by (simp add: reference_from_tree_def ref_tree_terminals [OF assms(1)] sub_field_def sub_port_def
        variables_sub_opt_def)
qed

end
