(* ===== verification/Json.thy ===== *)
theory Json
  imports Pystr
begin

text \<open>
  JSON values as Python sees them after \<open>json.loads\<close>, and the operations the code
  applies to them before it has checked what they are: subscription, membership,
  iteration, \<open>get\<close> and truth value, with the exceptions these raise on values of the
  wrong type. Numbers are integers.
\<close>

datatype json =
    Null
  | Bool bool
  | Num int
  | Str string
  | Arr "json list"
  | Obj "(string \<times> json) list"

definition json_key :: "json \<Rightarrow> string \<Rightarrow> json res" where \<comment> \<open>\<open>j[k]\<close>\<close>
  "json_key j k = (case j of Obj d \<Rightarrow> of_opt Key_Error (map_of d k) | _ \<Rightarrow> Inl Type_Error)"

definition json_index :: "json \<Rightarrow> nat \<Rightarrow> json res" where \<comment> \<open>\<open>j[i]\<close>\<close>
  "json_index j i =
     (case j of
        Arr xs \<Rightarrow> if i < length xs then Inr (xs ! i) else Inl Index_Error
      | Str s \<Rightarrow> if i < length s then Inr (Str [s ! i]) else Inl Index_Error
      | Obj d \<Rightarrow> Inl Key_Error
      | _ \<Rightarrow> Inl Type_Error)"

definition json_get :: "json \<Rightarrow> string \<Rightarrow> json res" where \<comment> \<open>\<open>j.get(k)\<close>\<close>
  "json_get j k =
     (case j of Obj d \<Rightarrow> Inr (case map_of d k of None \<Rightarrow> Null | Some v \<Rightarrow> v)
      | _ \<Rightarrow> Inl Attribute_Error)"

definition json_in :: "string \<Rightarrow> json \<Rightarrow> bool res" where \<comment> \<open>\<open>k in j\<close>\<close>
  "json_in k j =
     (case j of
        Obj d \<Rightarrow> Inr (map_of d k \<noteq> None)
      | Arr xs \<Rightarrow> Inr (Str k \<in> set xs)
      | Str s \<Rightarrow> Inr (sublist k s)
      | _ \<Rightarrow> Inl Type_Error)"

definition json_iter :: "json \<Rightarrow> json list res" where \<comment> \<open>\<open>for x in j\<close>\<close>
  "json_iter j =
     (case j of
        Arr xs \<Rightarrow> Inr xs
      | Obj d \<Rightarrow> Inr (map (\<lambda>(k, v). Str k) d)
      | Str s \<Rightarrow> Inr (map (\<lambda>c. Str [c]) s)
      | _ \<Rightarrow> Inl Type_Error)"

definition json_keys :: "json \<Rightarrow> string list res" where \<comment> \<open>\<open>j.keys()\<close>\<close>
  "json_keys j = (case j of Obj d \<Rightarrow> Inr (map fst d) | _ \<Rightarrow> Inl Attribute_Error)"

fun truthy :: "json \<Rightarrow> bool" where
  "truthy Null = False"
| "truthy (Bool b) = b"
| "truthy (Num n) = (n \<noteq> 0)"
| "truthy (Str s) = (s \<noteq> [])"
| "truthy (Arr xs) = (xs \<noteq> [])"
| "truthy (Obj d) = (d \<noteq> [])"

definition json_str :: "json \<Rightarrow> string res" where \<comment> \<open>a value on which a string method is called\<close>
  "json_str j = (case j of Str s \<Rightarrow> Inr s | _ \<Rightarrow> Inl Attribute_Error)"

lemmas json_ops = json_key_def json_index_def json_get_def json_in_def json_iter_def
  json_keys_def json_str_def

end
