(* ===== verification/Metadata.thy ===== *)
theory Metadata
  imports Json Utils
begin

text \<open>
  Image metadata: the methods \<open>metadata_*\<close> of class \<open>Image\<close> in \<open>lib/image.py\<close>. The
  metadata dictionary always has the same keys, so it is a record; fields that are copied
  from a registry's configuration without a check stay JSON values.
\<close>

record metadata =
  md_arch :: json
  md_arg :: "(string, string) dict"
  md_cwd :: json
  md_env :: "(string, string) dict"
  md_history :: json
  md_labels :: json
  md_shell :: json
  md_volumes :: "string list"

section \<open>Build arguments that are always there\<close>

definition args_magic :: "string list" where
  "args_magic =
     [''HTTP_PROXY'', ''HTTPS_PROXY'', ''FTP_PROXY'', ''NO_PROXY'', ''http_proxy'', ''https_proxy'',
      ''ftp_proxy'', ''no_proxy'', ''SSH_AUTH_SOCK'', ''USER'']"

definition arg_defaults_magic :: "environ \<Rightarrow> (string, string) dict" where
  "arg_defaults_magic env =
     concat (map (\<lambda>m. case map_of env m of None \<Rightarrow> [] | Some v \<Rightarrow> [(m, v)]) args_magic)"

definition arg_defaults :: "(string, string) dict" where
  "arg_defaults =
     [(''FAKEROOTDONTTRYCHOWN'', ''1''),
      (''PATH'', ''/usr/local/sbin:/usr/local/bin:/usr/sbin:/usr/bin:/sbin:/bin''),
      (''TAR_OPTIONS'', ''--no-same-owner'')]"

definition all_arg_defaults :: "environ \<Rightarrow> (string, string) dict" where
  "all_arg_defaults env = dict_update (arg_defaults_magic env) arg_defaults"

section \<open>Initialising, loading, saving\<close>

definition metadata_init :: "environ \<Rightarrow> string \<Rightarrow> metadata" where
  "metadata_init env arch_host =
     \<lparr>md_arch = Str (hd (split_on CHR ''/'' arch_host)),
      md_arg = all_arg_defaults env,
      md_cwd = Str ''/'',
      md_env = [],
      md_history = Arr [],
      md_labels = Obj [],
      md_shell = Arr [Str ''/bin/sh'', Str ''-c''],
      md_volumes = []\<rparr>"

text \<open>
  What the metadata file holds. Files of old versions lack \<open>arg\<close> or \<open>history\<close>; then
  the respective option is \<open>None\<close> and the record's own field is not used.
\<close>

record metadata_file =
  mf_data :: metadata
  mf_has_arg :: bool
  mf_has_history :: bool

definition metadata_load :: "environ \<Rightarrow> string \<Rightarrow> metadata_file option \<Rightarrow> metadata" where
  "metadata_load env arch_host file =
     (case file of
        None \<Rightarrow> metadata_init env arch_host
      | Some f \<Rightarrow>
          (let m = mf_data f;
               m = (if mf_has_arg f then m else m\<lparr>md_arg := []\<rparr>);
               m = (if mf_has_history f then m else m\<lparr>md_history := Arr []\<rparr>)
           in m\<lparr>md_arg := dict_update (md_arg m) (all_arg_defaults env)\<rparr>))"

text \<open>
  \<open>metadata_save\<close>: the metadata file, the text of \<open>ch/environment\<close>, and the volume
  directories created.
\<close>

definition env_line :: "string \<times> string \<Rightarrow> string" where
  "env_line kv = fst kv @ ''='' @ snd kv"

definition environment_text :: "(string, string) dict \<Rightarrow> string" where
  "environment_text env = join [newline] (map env_line (sort_key fst env)) @ [newline]"

definition metadata_save :: "metadata \<Rightarrow> metadata_file \<times> string \<times> string list" where
  "metadata_save m =
     (let saved = m\<lparr>md_arg := fold AList.delete args_magic (md_arg m)\<rparr> in
      (\<lparr>mf_data = saved, mf_has_arg = True, mf_has_history = True\<rparr>,
       environment_text (md_env saved), md_volumes saved))"

section \<open>Configurations from a registry\<close>

text \<open>The inner function \<open>get\<close>: \<open>None\<close> and missing keys are both \<open>Null\<close>.\<close>

fun config_get :: "json \<Rightarrow> string list \<Rightarrow> json res" where
  "config_get d [] = Inl Assertion_Error"
| "config_get d [k] = json_get d k"
| "config_get d (k # k2 # ks) =
     (case json_key d k of
        Inl e \<Rightarrow> if e = Key_Error then Inr Null else Inl e
      | Inr d' \<Rightarrow> config_get d' (k2 # ks))"

definition config_set :: "(json \<Rightarrow> metadata \<Rightarrow> metadata) \<Rightarrow> json \<Rightarrow> string list \<Rightarrow> metadata \<Rightarrow> metadata res" where
  "config_set upd config keys m =
     bindr (config_get config keys) (\<lambda>v.
       Inr (if v \<noteq> Null \<and> v \<noteq> Str [] then upd v m else m))"

text \<open>A line of \<open>Env\<close>. Only values that are not strings raise the fatal error.\<close>

definition env_line_parse :: "json \<Rightarrow> (string \<times> string) res" where
  "env_line_parse line =
     (case json_str line of
        Inl e \<Rightarrow> Inl (Fatal ''can't parse config: bad Env line: %s'')
      | Inr s \<Rightarrow> (case split1 CHR ''='' s of [k, v] \<Rightarrow> Inr (k, v) | _ \<Rightarrow> Inl Value_Error))"

definition merge_env :: "json \<Rightarrow> metadata \<Rightarrow> metadata res" where
  "merge_env env m =
     (if env = Null then Inr m
      else bindr (json_iter env) (\<lambda>lines.
        foldr_res (\<lambda>line m. bindr (env_line_parse line) (\<lambda>(k, v).
            Inr (m\<lparr>md_env := AList.update k v (md_env m)\<rparr>))) lines m))"

definition metadata_merge_from_config :: "json \<Rightarrow> metadata \<Rightarrow> metadata res" where
  "metadata_merge_from_config config m =
     bindr (json_in ''config'' config) (\<lambda>has_config.
     bindr (guard has_config (Fatal ''config missing key config'')) (\<lambda>_.
     bindr (config_set (\<lambda>v. md_arch_update (\<lambda>_. v)) config [''architecture''] m) (\<lambda>m.
     bindr (config_set (\<lambda>v. md_cwd_update (\<lambda>_. v)) config [''config'', ''WorkingDir''] m) (\<lambda>m.
     bindr (config_get config [''config'', ''Env'']) (\<lambda>env.
     bindr (merge_env env m) (\<lambda>m.
     bindr (json_in ''history'' config) (\<lambda>has_history.
     bindr (guard has_history (Fatal ''invalid config: missing history'')) (\<lambda>_.
     bindr (json_key config ''history'') (\<lambda>h.
     let m = m\<lparr>md_history := h\<rparr> in
     bindr (config_set (\<lambda>v. md_labels_update (\<lambda>_. v)) config [''config'', ''Labels''] m) (\<lambda>m.
     bindr (config_set (\<lambda>v. md_shell_update (\<lambda>_. v)) config [''config'', ''Shell''] m) (\<lambda>m.
     bindr (config_get config [''config'', ''Volumes'']) (\<lambda>vols.
     if vols = Null then Inr m
     else bindr (json_keys vols) (\<lambda>ks. Inr (m\<lparr>md_volumes := md_volumes m @ ks\<rparr>))))))))))))))"

text \<open>\<open>metadata_replace\<close>, up to the save: the configuration is \<open>None\<close> if there is none.\<close>

definition metadata_replace :: "environ \<Rightarrow> string \<Rightarrow> json option \<Rightarrow> metadata res" where
  "metadata_replace env arch_host config =
     (case config of
        None \<Rightarrow> Inr (metadata_init env arch_host)
      | Some c \<Rightarrow> metadata_merge_from_config c (metadata_init env arch_host))"

end
