(* ===== verification/Layers.thy ===== *)
theory Layers
  imports Utils
begin

text \<open>
  Unpacking of layer tarballs: \<open>layers_open\<close>, \<open>validate_members\<close>,
  \<open>whiteout_rm_prefix\<close>, \<open>whiteouts_resolve\<close> and \<open>unpack_layers\<close> of class
  \<open>Image\<close> (\<open>lib/image.py\<close>), and the repairs of class \<open>TarFile\<close>
  (\<open>lib/filesystem.py\<close>). A tarball is the list of its members; a member is what the code
  reads and writes of a \<open>TarInfo\<close>.
\<close>

unbundle bit_operations_syntax

section \<open>Members\<close>

datatype member_type = M_File | M_Dir | M_Symlink | M_Hardlink | M_Device | M_Unknown

record member =
  m_name :: string
  m_type :: member_type
  m_mode :: int
  m_uid :: int
  m_gid :: int
  m_uname :: string
  m_gname :: string
  m_linkname :: string

type_synonym layers = "(string, member list) dict"

definition standard_dirs :: "string list" where
  "standard_dirs = [''bin'', ''dev'', ''etc'', ''mnt'', ''proc'', ''sys'', ''tmp'', ''usr'']"

section \<open>Opening\<close>

text \<open>
  \<open>layers_open\<close>; \<open>open_tar\<close> gives a tarball's members, or \<open>None\<close> on a
  \<open>TarError\<close>. The second component is the number of empty layers.
\<close>

definition layer_hash :: "string \<Rightarrow> string" where
  "layer_hash path = hd (split1 CHR ''.'' (basename path))"

fun layers_open_from :: "(string \<Rightarrow> member list option) \<Rightarrow> string list \<Rightarrow> layers \<Rightarrow> nat \<Rightarrow> (layers \<times> nat) res" where
  "layers_open_from open_tar [] ls n = Inr (ls, n)"
| "layers_open_from open_tar (path # paths) ls n =
     bindr (of_opt (Fatal ''cannot open: %s: %s'') (open_tar path)) (\<lambda>members.
     if members \<noteq> []
     then layers_open_from open_tar paths (AList.update (layer_hash path) members ls) n
     else layers_open_from open_tar paths ls (Suc n))"

definition layers_open :: "(string \<Rightarrow> member list option) \<Rightarrow> string list \<Rightarrow> (layers \<times> nat) res" where
  "layers_open open_tar paths = layers_open_from open_tar paths [] 0"

section \<open>Repairs of class TarFile\<close>

definition fix_link_target :: "member \<Rightarrow> (member \<times> nat) res" where
  "fix_link_target m =
     (let src = Path [m_name m]; tgt = Path [m_linkname m] in
      bindr (guard (m_linkname m \<noteq> []) (Fatal ''rejecting link with empty target: %s: %s'')) (\<lambda>_.
      bindr (is_absolute tgt) (\<lambda>absolute.
      bindr (if absolute then
               (if m_type m = M_Symlink then
                  Inr (floordiv (Path (replicate (length (path_parts src) - 1) ''..''))
                                (Path (drop 1 (path_parts tgt))))
                else if m_type m = M_Hardlink then relative_to_str tgt [slash]
                else Inl Assertion_Error)
             else Inr tgt) (\<lambda>tgt.
      bindr (guard (''..'' \<notin> set (split_on slash (normpath (floordiv src tgt))))
               (Fatal ''rejecting too many up-levels: %s: %s -> %s'')) (\<lambda>_.
        Inr (m\<lparr>m_linkname := tgt\<rparr>, if absolute then 1 else 0))))))"

definition s_isuid :: int where "s_isuid = 0x800"
definition s_isgid :: int where "s_isgid = 0x400"

definition fix_member_uidgid :: "member \<Rightarrow> member res" where
  "fix_member_uidgid m =
     (case m_name m of
        [] \<Rightarrow> Inl Index_Error
      | c # _ \<Rightarrow>
          bindr (guard (c \<noteq> slash) Assertion_Error) (\<lambda>_.
          bindr (guard (m_type m \<in> {M_File, M_Dir, M_Symlink, M_Hardlink})
                   (Fatal ''invalid file type: %s'')) (\<lambda>_.
          let m = m\<lparr>m_uid := 0, m_uname := ''root'', m_gid := 0, m_gname := ''root''\<rparr>;
              m = (if m_mode m AND s_isuid \<noteq> 0 then m\<lparr>m_mode := m_mode m AND NOT s_isuid\<rparr> else m);
              m = (if m_mode m AND s_isgid \<noteq> 0 then m\<lparr>m_mode := m_mode m AND NOT s_isgid\<rparr> else m)
          in Inr m)))"

text \<open>The filter of \<open>add_\<close>: members left out of a pushed image, others repaired.\<close>

definition push_filter :: "member \<Rightarrow> member option res" where
  "push_filter m =
     bindr (guard (m_name m = ''.'' \<or> take 2 (m_name m) = ''./'') Assertion_Error) (\<lambda>_.
     if m_name m \<in> {''./ch/git'', ''./ch/git.pickle''} then Inr None
     else bindr (fix_member_uidgid m) (\<lambda>m. Inr (Some m)))"

section \<open>Validation\<close>

text \<open>Pass 1 on one member: its path made canonical, and the top-level directories.\<close>

definition pass1_member :: "member \<Rightarrow> string list \<Rightarrow> (member \<times> string list) res" where
  "pass1_member m tops =
     (let name = Path [m_name m] in
      bindr (guard (''..'' \<notin> set (path_parts name)) (Fatal ''rejecting up-level member: %s: %s'')) (\<lambda>_.
      bindr (is_absolute name) (\<lambda>absolute.
      bindr (if absolute then relative_to_str name [slash] else Inr name) (\<lambda>name.
        Inr (m\<lparr>m_name := name\<rparr>,
             if length (path_parts name) > 1 \<or> m_type m = M_Dir
             then oset_add (path_first name) tops else tops)))))"

fun pass1_members :: "member list \<Rightarrow> string list \<Rightarrow> (member list \<times> string list) res" where
  "pass1_members [] tops = Inr ([], tops)"
| "pass1_members (m # ms) tops =
     bindr (pass1_member m tops) (\<lambda>(m', tops).
     bindr (pass1_members ms tops) (\<lambda>(ms', tops).
       Inr (if m_name m = [] then ms' else m' # ms', tops)))"

fun pass1 :: "layers \<Rightarrow> string list \<Rightarrow> (layers \<times> string list) res" where
  "pass1 [] tops = Inr ([], tops)"
| "pass1 ((lh, ms) # ls) tops =
     bindr (pass1_members ms tops) (\<lambda>(ms', tops).
     bindr (pass1 ls tops) (\<lambda>(ls', tops). Inr ((lh, ms') # ls', tops)))"

text \<open>
  Pass 2. Taking \<open>None\<close> out of the top-level directories has no effect: a path's first
  component is a path.
\<close>

definition tarbomb_p :: "string list \<Rightarrow> bool" where
  "tarbomb_p tops \<longleftrightarrow> length tops = 1 \<and> set tops \<inter> set standard_dirs = {}"

definition strip_first :: "member \<Rightarrow> member" where
  "strip_first m =
     (if path_parts (m_name m) \<noteq> [] then m\<lparr>m_name := Path (drop 1 (path_parts (m_name m)))\<rparr> else m)"

definition map_layers :: "(member list \<Rightarrow> member list) \<Rightarrow> layers \<Rightarrow> layers" where
  "map_layers f = map (\<lambda>(lh, ms). (lh, f ms))"

definition pass2 :: "string list \<Rightarrow> layers \<Rightarrow> layers" where
  "pass2 tops ls = (if tarbomb_p tops then map_layers (map strip_first) ls else ls)"

text \<open>
  Pass 3: \<open>r"^(\./)?\.git"\<close> and \<open>r"^(\./)?dev/."\<close> select members that are dropped;
  \<open>None\<close> is a dropped member.
\<close>

definition git_meta_re :: re where
  "git_meta_re = Seqs [Bol, Opt (Lit ''./''), Lit ''.git'']"

definition under_dev_re :: re where
  "under_dev_re = Seqs [Bol, Opt (Lit ''./''), Lit ''dev/'', Any]"

definition fix_by_type :: "member \<Rightarrow> member res" where
  "fix_by_type m =
     (case m_type m of
        M_Symlink \<Rightarrow> bindr (fix_link_target m) (\<lambda>(m, n). Inr m)
      | M_Hardlink \<Rightarrow> bindr (fix_link_target m) (\<lambda>(m, n). Inr m)
      | M_Dir \<Rightarrow> Inr (m\<lparr>m_mode := m_mode m OR 0x1C0\<rparr>)
      | M_File \<Rightarrow> Inr (m\<lparr>m_mode := m_mode m OR 0x180\<rparr>)
      | _ \<Rightarrow> Inl (Fatal ''unknown member type: %s''))"

definition pass3_member :: "member \<Rightarrow> member option res" where
  "pass3_member m =
     (if m_type m = M_Device then Inr None
      else bindr (fix_by_type m) (\<lambda>m.
        if search_p git_meta_re (m_name m) then Inr None
        else if search_p under_dev_re (m_name m) then Inr None
        else bindr (fix_member_uidgid m) (\<lambda>m. Inr (Some m))))"

definition pass3_members :: "member list \<Rightarrow> member list res" where
  "pass3_members ms =
     bindr (mapr pass3_member ms) (\<lambda>os. Inr (concat (map (case_option [] (\<lambda>m. [m])) os)))"

definition pass3 :: "layers \<Rightarrow> layers res" where
  "pass3 ls = mapr (\<lambda>(lh, ms). bindr (pass3_members ms) (\<lambda>ms'. Inr (lh, ms'))) ls"

definition validate_members :: "layers \<Rightarrow> layers res" where
  "validate_members ls = bindr (pass1 ls []) (\<lambda>(ls, tops). pass3 (pass2 tops ls))"

section \<open>Whiteouts\<close>

text \<open>\<open>whiteout_rm_prefix\<close>, with the number of members ignored.\<close>

fun rm_prefix_from :: "nat \<Rightarrow> layers \<Rightarrow> nat \<Rightarrow> string \<Rightarrow> layers \<times> nat" where
  "rm_prefix_from i [] max_i pfx = ([], 0)"
| "rm_prefix_from i ((lh, ms) # ls) max_i pfx =
     (if i > max_i then ((lh, ms) # ls, 0)
      else case rm_prefix_from (Suc i) ls max_i pfx of (ls', n) \<Rightarrow>
        ((lh, filter (\<lambda>m. \<not> prefix_path pfx (m_name m)) ms) # ls',
         n + length (filter (\<lambda>m. prefix_path pfx (m_name m)) ms)))"

definition whiteout_rm_prefix :: "layers \<Rightarrow> nat \<Rightarrow> string \<Rightarrow> layers \<times> nat" where
  "whiteout_rm_prefix ls max_i pfx = rm_prefix_from 1 ls max_i (normpath pfx)"

definition whiteout_p :: "member \<Rightarrow> bool" where
  "whiteout_p m \<longleftrightarrow> prefix ''.wh.'' (basename (m_name m))"

text \<open>The prefix a whiteout removes from the layers below.\<close>

definition whiteout_prefix :: "member \<Rightarrow> string" where
  "whiteout_prefix m =
     (if basename (m_name m) = ''.wh..wh..opq'' then dirname (m_name m)
      else dirname (m_name m) @ ''/'' @ drop 4 (basename (m_name m)))"

text \<open>
  One layer: each whiteout is taken out of layer \<open>i\<close> (one-based) and its prefix out of
  the layers before it. The members of the layer are read from a copy.
\<close>

definition whiteout_apply :: "nat \<Rightarrow> member \<Rightarrow> layers \<Rightarrow> layers" where
  "whiteout_apply i m ls =
     (if whiteout_p m
      then fst (whiteout_rm_prefix
             (ls[i - 1 := (fst (ls ! (i - 1)), remove1 m (snd (ls ! (i - 1))))])
             (i - 1) (whiteout_prefix m))
      else ls)"

definition whiteouts_layer :: "nat \<Rightarrow> layers \<Rightarrow> layers" where
  "whiteouts_layer i ls = fold (whiteout_apply i) (snd (ls ! (i - 1))) ls"

definition whiteouts_resolve :: "layers \<Rightarrow> layers" where
  "whiteouts_resolve ls = fold whiteouts_layer [1 ..< Suc (length ls)] ls"

section \<open>Extraction order\<close>

text \<open>
  \<open>unpack_layers\<close>: the members handed to \<open>extractall\<close>, layer by layer, up to
  \<open>last_layer\<close>.
\<close>

definition unpack_layers :: "(string \<Rightarrow> member list option) \<Rightarrow> string list \<Rightarrow> nat \<Rightarrow> member list list res" where
  "unpack_layers open_tar paths last_layer =
     bindr (layers_open open_tar paths) (\<lambda>(ls, n).
     bindr (validate_members ls) (\<lambda>ls.
       Inr (map snd (take last_layer (whiteouts_resolve ls)))))"

section \<open>Whiteouts: the declarative reading\<close>

text \<open>
  The specification of the image format: a member is visible if it is no whiteout and no
  whiteout of a later layer covers it.
\<close>

definition covers :: "member \<Rightarrow> member \<Rightarrow> bool" where
  "covers w m \<longleftrightarrow> whiteout_p w \<and> prefix_path (normpath (whiteout_prefix w)) (m_name m)"

definition covered_by :: "layers \<Rightarrow> nat \<Rightarrow> nat \<Rightarrow> member \<Rightarrow> bool" where
  \<comment> \<open>by a layer after \<open>i\<close> and before \<open>n\<close>\<close>
  "covered_by ls i n m \<longleftrightarrow> list_ex (\<lambda>j. list_ex (\<lambda>w. covers w m) (snd (ls ! j))) [Suc i ..< n]"

definition overlay :: "layers \<Rightarrow> layers" where
  "overlay ls =
     map (\<lambda>i. (fst (ls ! i),
               filter (\<lambda>m. \<not> whiteout_p m \<and> \<not> covered_by ls i (length ls) m) (snd (ls ! i))))
       [0 ..< length ls]"

lemma rm_prefix_from_nth:
  "length (fst (rm_prefix_from i ls mx pfx)) = length ls \<and>
   (\<forall>k < length ls. fst (rm_prefix_from i ls mx pfx) ! k =
      (fst (ls ! k), if i + k \<le> mx then filter (\<lambda>m. \<not> prefix_path pfx (m_name m)) (snd (ls ! k))
                     else snd (ls ! k)))"
proof (induction i ls mx pfx rule: rm_prefix_from.induct)
  case (2 i lh ms ls mx pfx)
  show ?case
  proof (cases "i > mx")
    case False
    obtain ls' n where r: "rm_prefix_from (Suc i) ls mx pfx = (ls', n)" by fastforce
    from 2 [OF False] r have IH: "length ls' = length ls" "\<And>k. k < length ls \<Longrightarrow> ls' ! k =
      (fst (ls ! k), if Suc i + k \<le> mx then filter (\<lambda>m. \<not> prefix_path pfx (m_name m)) (snd (ls ! k))
                     else snd (ls ! k))" by auto
    show ?thesis
      using False IH by (auto simp: r nth_Cons split: nat.split)
  qed auto
qed simp

lemma whiteout_apply_nth:
  assumes "n < length T" "whiteout_p w"
  shows "length (whiteout_apply (Suc n) w T) = length T"
    and "k < length T \<Longrightarrow> whiteout_apply (Suc n) w T ! k =
      (fst (T ! k), if k < n then filter (\<lambda>m. \<not> covers w m) (snd (T ! k))
                    else if k = n then remove1 w (snd (T ! k)) else snd (T ! k))"
  using assms rm_prefix_from_nth [of 1 "T[n := (fst (T ! n), remove1 w (snd (T ! n)))]" n
      "normpath (whiteout_prefix w)"]
  by (auto simp: whiteout_apply_def whiteout_rm_prefix_def covers_def)

definition not_wh :: "member \<Rightarrow> bool" where "not_wh m \<longleftrightarrow> \<not> whiteout_p m"

lemma fold_whiteout_apply:
  assumes "n < length T" "snd (T ! n) = filter not_wh ws @ rest"
  shows "length (fold (whiteout_apply (Suc n)) rest T) = length T \<and>
    (\<forall>k < length T. fold (whiteout_apply (Suc n)) rest T ! k =
      (fst (T ! k), if k < n then filter (\<lambda>m. \<not> list_ex (\<lambda>w. covers w m) rest) (snd (T ! k))
                    else if k = n then filter not_wh (ws @ rest) else snd (T ! k)))"
  using assms
proof (induction rest arbitrary: ws T)
  case Nil
  then show ?case by (auto simp: prod_eq_iff)
next
  case (Cons w rest)
  show ?case
  proof (cases "whiteout_p w")
    case True
    let ?T = "whiteout_apply (Suc n) w T"
    have w: "w \<notin> set (filter not_wh ws)" using True by (simp add: not_wh_def)
    have "snd (?T ! n) = filter not_wh (ws @ [w]) @ rest"
      using Cons.prems(1) w True unfolding whiteout_apply_nth(2) [OF Cons.prems(1) True Cons.prems(1)] Cons.prems(2)
      by (simp add: remove1_append) (simp add: not_wh_def)
    moreover have "n < length ?T" using Cons.prems True by (simp add: whiteout_apply_nth)
    ultimately show ?thesis
      using Cons.IH [of ?T "ws @ [w]"] Cons.prems True
      by (auto simp: whiteout_apply_nth filter_filter conj_commute)
  next
    case False
  then have "not_wh w" by (simp add: not_wh_def)
    then have "snd (T ! n) = filter not_wh (ws @ [w]) @ rest"
      using Cons.prems by simp
    moreover have "whiteout_apply (Suc n) w T = T" using False by (simp add: whiteout_apply_def)
    moreover have "\<not> covers w m" for m using False by (simp add: covers_def)
    ultimately show ?thesis
      using Cons.IH [of T "ws @ [w]"] Cons.prems(1) by auto
  qed
qed

lemma whiteouts_prefix:
  "n \<le> length ls \<Longrightarrow> fold whiteouts_layer [1 ..< Suc n] ls =
     map (\<lambda>i. (fst (ls ! i),
               filter (\<lambda>m. (i < n \<longrightarrow> not_wh m) \<and> \<not> covered_by ls i n m) (snd (ls ! i))))
       [0 ..< length ls]"
proof (induction n)
  case 0
  have "\<not> covered_by ls i 0 m" for i m by (simp add: covered_by_def)
  then show ?case by (simp add: map_nth)
next
  case (Suc n)
  define S where "S = fold whiteouts_layer [1 ..< Suc n] ls"
  have S: "length S = length ls" "\<And>i. i < length ls \<Longrightarrow> S ! i = (fst (ls ! i),
      filter (\<lambda>m. (i < n \<longrightarrow> not_wh m) \<and> \<not> covered_by ls i n m) (snd (ls ! i)))"
    using Suc by (simp_all add: S_def del: upt_Suc)
  have self: "\<not> covered_by ls n n m" for m by (simp add: covered_by_def)
  then have Sn: "snd (S ! n) = snd (ls ! n)" using S(2) [of n] Suc.prems by simp
  have cov: "covered_by ls i (Suc n) m \<longleftrightarrow> covered_by ls i n m \<or> i < n \<and> list_ex (\<lambda>w. covers w m) (snd (ls ! n))"
    for i m by (auto simp: covered_by_def)
  have "[1 ..< Suc (Suc n)] = [1 ..< Suc n] @ [Suc n]" by simp
  then have "fold whiteouts_layer [1 ..< Suc (Suc n)] ls = whiteouts_layer (Suc n) S"
    by (simp only: fold_append S_def o_apply fold.simps id_apply)
  also have "\<dots> = fold (whiteout_apply (Suc n)) (snd (ls ! n)) S"
    by (simp add: whiteouts_layer_def Sn)
  finally have step: "fold whiteouts_layer [1 ..< Suc (Suc n)] ls = fold (whiteout_apply (Suc n)) (snd (ls ! n)) S" .
  note F = fold_whiteout_apply [of n S "[]" "snd (ls ! n)"]
  show ?case
    unfolding step
  proof (rule nth_equalityI)
    show "length (fold (whiteout_apply (Suc n)) (snd (ls ! n)) S) = length (map (\<lambda>i. (fst (ls ! i),
       filter (\<lambda>m. (i < Suc n \<longrightarrow> not_wh m) \<and> \<not> covered_by ls i (Suc n) m) (snd (ls ! i)))) [0 ..< length ls])"
      using F S(1) Sn Suc.prems by simp
  next
    fix i assume "i < length (fold (whiteout_apply (Suc n)) (snd (ls ! n)) S)"
    then have i: "i < length ls" using F S(1) Sn Suc.prems by simp
    then show "fold (whiteout_apply (Suc n)) (snd (ls ! n)) S ! i = map (\<lambda>i. (fst (ls ! i),
       filter (\<lambda>m. (i < Suc n \<longrightarrow> not_wh m) \<and> \<not> covered_by ls i (Suc n) m) (snd (ls ! i)))) [0 ..< length ls] ! i"
      using F S Sn Suc.prems
      by (cases "i < n"; cases "i = n") (auto simp: cov less_Suc_eq self intro!: filter_cong)
  qed
qed


section \<open>Whiteouts at the root of the image\<close>

lemma prefix_path_abs:
  assumes "is_abs p" "\<not> is_abs n" "n \<noteq> []" shows "\<not> prefix_path p n"
  using assms by (cases p; cases n) (auto simp: prefix_path_def is_abs_def)

lemma is_abs_normpath: "is_abs s \<Longrightarrow> is_abs (normpath s)"
  by (auto simp: normpath_def is_abs_def Let_def numeral_2_eq_2)

text \<open>
  A whiteout for a file at the root of the image hides nothing: the prefix looked for
  starts with a slash, and the names of validated members do not.
\<close>

lemma root_whiteout_no_effect:
  assumes "dirname (m_name w) = []" "basename (m_name w) \<noteq> ''.wh..wh..opq''"
    and "\<not> is_abs (m_name m)" "m_name m \<noteq> []"
  shows "\<not> covers w m"
proof -
  have "is_abs (whiteout_prefix w)" using assms by (simp add: whiteout_prefix_def is_abs_def)
  then show ?thesis using assms by (simp add: covers_def prefix_path_abs is_abs_normpath)
qed

section \<open>Validated members are safe\<close>

lemma search_p_Bol: "search_p (Seq Bol r) s \<longleftrightarrow> matches r s (0, []) \<noteq> []"
  by (auto simp: search_p_def search_None_iff)

lemma matches_Opt_Lit:
  "matches (Seq (Opt (Lit a)) r) s (0, cs) =
     (if prefix a s then matches r s (length a, cs) else []) @ matches r s (0, cs)"
  using matches_Lit [of 0 s a cs] by (auto simp: Opt_def)

lemma git_meta_re_iff:
  "search_p git_meta_re s \<longleftrightarrow> prefix ''.git'' s \<or> prefix ''./.git'' s"
proof -
  have "prefix ''./'' s \<and> prefix ''.git'' (drop 2 s) \<longleftrightarrow> prefix ''./.git'' s"
    by (cases s; cases "tl s") auto
  then show ?thesis
    unfolding git_meta_re_def Seqs.simps search_p_Bol matches_Opt_Lit
    using matches_Lit [of 0 s "''.git''" "[]"] matches_Lit [of 2 s "''.git''" "[]"]
    by (cases "prefix ''./'' s") (auto simp: numeral_2_eq_2 dest: prefix_length_le simp del: matches.simps Lit.simps)
qed

definition under_dev :: "string \<Rightarrow> bool" where
  "under_dev t \<longleftrightarrow> prefix ''dev/'' t \<and> length t > 4 \<and> t ! 4 \<noteq> newline"

lemma under_dev_re_iff:
  "search_p under_dev_re s \<longleftrightarrow> under_dev s \<or> prefix ''./'' s \<and> under_dev (drop 2 s)"
proof -
  have D: "matches (Seq (Lit ''dev/'') Any) s (i, []) \<noteq> [] \<longleftrightarrow> under_dev (drop i s)" if "i \<le> length s" for i
    using matches_Lit [OF that, of "''dev/''" "[]"]
    by (auto simp: Any_def char_at_def under_dev_def eval_nat_numeral simp del: Lit.simps)
  have 2: "2 \<le> length s" if "prefix ''./'' s" using prefix_length_le [OF that] by simp
  show ?thesis
    unfolding under_dev_re_def Seqs.simps search_p_Bol matches_Opt_Lit
    using D [of 0] D [of 2] 2
    by (cases "prefix ''./'' s") (simp_all add: numeral_2_eq_2 del: matches.simps Lit.simps, blast)
qed

section \<open>Canonical member names\<close>

definition name_ok :: "string \<Rightarrow> bool" where
  "name_ok n \<longleftrightarrow> no_double n \<and> \<not> is_abs n \<and> ''..'' \<notin> set (path_components n)"

lemma dotdot_parts: "''..'' \<in> set (path_parts p) \<longleftrightarrow> ''..'' \<in> set (path_components p)"
proof (cases "p = ''.''")
  case False
  obtain x xs where s: "split_on slash p = x # xs" by (cases "split_on slash p") auto
  define ys where "ys = (if x = [] then [slash] else x) # xs"
  have "path_parts p = (if last ys = [] then butlast ys else ys)"
    using False by (auto simp: path_parts_def s ys_def Let_def)
  moreover have "''..'' \<in> set ys \<longleftrightarrow> ''..'' \<in> set (x # xs)" by (auto simp: ys_def)
  moreover have "ys = butlast ys @ [last ys]" by (simp add: ys_def)
  ultimately have "''..'' \<in> set (path_parts p) \<longleftrightarrow> ''..'' \<in> set (x # xs)"
    by (metis Un_iff list.discI set_ConsD set_append empty_iff list.set(1))
  then show ?thesis by (auto simp: path_components_def s)
qed (simp add: path_parts_def path_components_def)

lemma tidy_name:
  assumes "\<not> is_abs s"
  shows "no_double (tidy s) \<and> \<not> is_abs (tidy s) \<and> set (path_components (tidy s)) \<subseteq> insert ''.'' (set (path_components s))"
proof (cases "s = []")
  case True
  then show ?thesis by (simp add: tidy_def is_abs_def path_components_def)
next
  case False
  let ?p = "collapse s"
  have nd: "no_double ?p" by (rule no_double_collapse)
  have ab: "\<not> is_abs ?p" using assms by (simp add: is_abs_collapse)
  show ?thesis
  proof (cases "prefix ''./'' ?p")
    case True
    then obtain t where t: "?p = ''./'' @ t" by (auto simp: prefix_def)
    then have tt: "tidy s = t" using False by (simp add: tidy_def)
    have "no_double (CHR ''.'' # slash # t)" using nd t by simp
    then have "no_double (slash # t)" by simp
    then have n: "no_double t" "\<not> (t \<noteq> [] \<and> hd t = slash)" using no_double_Cons [of slash t] by blast+
    then have "\<not> is_abs t" by (cases t) (auto simp: is_abs_def)
    note n(1) this
    moreover have "path_components s = ''.'' # path_components t"
      using path_components_append_slash [of "''.''" t] t path_components_collapse [of s]
      by (simp add: path_components_def)
    ultimately show ?thesis unfolding tt by auto
  next
    case F: False
    then have "tidy s = ?p" using False by (simp add: tidy_def)
    then show ?thesis using nd ab by (auto simp: path_components_collapse)
  qed
qed

lemma path_components_drop1_abs:
  "is_abs s \<Longrightarrow> path_components (drop 1 s) = path_components s"
  by (cases s) (auto simp: is_abs_def)

lemma Path_abs:
  assumes "is_abs s"
  shows "no_double (tidy s)" "is_abs (tidy s)" "path_components (tidy s) = path_components s"
proof -
  from assms have "s \<noteq> []" "is_abs (collapse s)" by (auto simp: is_abs_def is_abs_collapse [unfolded is_abs_def])
  then have "tidy s = collapse s" by (auto simp: tidy_def is_abs_def prefix_def)
  then show "no_double (tidy s)" "is_abs (tidy s)" "path_components (tidy s) = path_components s"
    using \<open>is_abs (collapse s)\<close> by (auto simp: no_double_collapse path_components_collapse)
qed

lemma is_absolute_is_abs: "is_absolute p = Inr b \<Longrightarrow> is_abs p = b"
  by (auto simp: is_absolute_def is_abs_def split: list.splits)

lemma relative_to_root:
  assumes "relative_to_str p [slash] = Inr q" "is_abs p" "no_double p"
  shows "no_double q \<and> \<not> is_abs q \<and> set (path_components q) \<subseteq> insert ''.'' (set (path_components p))"
proof -
  have q: "q = tidy (drop 1 p)"
    using assms(1) by (auto simp: relative_to_str_def res_simps Path_single split: if_splits)
  have "\<not> is_abs (drop 1 p)"
    using assms(2,3) by (cases p; cases "tl p") (auto simp: is_abs_def no_double_Cons)
  from tidy_name [of "drop 1 p"] this show ?thesis
    unfolding q path_components_drop1_abs [OF assms(2), symmetric] by blast
qed

lemma name_ok_pass1:
  assumes "pass1_member m tops = Inr (m', tops')"
  shows "name_ok (m_name m')"
proof -
  let ?n = "tidy (m_name m)"
  from assms obtain ab name where dd: "''..'' \<notin> set (path_parts ?n)"
    and ab: "is_absolute ?n = Inr ab" and m': "m_name m' = name"
    and name: "(if ab then relative_to_str ?n [slash] else Inr ?n) = Inr name"
    by (auto simp: pass1_member_def Let_def res_simps Path_single)
  from dd have dc: "''..'' \<notin> set (path_components ?n)" by (simp add: dotdot_parts)
  note iab = is_absolute_is_abs [OF ab]
  show ?thesis
  proof (cases ab)
    case True
    have "is_abs (m_name m)"
      using iab True tidy_name [of "m_name m"] by blast
    with Path_abs have "no_double ?n" "is_abs ?n" by auto
    with name True relative_to_root [of ?n name] dc show ?thesis
      unfolding m' name_ok_def by auto
  next
    case False
    then have "name = ?n" using name by simp
    moreover have "no_double ?n" using tidy_name [of "m_name m"] Path_abs [of "m_name m"] by blast
    ultimately show ?thesis using False iab dc unfolding m' name_ok_def by simp
  qed
qed

lemma name_ok_strip: "name_ok (m_name m) \<Longrightarrow> name_ok (m_name (strip_first m))"
proof -
  assume ok: "name_ok (m_name m)"
  let ?n = "m_name m"
  show ?thesis
  proof (cases "path_parts ?n = []")
    case False
    have r: "?n = render False (path_components ?n) (trail ?n)"
      using path_canonical [of ?n] ok by (simp add: name_ok_def)
    let ?cs = "path_components ?n"
    have "?n \<noteq> ''.''" using False by (auto simp: path_parts_def)
    have "path_parts ?n = (if ?cs = [] then [[slash]] else ?cs)"
    proof (cases "?cs = []")
      case True
      then have "?n = []" using r by (simp add: render_def)
      then show ?thesis by (simp add: path_parts_def path_components_def)
    next
      case F: False
      then show ?thesis
        using path_parts_render [of ?cs False "trail ?n"] r \<open>?n \<noteq> ''.''\<close> by simp
    qed
    then have "set (drop 1 (path_parts ?n)) \<subseteq> set ?cs" "comps_ok (drop 1 (path_parts ?n))"
      using comps_ok_path_components [of ?n]
      by (auto simp: comps_ok_def dest: in_set_dropD)
    moreover define ds where "ds = drop 1 (path_parts ?n)"
    ultimately have ds: "set ds \<subseteq> set ?cs" "comps_ok ds" by auto
    let ?j = "render False ds False"
    have j: "join [slash] ds = ?j" by (simp add: render_def)
    have "\<not> is_abs ?j" "path_components ?j = ds" using ds(2) by (simp_all add: render_simps)
    with tidy_name [of ?j] ds ok have "name_ok (tidy ?j)" unfolding name_ok_def by auto
    then show ?thesis using False by (simp add: strip_first_def Path_def ds_def [symmetric] j del: drop_Suc_Cons One_nat_def)
  qed (use ok in \<open>simp add: strip_first_def\<close>)
qed

section \<open>What validation guarantees\<close>

definition link_ok :: "member \<Rightarrow> bool" where
  "link_ok m \<longleftrightarrow> \<not> is_abs (m_linkname m)
     \<and> ''..'' \<notin> set (split_on slash (normpath (floordiv (Path [m_name m]) (m_linkname m))))"

definition member_safe :: "member \<Rightarrow> bool" where
  "member_safe m \<longleftrightarrow>
     m_type m \<in> {M_File, M_Dir, M_Symlink, M_Hardlink}
     \<and> m_name m \<noteq> [] \<and> \<not> is_abs (m_name m) \<and> ''..'' \<notin> set (split_on slash (m_name m))
     \<and> \<not> prefix ''.git'' (m_name m) \<and> \<not> under_dev (m_name m)
     \<and> m_uid m = 0 \<and> m_gid m = 0
     \<and> m_mode m AND s_isuid = 0 \<and> m_mode m AND s_isgid = 0
     \<and> (m_type m \<in> {M_Symlink, M_Hardlink} \<longrightarrow> link_ok m)"

lemma floordiv_not_abs: "p \<noteq> [] \<Longrightarrow> \<not> is_abs p \<Longrightarrow> \<not> is_abs (floordiv p q)"
  using tidy_name [of "p @ slash # q"] by (cases p) (auto simp: floordiv_def Path_single is_abs_def)

lemma dotdots_not_abs: "Path (replicate n ''..'') \<noteq> [] \<and> \<not> is_abs (Path (replicate n ''..''))"
proof (cases n)
  case 0
  then show ?thesis by (simp add: Path_def tidy_def is_abs_def)
next
  case (Suc k)
  have ok: "comps_ok (replicate n ''..'')" by (auto simp: comps_ok_def)
  have "join [slash] (replicate n ''..'') = render False (replicate n ''..'') False"
    by (simp add: render_def)
  then have "Path (replicate n ''..'') = render False (replicate n ''..'') False"
    using tidy_render [OF ok, of False False] Suc by (simp add: Path_def)
  then show ?thesis using is_abs_render [OF ok, of False False] render_eq_Nil [OF ok, of False False] Suc by simp
qed

lemma fix_link_target_ok:
  assumes "fix_link_target m = Inr (m', k)" "m_type m \<in> {M_Symlink, M_Hardlink}"
  shows "m' = m\<lparr>m_linkname := m_linkname m'\<rparr> \<and> \<not> is_abs (m_linkname m')
    \<and> ''..'' \<notin> set (split_on slash (normpath (floordiv (Path [m_name m]) (m_linkname m'))))"
proof -
  let ?src = "Path [m_name m]" and ?tgt = "Path [m_linkname m]"
  from assms(1) obtain ab new where ab: "is_absolute ?tgt = Inr ab"
    and new: "(if ab then
               (if m_type m = M_Symlink then
                  Inr (floordiv (Path (replicate (length (path_parts ?src) - 1) ''..''))
                                (Path (drop 1 (path_parts ?tgt))))
                else if m_type m = M_Hardlink then relative_to_str ?tgt [slash]
                else Inl Assertion_Error)
             else Inr ?tgt) = Inr new"
    and g: "''..'' \<notin> set (split_on slash (normpath (floordiv ?src new)))"
    and m': "m' = m\<lparr>m_linkname := new\<rparr>"
    by (auto simp: fix_link_target_def Let_def res_simps)
  have "\<not> is_abs new"
  proof (cases ab)
    case False
    then show ?thesis using new is_absolute_is_abs [OF ab] by auto
  next
    case True
    then have a: "is_abs ?tgt" using is_absolute_is_abs [OF ab] by simp
    then have "no_double ?tgt" using tidy_name [of "m_linkname m"] Path_abs [of "m_linkname m"]
      unfolding Path_single by blast
    with a True new assms(2) relative_to_root [of ?tgt new] floordiv_not_abs dotdots_not_abs show ?thesis
      by (auto split: if_splits)
  qed
  with g m' show ?thesis by simp
qed

lemma clear_bit: "((x :: int) AND NOT b) AND b = 0"
  by (auto simp: bit_eq_iff bit_simps)

lemma clear_other: "(x :: int) AND c = 0 \<Longrightarrow> (x AND NOT b) AND c = 0"
  by (auto simp: bit_eq_iff bit_simps)

lemma fix_member_uidgid_ok:
  assumes "fix_member_uidgid m = Inr m'"
  shows "m_type m \<in> {M_File, M_Dir, M_Symlink, M_Hardlink} \<and> m_name m \<noteq> [] \<and> \<not> is_abs (m_name m)
    \<and> m_uid m' = 0 \<and> m_gid m' = 0 \<and> m_mode m' AND s_isuid = 0 \<and> m_mode m' AND s_isgid = 0
    \<and> m_name m' = m_name m \<and> m_type m' = m_type m \<and> m_linkname m' = m_linkname m"
  using assms
  by (auto simp: clear_bit clear_other fix_member_uidgid_def res_simps Let_def is_abs_def split: list.splits if_splits)

lemma fix_by_type_ok:
  assumes "fix_by_type m = Inr m1"
  shows "m_name m1 = m_name m \<and> m_type m1 = m_type m \<and>
    (m_type m \<in> {M_Symlink, M_Hardlink} \<longrightarrow> \<not> is_abs (m_linkname m1)
      \<and> ''..'' \<notin> set (split_on slash (normpath (floordiv (Path [m_name m]) (m_linkname m1)))))"
proof (cases "m_type m \<in> {M_Symlink, M_Hardlink}")
  case True
  then obtain k where k: "fix_link_target m = Inr (m1, k)"
    using assms by (auto simp: fix_by_type_def res_simps)
  have "m_name (m\<lparr>m_linkname := x\<rparr>) = m_name m \<and> m_type (m\<lparr>m_linkname := x\<rparr>) = m_type m" for x by simp
  with fix_link_target_ok [OF k True] show ?thesis by metis
qed (use assms in \<open>auto simp: fix_by_type_def split: member_type.splits\<close>)

lemma pass3_member_safe:
  assumes "pass3_member m = Inr (Some m')" "name_ok (m_name m)"
  shows "member_safe m'"
proof -
  from assms(1) obtain m1 where 1: "fix_by_type m = Inr m1"
    and ng: "\<not> search_p git_meta_re (m_name m1)" and nd: "\<not> search_p under_dev_re (m_name m1)"
    and 2: "fix_member_uidgid m1 = Inr m'"
    by (auto simp: pass3_member_def res_simps split: if_splits)
  note f = fix_by_type_ok [OF 1] and g = fix_member_uidgid_ok [OF 2]
  have "''..'' \<notin> set (split_on slash (m_name m))"
    using assms(2) by (auto simp: name_ok_def path_components_def)
  then show ?thesis
    using f g ng nd assms(2) by (auto simp: member_safe_def link_ok_def git_meta_re_iff under_dev_re_iff is_abs_def)
qed

definition all_members :: "(member \<Rightarrow> bool) \<Rightarrow> layers \<Rightarrow> bool" where
  "all_members P ls \<longleftrightarrow> list_all (\<lambda>(lh, ms). list_all P ms) ls"

lemma pass1_members_ok:
  "pass1_members ms tops = Inr (ms', tops') \<Longrightarrow> list_all (\<lambda>m. name_ok (m_name m)) ms'"
  by (induction ms arbitrary: tops ms' tops') (auto simp: res_simps dest: name_ok_pass1 split: if_splits)

lemma pass1_ok: "pass1 ls tops = Inr (ls', tops') \<Longrightarrow> all_members (\<lambda>m. name_ok (m_name m)) ls'"
proof (induction ls arbitrary: tops ls' tops')
  case (Cons l ls)
  then show ?case by (cases l) (fastforce simp: res_simps all_members_def dest: pass1_members_ok)
qed (simp add: all_members_def)

lemma pass2_ok:
  "all_members (\<lambda>m. name_ok (m_name m)) ls \<Longrightarrow> all_members (\<lambda>m. name_ok (m_name m)) (pass2 tops ls)"
  by (auto simp: all_members_def pass2_def map_layers_def list_all_iff name_ok_strip split: prod.splits)

lemma pass3_members_safe:
  assumes "pass3_members ms = Inr ms'" "list_all (\<lambda>m. name_ok (m_name m)) ms"
  shows "list_all member_safe ms'"
proof -
  from assms(1) obtain os where os: "list_all2 (\<lambda>m x. pass3_member m = Inr x) ms os"
    and ms': "ms' = concat (map (case_option [] (\<lambda>m. [m])) os)"
    by (auto simp: pass3_members_def res_simps mapr_Inr_iff)
  have "member_safe m'" if "Some m' \<in> set os" for m'
  proof -
    from that obtain k where "k < length os" "os ! k = Some m'" by (auto simp: in_set_conv_nth)
    with os have "k < length ms" "pass3_member (ms ! k) = Inr (Some m')"
      by (auto simp: list_all2_conv_all_nth)
    with assms(2) show ?thesis by (auto intro: pass3_member_safe simp: list_all_length)
  qed
  then show ?thesis by (auto simp: ms' list_all_iff split: option.splits)
qed



section \<open>Absolute symbolic links\<close>

lemma normpath_comps_plain:
  "list_all (\<lambda>c. c \<notin> {[], ''.'', ''..''}) cs \<Longrightarrow> normpath_comps ab acc (cs @ ds) = normpath_comps ab (acc @ cs) ds"
  by (induction cs arbitrary: acc) auto

lemma normpath_comps_up:
  "list_all (\<lambda>c. c \<noteq> ''..'') acc \<Longrightarrow> n \<le> length acc \<Longrightarrow>
   normpath_comps ab acc (replicate n ''..'' @ ds) = normpath_comps ab (take (length acc - n) acc) ds"
proof (induction n arbitrary: acc)
  case (Suc n)
  then have ne: "acc \<noteq> []" by auto
  moreover from ne have "last acc \<noteq> ''..''" using Suc.prems(1) last_in_set [OF ne] by (auto simp: list_all_iff)
  ultimately have ne: "acc \<noteq> []" "last acc \<noteq> ''..''" .
  have "list_all (\<lambda>c. c \<noteq> ''..'') (butlast acc)" using Suc.prems by (auto simp: list_all_iff dest: in_set_butlastD)
  with Suc.IH [of "butlast acc"] Suc.prems ne show ?case by (simp add: take_butlast butlast_conv_take)
qed simp

lemma normpath_render_rel:
  assumes "comps_ok cs" "cs \<noteq> []" "normpath_comps False [] cs = ds" "comps_ok ds"
  shows "normpath (render False cs False) = (if ds = [] then ''.'' else join [slash] ds)"
  using assms render_eq_Nil [OF assms(1), of False False] is_abs_render [OF assms(1), of False False]
    split_on_render [OF assms(1,2), of False False] join_ends [OF assms(4)]
  by (auto simp: normpath_def Let_def)

definition dot_or :: "string list \<Rightarrow> string list" where
  "dot_or ts = (if ts = [] then [''.''] else ts)"

lemma comps_ok_dot_or [simp]: "comps_ok ts \<Longrightarrow> comps_ok (dot_or ts)"
  by (simp add: dot_or_def)

lemma comps_ok_dotdots [simp]: "comps_ok (replicate n ''..'')"
  by (auto simp: comps_ok_def)

lemma dot_or_ne [simp]: "dot_or ts \<noteq> []" by (simp add: dot_or_def)

lemma normpath_comps_dot_or:
  "plain_comps ts \<Longrightarrow> normpath_comps ab acc (dot_or ts) = acc @ ts"
  using normpath_comps_plain [of ts ab acc "[]"] by (simp add: dot_or_def plain_comps_def)

lemma link_target_form:
  assumes "plain_comps ts"
  shows "floordiv (Path (replicate n ''..'')) (Path ts) = render False (replicate n ''..'' @ dot_or ts) False"
proof -
  have ok: "comps_ok ts" using assms by (simp add: plain_comps_def)
  have "Path ts = render False (dot_or ts) False"
  proof (cases ts)
    case Nil then show ?thesis by (simp add: Path_def tidy_def dot_or_def render_def)
  next
    case (Cons c cs)
    then have "Path ts = tidy (render False ts False)" by (simp add: Path_def render_def)
    then show ?thesis using tidy_render_plain_hd [of c cs False] assms Cons by (simp add: plain_comps_def dot_or_def)
  qed
  moreover have "hd (dot_or ts) \<noteq> ''.'' \<or> dot_or ts = [''.'']"
    using assms by (cases ts) (auto simp: dot_or_def plain_comps_def)
  ultimately show ?thesis
  proof (cases n)
    case 0
    then show ?thesis
      using floordiv_dot [of "dot_or ts"] ok \<open>Path ts = _\<close> \<open>_ \<or> _\<close> by (simp add: Path_def tidy_def)
  next
    case (Suc k)
    let ?u = "replicate n ''..''"
    have "Path ?u = render False ?u False"
      using tidy_render_plain_hd [of "''..''" "replicate k ''..''" False] Suc by (simp add: Path_def render_def)
    moreover have "floordiv (render False ?u False) (render False (dot_or ts) False)
      = tidy (render False (?u @ dot_or ts) False)"
      using floordiv_canonical [of ?u "dot_or ts" False False False False] ok Suc by simp
    moreover have "\<dots> = render False (?u @ dot_or ts) False"
      using tidy_render_plain_hd [of "''..''" "replicate k ''..'' @ dot_or ts" False] ok Suc by simp
    ultimately show ?thesis using \<open>Path ts = _\<close> by simp
  qed
qed

lemma normpath_join_link:
  assumes "plain_comps ds" "plain_comps ts" "n \<le> length ds" "ds \<noteq> []"
  shows "normpath (floordiv (render False ds False) (render False (replicate n ''..'' @ dot_or ts) False))
    = (let cs = take (length ds - n) ds @ ts in if cs = [] then ''.'' else join [slash] cs)"
proof -
  obtain c cs where ds: "ds = c # cs" using assms(4) by (cases ds) auto
  have ok: "comps_ok ds" "comps_ok ts" "c \<noteq> ''.''" "list_all (\<lambda>c. c \<noteq> ''..'') ds"
    using assms ds by (auto simp: plain_comps_def list_all_iff)
  let ?all = "ds @ replicate n ''..'' @ dot_or ts"
  have "floordiv (render False ds False) (render False (replicate n ''..'' @ dot_or ts) False)
    = tidy (render False ?all False)"
    using floordiv_canonical [of ds "replicate n ''..'' @ dot_or ts" False False False False] ok ds by simp
  also have "\<dots> = render False ?all False"
    using tidy_render_plain_hd [of c "cs @ replicate n ''..'' @ dot_or ts" False] ok ds by simp
  finally have f: "floordiv (render False ds False) (render False (replicate n ''..'' @ dot_or ts) False)
    = render False ?all False" .
  have "normpath_comps False [] ?all = take (length ds - n) ds @ ts"
    using normpath_comps_plain [of ds False "[]"] normpath_comps_up [OF ok(4) assms(3)] assms(1)
      normpath_comps_dot_or [OF assms(2)] by (simp add: plain_comps_def)
  moreover have "comps_ok (take (length ds - n) ds)" using ok(1) by (auto simp: comps_ok_def dest: in_set_takeD)
  ultimately show ?thesis
    unfolding f using normpath_render_rel [of ?all "take (length ds - n) ds @ ts"] ok by (simp add: Let_def)
qed

text \<open>
  C31: An absolute symbolic link is accepted and made relative, and from the directory that
  holds the link the new target leads to the same place, counted from the image's root.
\<close>

theorem fix_link_target_absolute:
  assumes "plain_comps (ds @ [f])" "plain_comps ts"
    and "m_type m = M_Symlink" "m_name m = join [slash] (ds @ [f])" "m_linkname m = slash # join [slash] ts"
  shows "\<exists>m'. fix_link_target m = Inr (m', 1) \<and> \<not> is_abs (m_linkname m')
    \<and> normpath (floordiv (path_parent (m_name m)) (m_linkname m'))
      = (if ts = [] then ''.'' else join [slash] ts)"
proof -
  let ?n = "render False (ds @ [f]) False" and ?t = "render True ts False"
  let ?new = "render False (replicate (length ds) ''..'' @ dot_or ts) False"
  have ok: "comps_ok (ds @ [f])" "comps_ok ts" using assms(1,2) by (simp_all add: plain_comps_def)
  obtain c cs where dsf: "ds @ [f] = c # cs" "c \<noteq> ''.''" using assms(1) by (cases ds) (auto simp: plain_comps_def)
  have take_hd: "take (length (ds @ [f]) - length ds) (ds @ [f]) = [c]" unfolding dsf(1) using dsf(1) [symmetric] by (cases ds) auto
  have n: "m_name m = ?n" "m_linkname m = ?t" using assms(4,5) by (simp_all add: render_def)
  have src: "Path [?n] = ?n"
    using tidy_render_plain_hd [of c cs False] dsf ok(1) by (simp add: Path_single)
  have tgt: "Path [?t] = ?t" using tidy_render [OF ok(2), of True False] by (simp add: Path_single)
  have "?n \<noteq> ''.''" using render_eq_dot [OF ok(1), of False False] dsf by auto
  then have parts: "path_parts ?n = ds @ [f]" using path_parts_render [OF ok(1), of False False] by simp
  have "path_parts ?t = [slash] # ts"
    using path_parts_render [OF ok(2), of True False] render_eq_dot [OF ok(2), of True False] by simp
  then have new: "floordiv (Path (replicate (length (path_parts ?n) - 1) ''..'')) (Path (drop 1 (path_parts ?t))) = ?new"
    using link_target_form [OF assms(2), of "length ds"] by (simp add: parts)
  have abs: "is_absolute ?t = Inr True" by (simp add: is_absolute_def render_def)
  have "normpath (floordiv ?n ?new) = join [slash] (c # ts)"
    using normpath_join_link [OF assms(1,2), of "length ds", unfolded take_hd] by simp
  moreover have "comps_ok (c # ts)" using ok dsf by simp
  moreover have "split_on slash (join [slash] (c # ts)) = c # ts"
    using \<open>comps_ok (c # ts)\<close> by (intro split_on_join) (auto simp: comps_ok_def)
  moreover have "''..'' \<notin> set (c # ts)"
    using assms(1,2) dsf by (auto simp: plain_comps_def list_all_iff)
  ultimately have g: "''..'' \<notin> set (split_on slash (normpath (floordiv ?n ?new)))" by simp
  have fx: "fix_link_target m = Inr (m\<lparr>m_linkname := ?new\<rparr>, 1)"
    using assms(3) g abs new by (simp add: fix_link_target_def Let_def n src tgt render_eq_Nil [OF ok(2)])
  have "comps_ok (replicate (length ds) ''..'' @ dot_or ts)" using ok by simp
  then have nabs: "\<not> is_abs ?new" by (simp add: is_abs_render)
  have "normpath (floordiv (path_parent ?n) ?new) = (if ts = [] then ''.'' else join [slash] ts)"
  proof (cases "ds = []")
    case True
    have "hd (dot_or ts) \<noteq> ''.'' \<or> dot_or ts = [''.'']"
      using assms(2) by (cases ts) (auto simp: dot_or_def plain_comps_def)
    then have "floordiv (path_parent ?n) ?new = render False (dot_or ts) False"
      using path_parent_plain [OF assms(1)] floordiv_dot [of "dot_or ts"] ok(2) True by simp
    then show ?thesis
      using normpath_render_rel [of "dot_or ts" ts] normpath_comps_dot_or [OF assms(2)] ok(2) by simp
  next
    case False
    have "path_parent ?n = render False ds False" using path_parent_plain [OF assms(1)] False by simp
    then show ?thesis
      using normpath_join_link [of ds ts "length ds"] assms(1,2) False by (simp add: plain_comps_def Let_def)
  qed
  with fx nabs n show ?thesis by auto
qed

lemma fix_link_target_absolute_witness:
  "\<exists>m'. fix_link_target \<lparr>m_name = ''usr/lib/x'', m_type = M_Symlink, m_mode = 0, m_uid = 0, m_gid = 0,
       m_uname = [], m_gname = [], m_linkname = ''/etc/x''\<rparr> = Inr (m', 1)
     \<and> normpath (floordiv (path_parent ''usr/lib/x'') (m_linkname m')) = ''etc/x''"
  using fix_link_target_absolute [of "[''usr'', ''lib'']" "''x''" "[''etc'', ''x'']"
    "\<lparr>m_name = ''usr/lib/x'', m_type = M_Symlink, m_mode = 0, m_uid = 0, m_gid = 0,
       m_uname = [], m_gname = [], m_linkname = ''/etc/x''\<rparr>"]
  by (auto simp: plain_comps_def)

text \<open>
  The check that a link stays inside the image joins the target to the path of the link
  itself, so a relative symbolic link may climb one level too far: a link at the root of
  the image to \<open>..\<close> and a file passes, although it names that file beside the image.
\<close>

lemma fix_link_target_escape:
  "fix_link_target \<lparr>m_name = ''x'', m_type = M_Symlink, m_mode = 0, m_uid = 0, m_gid = 0,
       m_uname = [], m_gname = [], m_linkname = ''../etc''\<rparr>
   = Inr (\<lparr>m_name = ''x'', m_type = M_Symlink, m_mode = 0, m_uid = 0, m_gid = 0,
       m_uname = [], m_gname = [], m_linkname = ''../etc''\<rparr>, 0)
   \<and> normpath (floordiv (path_parent ''x'') ''../etc'') = ''../etc''"
  by code_simp

section \<open>Opening layers\<close>

text \<open>
  What \<open>layers_open\<close> returns: each hash once, in the order of first occurrence among the
  non-empty layers, and with the members of the last tarball of that name.
\<close>

lemma layers_open_from_ok:
  assumes "layers_open_from open_tar paths ls n = Inr (ls', n')" "dict_ok ls"
  shows "dict_ok ls' \<and> n' = n + length (filter (\<lambda>p. open_tar p = Some []) paths)
    \<and> (\<forall>lh. map_of ls' lh =
         (case filter (\<lambda>p. layer_hash p = lh \<and> open_tar p \<noteq> Some []) paths of
            [] \<Rightarrow> map_of ls lh | ps \<Rightarrow> open_tar (last ps)))"
  using assms
proof (induction paths arbitrary: ls n)
  case (Cons path paths)
  obtain ms where ms: "open_tar path = Some ms"
    using Cons.prems by (cases "open_tar path") auto
  show ?case
  proof (cases "ms = []")
    case True
    with Cons.prems ms have "layers_open_from open_tar paths ls (Suc n) = Inr (ls', n')" by simp
    from Cons.IH [OF this Cons.prems(2)] True ms show ?thesis by simp
  next
    case False
    with Cons.prems ms have r: "layers_open_from open_tar paths (AList.update (layer_hash path) ms ls) n = Inr (ls', n')"
      by simp
    have "dict_ok (AList.update (layer_hash path) ms ls)" using Cons.prems by simp
    from Cons.IH [OF r this] False ms show ?thesis
      by (auto simp: dict_simps split: list.splits)
  qed
qed simp

end
