(* ===== verification/Registry.thy ===== *)
theory Registry
  imports References Json
begin

text \<open>
  The registry client, \<open>lib/registry.py\<close>: authorization objects and their escalation,
  credentials, and the requests of class \<open>HTTP\<close>. The HTTP library and the server are one
  argument: a function from the list of all requests sent so far to the response to the
  last one (\<open>None\<close> when the library raises), so a server may remember and change its mind.
\<close>

section \<open>Constants\<close>

definition types_manifest :: "(string, string) dict" where
  "types_manifest =
     [(''docker2'', ''application/vnd.docker.distribution.manifest.v2+json''),
      (''oci1'', ''application/vnd.oci.image.manifest.v1+json'')]"

definition types_index :: "(string, string) dict" where
  "types_index =
     [(''docker2'', ''application/vnd.docker.distribution.manifest.list.v2+json''),
      (''oci1'', ''application/vnd.oci.image.index.v1+json'')]"

definition type_config :: string where
  "type_config = ''application/vnd.docker.container.image.v1+json''"

definition type_layer :: string where
  "type_layer = ''application/vnd.docker.image.rootfs.diff.tar.gzip''"

section \<open>Authorization objects\<close>

datatype auth =
    Auth_None
  | Auth_Basic string string                              \<comment> \<open>user name, password\<close>
  | Auth_Bearer_IDed string "(string, string) dict"       \<comment> \<open>token, challenge\<close>
  | Auth_Bearer_Anon string "(string, string) dict"

datatype auth_class = C_Basic | C_Bearer_Anon | C_Bearer_IDed

fun class_scheme :: "auth_class \<Rightarrow> string" where
  "class_scheme C_Basic = ''Basic''"
| "class_scheme C_Bearer_Anon = ''Bearer''"
| "class_scheme C_Bearer_IDed = ''Bearer''"

fun class_auth_p :: "auth_class \<Rightarrow> bool" where
  "class_auth_p C_Basic = True"
| "class_auth_p C_Bearer_Anon = False"
| "class_auth_p C_Bearer_IDed = True"

fun anon_p :: "auth \<Rightarrow> bool" where
  "anon_p Auth_None = True"
| "anon_p (Auth_Basic u p) = False"
| "anon_p (Auth_Bearer_IDed t d) = False"
| "anon_p (Auth_Bearer_Anon t d) = True"

fun escalators :: "auth \<Rightarrow> auth_class list" where
  "escalators Auth_None = [C_Basic, C_Bearer_Anon, C_Bearer_IDed]"
| "escalators (Auth_Basic u p) = []"
| "escalators (Auth_Bearer_IDed t d) = [C_Bearer_IDed]"
| "escalators (Auth_Bearer_Anon t d) = [C_Bearer_IDed]"

text \<open>\<open>__eq__\<close>: the same class, and the same credentials or the same challenge.\<close>

fun auth_eq :: "auth \<Rightarrow> auth \<Rightarrow> bool" where
  "auth_eq Auth_None Auth_None = True"
| "auth_eq (Auth_Basic u p) (Auth_Basic u' p') = (u = u' \<and> p = p')"
| "auth_eq (Auth_Bearer_IDed t d) (Auth_Bearer_IDed t' d') = (set d = set d')"
| "auth_eq (Auth_Bearer_Anon t d) (Auth_Bearer_Anon t' d') = (set d = set d')"
| "auth_eq _ _ = False"

section \<open>Challenges\<close>

text \<open>
  \<open>urllib.request.parse_http_list\<close> and \<open>parse_keqv_list\<close>: items separated by commas
  outside double quotes, each a key and a value with its quotes removed.
\<close>

fun http_list :: "string \<Rightarrow> bool \<Rightarrow> bool \<Rightarrow> string \<Rightarrow> string list" where
  "http_list part quoted escaped [] = (if part = [] then [] else [part])"
| "http_list part quoted escaped (c # s) =
     (if escaped then http_list (part @ [c]) quoted False s
      else if quoted then
        (if c = backslash then http_list part quoted True s
         else http_list (part @ [c]) (c \<noteq> dquote) False s)
      else if c = CHR '','' then part # http_list [] False False s
      else http_list (part @ [c]) (c = dquote) False s)"

definition parse_http_list :: "string \<Rightarrow> string list" where
  "parse_http_list s = map strip_ws (http_list [] False False s)"

definition parse_keqv :: "string \<Rightarrow> (string \<times> string) res" where
  "parse_keqv s =
     (case split1 CHR ''='' s of
        [k, v] \<Rightarrow>
          if v = [] then Inl Index_Error
          else if hd v = dquote \<and> last v = dquote then Inr (k, butlast (tl v)) else Inr (k, v)
      | _ \<Rightarrow> Inl Value_Error)"

definition parse_keqv_list :: "string list \<Rightarrow> (string, string) dict res" where
  "parse_keqv_list xs =
     bindr (mapr parse_keqv xs) (\<lambda>kvs. Inr (fold (\<lambda>(k, v). AList.update k v) kvs []))"

text \<open>\<open>auth_h.split(maxsplit=1)\<close>, unpacked into two values\<close>

definition challenge_split :: "string \<Rightarrow> (string \<times> string) res" where
  "challenge_split h =
     (let h = dropWhile is_space h;
          scheme = takeWhile (\<lambda>c. \<not> is_space c) h;
          rest = dropWhile is_space (drop (length scheme) h)
      in if rest = [] then Inl Value_Error else Inr (scheme, rest))"

definition challenge_parse :: "string \<Rightarrow> (string \<times> (string, string) dict) res" where
  "challenge_parse h =
     bindr (challenge_split h) (\<lambda>(scheme, rest).
     bindr (parse_keqv_list (parse_http_list rest)) (\<lambda>d. Inr (scheme, d)))"

section \<open>Requests and sessions\<close>

record http_req =
  q_method :: string
  q_url :: string
  q_auth :: auth
  q_params :: "(string, string) dict"
  q_data :: "string option"

record response =
  rs_status :: nat
  rs_headers :: "(string, string) dict"
  rs_chunks :: "string list"
  rs_json :: json

record credentials =
  cr_username :: "string option"
  cr_password :: "string option"

text \<open>
  The state of an \<open>HTTP\<close> object, with the requests it has sent; \<open>h_asked\<close> counts how
  often credentials were asked for.
\<close>

record session =
  h_ref :: reference
  h_auth :: auth
  h_creds :: credentials
  h_open :: bool
  h_reqs :: "http_req list"
  h_asked :: nat

text \<open>
  What a session finds around it: the server, the environment, the user's answer to the
  prompt (\<open>None\<close> if interrupted), and the global settings.
\<close>

record world =
  w_server :: "http_req list \<Rightarrow> response option"
  w_env :: environ
  w_prompt :: "(string \<times> string) option"
  w_password_many :: bool
  w_auth_p :: bool
  w_sha :: "string \<Rightarrow> string"

definition http_init :: "environ \<Rightarrow> reference \<Rightarrow> session res" where
  "http_init env ref =
     bindr (canonical env ref) (\<lambda>c.
       Inr \<lparr>h_ref = c, h_auth = Auth_None,
            h_creds = \<lparr>cr_username = None, cr_password = None\<rparr>,
            h_open = False, h_reqs = [], h_asked = 0\<rparr>)"

definition creds_lookup :: "world \<Rightarrow> credentials \<Rightarrow> (string \<times> string) res" where
  "creds_lookup w c =
     (case (cr_username c, cr_password c) of
        (Some u, Some p) \<Rightarrow> Inr (u, p)
      | (Some u, None) \<Rightarrow> Inl Type_Error
      | (None, _) \<Rightarrow>
          (case (map_of (w_env w) ''CH_IMAGE_USERNAME'', map_of (w_env w) ''CH_IMAGE_PASSWORD'') of
             (Some u, Some p) \<Rightarrow> Inr (u, p)
           | _ \<Rightarrow> of_opt (Fatal ''authentication cancelled'') (w_prompt w)))"

definition creds_get :: "world \<Rightarrow> session \<Rightarrow> ((string \<times> string) \<times> session) res" where
  "creds_get w st =
     bindr (creds_lookup w (h_creds st)) (\<lambda>(u, p).
       let c = (if cr_username (h_creds st) = None \<and> \<not> w_password_many w
                then \<lparr>cr_username = Some u, cr_password = Some p\<rparr> else h_creds st)
       in Inr ((u, p), st\<lparr>h_creds := c, h_asked := Suc (h_asked st)\<rparr>))"

definition session_init_maybe :: "session \<Rightarrow> session" where
  "session_init_maybe st = (if h_open st then st else st\<lparr>h_open := True\<rparr>)"

definition http_close :: "session \<Rightarrow> session" where
  "http_close st = st\<lparr>h_open := False\<rparr>"

definition request_raw :: "world \<Rightarrow> string \<Rightarrow> string \<Rightarrow> nat list \<Rightarrow> auth option \<Rightarrow>
    (string, string) dict \<Rightarrow> string option \<Rightarrow> session \<Rightarrow> (response \<times> session) res" where
  "request_raw w meth url statuses auth params data st =
     (let q = \<lparr>q_method = meth, q_url = url,
               q_auth = (case auth of None \<Rightarrow> h_auth st | Some a \<Rightarrow> a),
               q_params = params, q_data = data\<rparr>;
          st = st\<lparr>h_reqs := h_reqs st @ [q]\<rparr> in
      bindr (of_opt (Fatal ''%s failed: %s'') (w_server w (h_reqs st))) (\<lambda>res.
      if rs_status res \<in> set statuses then Inr (res, st)
      else Inl (Fatal ''%s failed; expected status %s but got %d: %s'')))"

section \<open>Escalation\<close>

definition bearer_params :: "(string, string) dict \<Rightarrow> (string, string) dict" where
  "bearer_params d = filter (\<lambda>(k, v). k \<noteq> ''realm'') d"

text \<open>\<open>authenticate\<close> of the bearer classes; \<open>ided\<close> tells them apart.\<close>

definition bearer_authenticate :: "world \<Rightarrow> bool \<Rightarrow> (string, string) dict \<Rightarrow> session \<Rightarrow> (auth option \<times> session) res" where
  "bearer_authenticate w ided d st =
     (case map_of d ''realm'' of
        None \<Rightarrow> Inl (Fatal ''WWW-Authenticate missing key: %s'')
      | Some realm \<Rightarrow>
          bindr (if ided then bindr (creds_get w st) (\<lambda>((u, p), st). Inr (Some (Auth_Basic u p), st))
                 else Inr (None, st)) (\<lambda>(auth, st).
          bindr (request_raw w ''GET'' realm [200, 401, 403] auth (bearer_params d) None st) (\<lambda>(res, st).
          if rs_status res \<noteq> 200 then Inr (None, st)
          else bindr (json_key (rs_json res) ''token'') (\<lambda>t.
               case t of
                 Str token \<Rightarrow>
                   Inr (Some (if ided then Auth_Bearer_IDed token d else Auth_Bearer_Anon token d), st)
               | _ \<Rightarrow> Inl Type_Error))))"

definition basic_authenticate :: "world \<Rightarrow> (string, string) dict \<Rightarrow> session \<Rightarrow> (auth option \<times> session) res" where
  "basic_authenticate w d st =
     (case map_of d ''realm'' of
        None \<Rightarrow> Inl (Fatal ''WWW-Authenticate missing realm'')
      | Some realm \<Rightarrow> bindr (creds_get w st) (\<lambda>((u, p), st). Inr (Some (Auth_Basic u p), st)))"

fun authenticate :: "world \<Rightarrow> auth_class \<Rightarrow> (string, string) dict \<Rightarrow> session \<Rightarrow> (auth option \<times> session) res" where
  "authenticate w C_Basic d st = basic_authenticate w d st"
| "authenticate w C_Bearer_Anon d st = bearer_authenticate w False d st"
| "authenticate w C_Bearer_IDed d st = bearer_authenticate w True d st"

fun try_classes :: "world \<Rightarrow> auth \<Rightarrow> string \<Rightarrow> (string, string) dict \<Rightarrow> auth_class list \<Rightarrow> session \<Rightarrow>
    (auth option \<times> session) res" where
  "try_classes w self scheme d [] st = Inr (None, st)"
| "try_classes w self scheme d (c # cs) st =
     (if class_scheme c \<noteq> scheme \<or> class_auth_p c \<noteq> w_auth_p w then try_classes w self scheme d cs st
      else bindr (authenticate w c d st) (\<lambda>(a, st).
        case a of
          None \<Rightarrow> try_classes w self scheme d cs st
        | Some b \<Rightarrow> if auth_eq b self then try_classes w self scheme d cs st else Inr (Some b, st)))"

text \<open>
  \<open>Auth.escalate\<close>. Nothing ever sets the attribute \<open>auth_h_next\<close>, so reading it when the
  response has no challenge raises instead of giving the intended message.
\<close>

definition auth_escalate :: "world \<Rightarrow> response \<Rightarrow> session \<Rightarrow> (auth option \<times> session) res" where
  "auth_escalate w res st =
     bindr (guard (rs_status res = 401) Assertion_Error) (\<lambda>_.
     bindr (of_opt Attribute_Error (map_of (rs_headers res) ''www-authenticate'')) (\<lambda>h.
     bindr (challenge_parse h) (\<lambda>(scheme, d).
     bindr (guard (escalators (h_auth st) \<noteq> [])
              (Fatal ''no further authentication possible, giving up'')) (\<lambda>_.
       try_classes w (h_auth st) scheme d (escalators (h_auth st)) st))))"

definition escalate :: "world \<Rightarrow> response \<Rightarrow> session \<Rightarrow> (bool \<times> session) res" where
  "escalate w res st =
     bindr (auth_escalate w res st) (\<lambda>(a, st).
       case a of None \<Rightarrow> Inr (False, st) | Some b \<Rightarrow> Inr (True, st\<lparr>h_auth := b\<rparr>))"

section \<open>Requests\<close>

text \<open>
  A request that may go on forever is an option: \<open>None\<close> means that it does not return.
\<close>

definition bindo :: "('e + 'a) option \<Rightarrow> ('a \<Rightarrow> ('e + 'b) option) \<Rightarrow> ('e + 'b) option" where
  "bindo m f = (case m of None \<Rightarrow> None | Some (Inl e) \<Rightarrow> Some (Inl e) | Some (Inr x) \<Rightarrow> f x)"

text \<open>The loop of \<open>request\<close>.\<close>

partial_function (option) request_loop :: "world \<Rightarrow> string \<Rightarrow> string \<Rightarrow> nat list \<Rightarrow>
    (string, string) dict \<Rightarrow> string option \<Rightarrow> session \<Rightarrow> (response \<times> session) res option" where
  "request_loop w meth url statuses params data st =
     (case request_raw w meth url (401 # statuses) None params data st of
        Inl e \<Rightarrow> Some (Inl e)
      | Inr (res, st) \<Rightarrow>
          if rs_status res \<noteq> 401 then Some (Inr (res, st))
          else (case escalate w res st of
                  Inl e \<Rightarrow> Some (Inl e)
                | Inr (ok, st) \<Rightarrow>
                    if ok then request_loop w meth url statuses params data st
                    else if 401 \<in> set statuses then Some (Inr (res, st))
                    else Some (Inl (Fatal ''unhandled authentication failure''))))"

text \<open>
  Streaming: the length announced sets up the progress meter, which divides by it; the
  digest of what was received is compared with the one expected.
\<close>

definition stream_body :: "world \<Rightarrow> bool \<Rightarrow> string option \<Rightarrow> response \<Rightarrow> string option res" where
  "stream_body w out digest res =
     (if \<not> out \<or> rs_status res \<noteq> 200 then Inr None
      else bindr (case map_of (rs_headers res) ''content-length'' of
                    None \<Rightarrow> Inr None
                  | Some l \<Rightarrow> (case py_int l of
                                None \<Rightarrow> Inl (Fatal ''invalid Content-Length in response'')
                              | Some n \<Rightarrow> Inr (Some n))) (\<lambda>len.
           bindr (guard (len \<noteq> Some 0) Zero_Division_Error) (\<lambda>_.
           let body = concat (rs_chunks res) in
           case digest of
             None \<Rightarrow> Inr (Some body)
           | Some d \<Rightarrow> if d \<noteq> w_sha w body
                      then Inl (Fatal ''registry streamed response content is invalid'')
                      else Inr (Some body))))"

definition request :: "world \<Rightarrow> string \<Rightarrow> string \<Rightarrow> nat list \<Rightarrow> bool \<Rightarrow> string option \<Rightarrow>
    (string, string) dict \<Rightarrow> string option \<Rightarrow> session \<Rightarrow> (response \<times> string option \<times> session) res option" where
  "request w meth url statuses out digest params data st =
     bindo (Some (guard (out \<or> digest = None) Assertion_Error)) (\<lambda>_.
     bindo (request_loop w meth url statuses params data (session_init_maybe st)) (\<lambda>(res, st).
     bindo (Some (stream_body w out digest res)) (\<lambda>body. Some (Inr (res, body, st)))))"

section \<open>URLs\<close>

definition url_base :: "session \<Rightarrow> string res" where
  "url_base st =
     (case (r_host (h_ref st), r_port (h_ref st)) of
        (Some h, Some p) \<Rightarrow> Inr (''https://'' @ h @ '':'' @ str_of_int p @ ''/v2/'')
      | _ \<Rightarrow> Inl Type_Error)"

definition url_of :: "session \<Rightarrow> string \<Rightarrow> string \<Rightarrow> string res" where
  "url_of st ty address =
     bindr (url_base st) (\<lambda>b.
     bindr (path_full (h_ref st)) (\<lambda>p. Inr (b @ join ''/'' [p, ty, address])))"

section \<open>Blobs and manifests\<close>

definition blob_exists_p :: "world \<Rightarrow> string \<Rightarrow> session \<Rightarrow> (bool \<times> session) res option" where
  "blob_exists_p w digest st =
     bindo (Some (url_of st ''blobs'' (''sha256:'' @ digest))) (\<lambda>url.
     bindo (request w ''HEAD'' url [200, 401, 404] False None [] None st) (\<lambda>(res, _, st).
       Some (Inr (rs_status res = 200, st))))"

definition blob_to_file :: "world \<Rightarrow> string \<Rightarrow> session \<Rightarrow> (string option \<times> session) res option" where
  \<comment> \<open>what is put at the path, if anything\<close>
  "blob_to_file w digest st =
     bindo (Some (url_of st ''blobs'' (''sha256:'' @ digest))) (\<lambda>url.
     bindo (request w ''GET'' url [200] True (Some digest) [] None st) (\<lambda>(res, body, st).
       Some (Inr (body, st))))"

definition blob_upload :: "world \<Rightarrow> string \<Rightarrow> string \<Rightarrow> session \<Rightarrow> session res option" where
  "blob_upload w digest data st =
     bindo (blob_exists_p w digest st) (\<lambda>(exists, st).
     if exists then Some (Inr st)
     else bindo (Some (url_of st ''blobs'' ''uploads/'')) (\<lambda>url.
       bindo (request w ''POST'' url [202] False None [] None st) (\<lambda>(res, _, st).
       bindo (Some (of_opt Key_Error (map_of (rs_headers res) ''location''))) (\<lambda>url.
       bindo (request w ''PUT'' url [201] False None [(''digest'', ''sha256:'' @ digest)] (Some data) st)
         (\<lambda>(res, _, st).
       bindo (blob_exists_p w digest st) (\<lambda>(exists, st).
         if exists then Some (Inr st)
         else Some (Inl (Fatal ''blob just uploaded does not exist: %s''))))))))"

definition config_upload :: "world \<Rightarrow> string \<Rightarrow> session \<Rightarrow> session res option" where
  "config_upload w config st = blob_upload w (w_sha w config) config st"

definition layer_from_file :: "world \<Rightarrow> string \<Rightarrow> string \<Rightarrow> session \<Rightarrow> session res option" where
  "layer_from_file w digest data st = blob_upload w digest data st"

definition fatman_to_file :: "world \<Rightarrow> session \<Rightarrow> (string option \<times> session) res option" where
  "fatman_to_file w st =
     bindo (Some (bindr (ref_version (h_ref st)) (url_of st ''manifests''))) (\<lambda>url.
     bindo (request w ''GET'' url [200, 401, 404, 429] True None [] None st) (\<lambda>(res, body, st).
     if rs_status res = 429 then Some (Inl (Fatal ''registry rate limit exceeded (HTTP 429)''))
     else if rs_status res \<noteq> 200 then Some (Inl Image_Unavailable_Error)
     else Some (Inr (body, st))))"

definition manifest_to_file :: "world \<Rightarrow> string option \<Rightarrow> session \<Rightarrow> (string option \<times> session) res option" where
  "manifest_to_file w digest st =
     bindo (Some (bindr (case digest of None \<Rightarrow> ref_version (h_ref st) | Some d \<Rightarrow> Inr (''sha256:'' @ d))
                    (url_of st ''manifests''))) (\<lambda>url.
     bindo (request w ''GET'' url [200, 401, 404] True None [] None st) (\<lambda>(res, body, st).
     if rs_status res \<noteq> 200 then Some (Inl Image_Unavailable_Error) else Some (Inr (body, st))))"

definition manifest_upload :: "world \<Rightarrow> string \<Rightarrow> session \<Rightarrow> session res option" where
  "manifest_upload w manifest st =
     bindo (Some (bindr (of_opt Type_Error (r_tag (h_ref st))) (url_of st ''manifests''))) (\<lambda>url.
     bindo (request w ''PUT'' url [201] False None [] (Some manifest) st) (\<lambda>(res, _, st). Some (Inr st)))"

section \<open>Rate limits\<close>

text \<open>
  The rate-limit part of \<open>headers_log\<close>: pulls allowed, period in seconds, pulls left and
  the reason, as far as the headers give them. (The code shows the period in hours.)
\<close>

definition rate_limit_re :: re where \<comment> \<open>\<open>r"^(\d+);w=(\d+)$"\<close>\<close>
  "rate_limit_re = Seqs [Bol, Grp 1 (Many1 (Cls is_digit)), Lit '';w='', Grp 2 (Many1 (Cls is_digit)), Eol]"

definition rate_left_re :: re where \<comment> \<open>\<open>r"^(\d+);"\<close>\<close>
  "rate_left_re = Seqs [Bol, Grp 1 (Many1 (Cls is_digit)), Lit '';'']"

definition rate_ip_re :: re where \<comment> \<open>\<open>r"^[0-9.a-f:]+$"\<close>\<close>
  "rate_ip_re = Seqs [Bol, Many1 (Cls (\<lambda>c. is_digit c \<or> in_range CHR ''a'' CHR ''f'' c \<or> c \<in> set ''.:'')), Eol]"

definition rate_uuid_re :: re where \<comment> \<open>\<open>r"^[0-9A-Fa-f-]+$"\<close>\<close>
  "rate_uuid_re = Seqs [Bol, Many1 (Cls (\<lambda>c. is_hex c \<or> c = CHR ''-'')), Eol]"

definition rate_limit :: "(string, string) dict \<Rightarrow> (string \<times> int) option \<times> string option \<times> string option" where
  "rate_limit hs =
     ((case map_of hs ''ratelimit-limit'' of
         None \<Rightarrow> None
       | Some h \<Rightarrow> (case re_search rate_limit_re h of
                     None \<Rightarrow> None
                   | Some m \<Rightarrow> Some (re_group h m 1, int (nat_of_digits (re_group h m 2))))),
      (case map_of hs ''ratelimit-remaining'' of
         None \<Rightarrow> None
       | Some h \<Rightarrow> map_option (\<lambda>m. re_group h m 1) (re_search rate_left_re h)),
      (case map_of hs ''docker-ratelimit-source'' of
         None \<Rightarrow> None
       | Some h \<Rightarrow> (case re_search rate_ip_re h of
                     Some m \<Rightarrow> Some (re_group h m 0)
                   | None \<Rightarrow> if search_p rate_uuid_re h then Some ''auth'' else None)))"

section \<open>Anonymous mode\<close>

lemma request_raw_step:
  assumes "request_raw w meth url sts None params data st = Inr (res, st')"
  shows "rs_status res \<in> set sts \<and> h_auth st' = h_auth st \<and> h_asked st' = h_asked st \<and> h_creds st' = h_creds st
    \<and> (\<exists>q. h_reqs st' = h_reqs st @ [q] \<and> q_auth q = h_auth st)"
  using assms by (auto simp: request_raw_def Let_def res_simps split: if_splits)

lemma bearer_authenticate_anon:
  assumes "bearer_authenticate w False d st = Inr (a, st')"
  shows "h_asked st' = h_asked st \<and> h_creds st' = h_creds st \<and> h_auth st' = h_auth st
    \<and> (\<exists>q. h_reqs st' = h_reqs st @ [q] \<and> q_auth q = h_auth st)
    \<and> (case a of None \<Rightarrow> True | Some b \<Rightarrow> \<exists>t. b = Auth_Bearer_Anon t d)"
proof -
  from assms obtain realm where realm: "map_of d ''realm'' = Some realm"
    by (cases "map_of d ''realm''") (auto simp: bearer_authenticate_def)
  with assms obtain res st1 where raw: "request_raw w ''GET'' realm [200, 401, 403] None (bearer_params d) None st = Inr (res, st1)"
    and rest: "(if rs_status res \<noteq> 200 then Inr (None, st1)
          else bindr (json_key (rs_json res) ''token'') (\<lambda>t. case t of
                 Str token \<Rightarrow> Inr (Some (if False then Auth_Bearer_IDed token d else Auth_Bearer_Anon token d), st1) | _ \<Rightarrow> Inl Type_Error)) = Inr (a, st')"
    by (auto simp: bearer_authenticate_def res_simps)
  have "st' = st1 \<and> (case a of None \<Rightarrow> True | Some b \<Rightarrow> \<exists>t. b = Auth_Bearer_Anon t d)"
  proof (cases "rs_status res = 200")
    case True
    with rest obtain j where j: "(case j of
                 Str token \<Rightarrow> Inr (Some (Auth_Bearer_Anon token d), st1)
               | _ \<Rightarrow> Inl Type_Error) = Inr (a, st')" by (auto simp: res_simps)
    then show ?thesis by (cases j) auto
  qed (use rest in auto)
  with request_raw_step [OF raw] show ?thesis by auto
qed

lemma try_classes_anon:
  assumes "\<not> w_auth_p w" "try_classes w self scheme d (escalators self) st = Inr (a, st')" "anon_p self" "h_auth st = self"
  shows "h_asked st' = h_asked st \<and> h_creds st' = h_creds st \<and> h_auth st' = self
    \<and> (\<exists>qs. h_reqs st' = h_reqs st @ qs \<and> length qs \<le> 1 \<and> (\<forall>q \<in> set qs. anon_p (q_auth q)))
    \<and> (case a of None \<Rightarrow> True | Some b \<Rightarrow> self = Auth_None \<and> (\<exists>t. b = Auth_Bearer_Anon t d))"
proof (cases self)
  case Auth_None
  show ?thesis
  proof (cases "scheme = ''Bearer''")
    case True
    show ?thesis
    proof (cases "bearer_authenticate w False d st")
      case (Inl e)
      then show ?thesis using True assms Auth_None by simp
    next
      case (Inr x)
      obtain b st1 where x: "x = (b, st1)" by (cases x)
      note b = bearer_authenticate_anon [OF Inr [unfolded x]]
      have "a = b \<and> st' = st1"
        using True assms(1,2) Auth_None Inr x b by (cases b) auto
      with b assms(3,4) Auth_None show ?thesis by (auto split: option.splits)
    qed
  qed (use assms Auth_None in \<open>auto split: if_splits\<close>)
qed (use assms in auto)

lemma escalate_anon:
  assumes "\<not> w_auth_p w" "escalate w res st = Inr (ok, st')" "anon_p (h_auth st)"
  shows "anon_p (h_auth st') \<and> h_asked st' = h_asked st \<and> h_creds st' = h_creds st
    \<and> (\<exists>qs. h_reqs st' = h_reqs st @ qs \<and> length qs \<le> 1 \<and> (\<forall>q \<in> set qs. anon_p (q_auth q)))
    \<and> (ok \<longrightarrow> h_auth st = Auth_None \<and> h_auth st' \<noteq> Auth_None)
    \<and> (h_auth st \<noteq> Auth_None \<longrightarrow> h_reqs st' = h_reqs st)"
proof -
  from assms(2) obtain a st1 scheme d where t: "try_classes w (h_auth st) scheme d (escalators (h_auth st)) st = Inr (a, st1)"
    and st': "(ok, st') = (case a of None \<Rightarrow> (False, st1) | Some b \<Rightarrow> (True, st1\<lparr>h_auth := b\<rparr>))"
    by (auto simp: escalate_def auth_escalate_def res_simps split: option.splits)
  note c = try_classes_anon [OF assms(1) t assms(3) refl]
  have "h_auth st \<noteq> Auth_None \<Longrightarrow> h_reqs st1 = h_reqs st"
    using t assms(1,3) by (cases "h_auth st") (auto split: if_splits)
  with c st' assms(3) show ?thesis by (auto split: option.splits)
qed

definition anon_trace :: "nat \<Rightarrow> session \<Rightarrow> session \<Rightarrow> bool" where
  "anon_trace n st st' \<longleftrightarrow> anon_p (h_auth st') \<and> h_asked st' = h_asked st \<and> h_creds st' = h_creds st
     \<and> (\<exists>qs. h_reqs st' = h_reqs st @ qs \<and> length qs \<le> n \<and> (\<forall>q \<in> set qs. anon_p (q_auth q)))"

lemma anon_trace_trans:
  "anon_trace n st st1 \<Longrightarrow> anon_trace k st1 st2 \<Longrightarrow> n + k \<le> l \<Longrightarrow> anon_trace l st st2"
  unfolding anon_trace_def by (elim conjE exE) (force simp: ball_Un)

lemma anon_trace_raw:
  "request_raw w meth url sts None params data st = Inr (res, st') \<Longrightarrow> anon_p (h_auth st) \<Longrightarrow> anon_trace 1 st st'"
  by (drule request_raw_step) (auto simp: anon_trace_def)

lemma anon_trace_mono: "anon_trace n st st' \<Longrightarrow> n \<le> k \<Longrightarrow> anon_trace k st st'"
  unfolding anon_trace_def by (elim conjE exE) (intro conjI exI; auto)

lemma request_loop_error:
  "request_raw w meth url (401 # sts) None params data st = Inl e \<Longrightarrow>
   request_loop w meth url sts params data st = Some (Inl e)"
  by (subst request_loop.simps) simp

lemma request_loop_done:
  "request_raw w meth url (401 # sts) None params data st = Inr (res, st1) \<Longrightarrow> rs_status res \<noteq> 401 \<Longrightarrow>
   request_loop w meth url sts params data st = Some (Inr (res, st1))"
  by (subst request_loop.simps) simp

lemma request_loop_401:
  assumes "request_raw w meth url (401 # sts) None params data st = Inr (res, st1)" "rs_status res = 401"
  shows "escalate w res st1 = Inl e \<Longrightarrow> request_loop w meth url sts params data st = Some (Inl e)"
    and "escalate w res st1 = Inr (False, st2) \<Longrightarrow> request_loop w meth url sts params data st =
      Some (if 401 \<in> set sts then Inr (res, st2) else Inl (Fatal ''unhandled authentication failure''))"
    and "escalate w res st1 = Inr (True, st2) \<Longrightarrow>
      request_loop w meth url sts params data st = request_loop w meth url sts params data st2"
  using assms by (subst request_loop.simps, simp)+

lemma request_loop_anon_bearer:
  assumes "\<not> w_auth_p w" "anon_p (h_auth st)" "h_auth st \<noteq> Auth_None"
  shows "\<exists>r. request_loop w meth url sts params data st = Some r
    \<and> (case r of Inl e \<Rightarrow> True | Inr (res, st') \<Rightarrow> anon_trace 1 st st')"
proof (cases "request_raw w meth url (401 # sts) None params data st")
  case (Inl e)
  then show ?thesis by (simp add: request_loop_error)
next
  case (Inr p)
  obtain res st1 where p: "p = (res, st1)" by (cases p)
  note raw = Inr [unfolded p]
  have t1: "anon_trace 1 st st1" using anon_trace_raw [OF raw assms(2)] .
  have auth: "h_auth st1 = h_auth st" using request_raw_step [OF raw] by simp
  show ?thesis
  proof (cases "rs_status res = 401")
    case True
    note l401 = request_loop_401 [OF raw True]
    show ?thesis
    proof (cases "escalate w res st1")
      case (Inl e)
      then show ?thesis by (simp add: l401(1))
    next
      case (Inr x)
      obtain ok st2 where x: "x = (ok, st2)" by (cases x)
      note e = escalate_anon [OF assms(1) Inr [unfolded x]]
      have ok: "\<not> ok" and t2: "anon_trace 0 st1 st2" using e assms auth by (auto simp: anon_trace_def)
      have "anon_trace 1 st st2" using anon_trace_trans [OF t1 t2, of 1] by simp
      then show ?thesis using l401(2) [of st2] Inr x ok by simp
    qed
  next
    case False
    then show ?thesis using request_loop_done [OF raw] t1 by simp
  qed
qed



section \<open>What a returned response satisfies\<close>

text \<open>Rule induction over the rounds of a loop that returns.\<close>

lemma request_loop_rule:
  assumes "request_loop w meth url sts params data st = Some y"
    and error: "\<And>st e. request_raw w meth url (401 # sts) None params data st = Inl e \<Longrightarrow> Q st (Inl e)"
    and good: "\<And>st res st1. request_raw w meth url (401 # sts) None params data st = Inr (res, st1) \<Longrightarrow>
      rs_status res \<noteq> 401 \<Longrightarrow> Q st (Inr (res, st1))"
    and esc: "\<And>st res st1 e. request_raw w meth url (401 # sts) None params data st = Inr (res, st1) \<Longrightarrow>
      rs_status res = 401 \<Longrightarrow> escalate w res st1 = Inl e \<Longrightarrow> Q st (Inl e)"
    and stop: "\<And>st res st1 st2. request_raw w meth url (401 # sts) None params data st = Inr (res, st1) \<Longrightarrow>
      rs_status res = 401 \<Longrightarrow> escalate w res st1 = Inr (False, st2) \<Longrightarrow>
      Q st (if 401 \<in> set sts then Inr (res, st2) else Inl (Fatal ''unhandled authentication failure''))"
    and again: "\<And>st res st1 st2 y. request_raw w meth url (401 # sts) None params data st = Inr (res, st1) \<Longrightarrow>
      rs_status res = 401 \<Longrightarrow> escalate w res st1 = Inr (True, st2) \<Longrightarrow> Q st2 y \<Longrightarrow> Q st y"
  shows "Q st y"
proof -
  let ?P = "\<lambda>w' meth' url' sts' params' data' st y.
    (w', meth', url', sts', params', data') = (w, meth, url, sts, params, data) \<longrightarrow> Q st y"
  have "?P w meth url sts params data st y"
  proof (rule request_loop.raw_induct [where P = ?P, OF _ assms(1)], intro impI)
    fix loop w' meth' url' sts' params' data' st y
    assume IH: "\<And>w' meth' url' sts' params' data' st y. loop w' meth' url' sts' params' data' st = Some y \<Longrightarrow>
        ?P w' meth' url' sts' params' data' st y"
      and eq: "(w', meth', url', sts', params', data') = (w, meth, url, sts, params, data)"
      and body: "(case request_raw w' meth' url' (401 # sts') None params' data' st of
        Inl e \<Rightarrow> Some (Inl e)
      | Inr (res, st) \<Rightarrow>
          if rs_status res \<noteq> 401 then Some (Inr (res, st))
          else (case escalate w' res st of
                  Inl e \<Rightarrow> Some (Inl e)
                | Inr (ok, st) \<Rightarrow>
                    if ok then loop w' meth' url' sts' params' data' st
                    else if 401 \<in> set sts' then Some (Inr (res, st))
                    else Some (Inl (Fatal ''unhandled authentication failure'')))) = Some y"
    show "Q st y"
    proof (cases "request_raw w meth url (401 # sts) None params data st")
      case (Inl e)
      with body eq error [OF Inl] show ?thesis by auto
    next
      case (Inr p)
      obtain res st1 where p: "p = (res, st1)" by (cases p)
      note raw = Inr [unfolded p]
      show ?thesis
      proof (cases "rs_status res = 401")
        case False
        with body eq raw good [OF raw False] show ?thesis by auto
      next
        case True
        show ?thesis
        proof (cases "escalate w res st1")
          case (Inl e)
          with body eq raw True esc [OF raw True Inl] show ?thesis by auto
        next
          case (Inr x)
          obtain ok st2 where x: "x = (ok, st2)" by (cases x)
          show ?thesis
          proof (cases ok)
            case True
            with body eq raw \<open>rs_status res = 401\<close> Inr x have "loop w meth url sts params data st2 = Some y" by simp
            from IH [OF this] again [OF raw \<open>rs_status res = 401\<close>] Inr x True show ?thesis by simp
          next
            case False
            with stop [OF raw \<open>rs_status res = 401\<close>] body eq raw \<open>rs_status res = 401\<close> Inr x
            show ?thesis by (simp split: if_splits)
          qed
        qed
      qed
    qed
  qed
  then show ?thesis by simp
qed

lemma request_loop_status:
  assumes "request_loop w meth url sts params data st = Some (Inr (res, st'))"
  shows "rs_status res \<in> set sts"
proof -
  have "case (Inr (res, st') :: (response \<times> session) res) of Inl e \<Rightarrow> True | Inr (r, s) \<Rightarrow> rs_status r \<in> set sts"
    using assms by (rule request_loop_rule) (auto dest: request_raw_step split: sum.splits)
  then show ?thesis by simp
qed

lemma bindo_Some_Inr:
  "bindo m f = Some (Inr y) \<longleftrightarrow> (\<exists>x. m = Some (Inr x) \<and> f x = Some (Inr y))"
  by (auto simp: bindo_def split: option.splits sum.splits)

text \<open>
  C6: A response that \<open>request\<close> returns has one of the statuses the caller accepts; a
  body is written exactly when streaming was asked for and the status is 200; and then,
  when a digest was given, the hash of the body is that digest.
\<close>

theorem request_sound:
  assumes "request w meth url sts out digest params data st = Some (Inr (res, body, st'))"
  shows "rs_status res \<in> set sts
    \<and> (body \<noteq> None \<longleftrightarrow> out \<and> rs_status res = 200)
    \<and> (case (body, digest) of (Some b, Some d) \<Rightarrow> w_sha w b = d | _ \<Rightarrow> True)"
proof -
  from assms obtain st1 where loop: "request_loop w meth url sts params data (session_init_maybe st) = Some (Inr (res, st1))"
    and body: "stream_body w out digest res = Inr body"
    by (auto simp: request_def bindo_Some_Inr)
  from body show ?thesis
    using request_loop_status [OF loop]
    by (auto simp: stream_body_def res_simps Let_def split: if_splits option.splits)
qed

lemma request_sound_witness:
  "\<exists>st'. request \<lparr>w_server = \<lambda>qs. Some \<lparr>rs_status = 200, rs_headers = [(''content-length'', ''2'')],
        rs_chunks = [''a'', ''b''], rs_json = Null\<rparr>, w_env = [], w_prompt = None, w_password_many = False,
        w_auth_p = False, w_sha = rev\<rparr> ''GET'' ''u'' [200] True (Some ''ba'') [] None
      \<lparr>h_ref = empty_reference [], h_auth = Auth_None, h_creds = \<lparr>cr_username = None, cr_password = None\<rparr>,
        h_open = False, h_reqs = [], h_asked = 0\<rparr>
     = Some (Inr (\<lparr>rs_status = 200, rs_headers = [(''content-length'', ''2'')], rs_chunks = [''a'', ''b''],
         rs_json = Null\<rparr>, Some ''ab'', st')) \<and> rev ''ab'' = ''ba''"
proof -
  let ?w = "\<lparr>w_server = \<lambda>qs. Some \<lparr>rs_status = 200, rs_headers = [(''content-length'', ''2'')],
        rs_chunks = [''a'', ''b''], rs_json = Null\<rparr>, w_env = [], w_prompt = None, w_password_many = False,
        w_auth_p = False, w_sha = rev\<rparr>"
  let ?st = "\<lparr>h_ref = empty_reference [], h_auth = Auth_None, h_creds = \<lparr>cr_username = None, cr_password = None\<rparr>,
        h_open = False, h_reqs = [], h_asked = 0\<rparr>"
  let ?res = "\<lparr>rs_status = 200, rs_headers = [(''content-length'', ''2'')], rs_chunks = [''a'', ''b''], rs_json = Null\<rparr>"
  have "py_int ''2'' = Some 2"
    using py_int_digits [of "''2''"] by (simp add: is_digit_def in_range_def nat_of_digits_def digit_val_def)
  then have "\<exists>st'. request ?w ''GET'' ''u'' [200] True (Some ''ba'') [] None ?st = Some (Inr (?res, Some ''ab'', st'))"
    by (subst request_def, subst request_loop.simps)
      (simp add: bindo_def request_raw_def session_init_maybe_def stream_body_def Let_def)
  then obtain st' where r: "request ?w ''GET'' ''u'' [200] True (Some ''ba'') [] None ?st = Some (Inr (?res, Some ''ab'', st'))" ..
  show ?thesis using request_sound [OF r] r by auto
qed

section \<open>A server that is never satisfied\<close>

text \<open>
  With credentials, escalation need not end: a server may accept every token request and
  answer every other request with a challenge different from the one before. Here two
  challenges alternate.
\<close>

definition fussy_server :: "http_req list \<Rightarrow> response option" where
  "fussy_server qs =
     Some (if q_url (last qs) = ''T''
           then \<lparr>rs_status = 200, rs_headers = [], rs_chunks = [], rs_json = Obj [(''token'', Str ''t'')]\<rparr>
           else \<lparr>rs_status = 401,
                 rs_headers = [(''www-authenticate'',
                    ''Bearer realm=T,n='' @ (if even (length qs div 2) then ''0'' else ''1''))],
                 rs_chunks = [], rs_json = Null\<rparr>)"

definition fussy_world :: world where
  "fussy_world = \<lparr>w_server = fussy_server,
     w_env = [(''CH_IMAGE_USERNAME'', ''u''), (''CH_IMAGE_PASSWORD'', ''p'')],
     w_prompt = None, w_password_many = True, w_auth_p = True, w_sha = id\<rparr>"

definition fussy_challenge :: "nat \<Rightarrow> (string, string) dict" where
  "fussy_challenge r = [(''realm'', ''T''), (''n'', if even r then ''0'' else ''1'')]"

definition fussy_state :: "session \<Rightarrow> bool" where
  "fussy_state st \<longleftrightarrow> (\<exists>r. length (h_reqs st) = 2 * r \<and> h_creds st = \<lparr>cr_username = None, cr_password = None\<rparr>
     \<and> (h_auth st = Auth_None \<or> (\<exists>t. h_auth st = Auth_Bearer_IDed t (fussy_challenge (Suc r)))))"

lemma fussy_challenge_parse:
  "challenge_parse (''Bearer realm=T,n='' @ (if even r then ''0'' else ''1'')) = Inr (''Bearer'', fussy_challenge r)"
proof (cases "even r")
  case True
  have "challenge_parse ''Bearer realm=T,n=0'' = Inr (''Bearer'', [(''realm'', ''T''), (''n'', ''0'')])" by code_simp
  with True show ?thesis by (simp add: fussy_challenge_def)
next
  case False
  have "challenge_parse ''Bearer realm=T,n=1'' = Inr (''Bearer'', [(''realm'', ''T''), (''n'', ''1'')])" by code_simp
  with False show ?thesis by (simp add: fussy_challenge_def)
qed

lemma fussy_round:
  assumes "fussy_state st" "url \<noteq> ''T''"
  shows "\<exists>res st1 st2. request_raw fussy_world meth url (401 # sts) None params data st = Inr (res, st1)
    \<and> rs_status res = 401 \<and> escalate fussy_world res st1 = Inr (True, st2) \<and> fussy_state st2"
proof -
  from assms obtain r where r: "length (h_reqs st) = 2 * r" "h_creds st = \<lparr>cr_username = None, cr_password = None\<rparr>"
    "h_auth st = Auth_None \<or> (\<exists>t. h_auth st = Auth_Bearer_IDed t (fussy_challenge (Suc r)))"
    by (auto simp: fussy_state_def)
  let ?q = "\<lparr>q_method = meth, q_url = url, q_auth = h_auth st, q_params = params, q_data = data\<rparr>"
  let ?res = "\<lparr>rs_status = 401, rs_headers = [(''www-authenticate'',
                    ''Bearer realm=T,n='' @ (if even r then ''0'' else ''1''))], rs_chunks = [], rs_json = Null\<rparr>"
  define st1 where "st1 = st\<lparr>h_reqs := h_reqs st @ [?q]\<rparr>"
  have raw: "request_raw fussy_world meth url (401 # sts) None params data st = Inr (?res, st1)"
    using r(1) assms(2) by (simp add: request_raw_def fussy_world_def fussy_server_def Let_def st1_def)
  let ?q2 = "\<lparr>q_method = ''GET'', q_url = ''T'', q_auth = Auth_Basic ''u'' ''p'',
    q_params = bearer_params (fussy_challenge r), q_data = None\<rparr>"
  define st2 where "st2 = st1\<lparr>h_asked := Suc (h_asked st1), h_reqs := h_reqs st1 @ [?q2]\<rparr>"
  have realm: "map_of (fussy_challenge r) ''realm'' = Some ''T''" by (simp add: fussy_challenge_def)
  have auth: "authenticate fussy_world C_Bearer_IDed (fussy_challenge r) st1
      = Inr (Some (Auth_Bearer_IDed ''t'' (fussy_challenge r)), st2)"
    using r(2) realm by (simp add: bearer_authenticate_def creds_get_def creds_lookup_def request_raw_def
        fussy_world_def fussy_server_def Let_def st1_def st2_def json_key_def)
  have ne: "\<not> auth_eq (Auth_Bearer_IDed ''t'' (fussy_challenge r)) (h_auth st1)"
    using r(3) by (auto simp: st1_def fussy_challenge_def doubleton_eq_iff)
  have "try_classes fussy_world (h_auth st1) ''Bearer'' (fussy_challenge r) (escalators (h_auth st1)) st1
      = Inr (Some (Auth_Bearer_IDed ''t'' (fussy_challenge r)), st2)"
    using r(3) auth ne by (auto simp: st1_def fussy_world_def)
  then have "escalate fussy_world ?res st1 = Inr (True, st2\<lparr>h_auth := Auth_Bearer_IDed ''t'' (fussy_challenge r)\<rparr>)"
    using r(3) fussy_challenge_parse [of r] by (auto simp: escalate_def auth_escalate_def st1_def)
  moreover have "fussy_state (st2\<lparr>h_auth := Auth_Bearer_IDed ''t'' (fussy_challenge r)\<rparr>)"
    using r by (auto simp: fussy_state_def st1_def st2_def fussy_challenge_def intro!: exI [of _ "Suc r"])
  ultimately show ?thesis using raw by fastforce
qed

text \<open>The request never returns.\<close>

lemma request_loop_endless:
  assumes "fussy_state st" "url \<noteq> ''T''"
  shows "request_loop fussy_world meth url sts params data st = None"
proof (rule ccontr)
  assume "request_loop fussy_world meth url sts params data st \<noteq> None"
  then obtain y where "request_loop fussy_world meth url sts params data st = Some y" by blast
  then have "\<not> fussy_state st"
  proof (rule request_loop_rule [where Q = "\<lambda>st y. \<not> fussy_state st"])
    note F = fussy_round [OF _ assms(2), of _ meth sts params data]
    show "\<not> fussy_state st" if "request_raw fussy_world meth url (401 # sts) None params data st = Inl e" for st e
      using F [of st] that by auto
    show "\<not> fussy_state st" if "request_raw fussy_world meth url (401 # sts) None params data st = Inr (res, st1)"
      "rs_status res \<noteq> 401" for st res st1
      using F [of st] that by auto
    show "\<not> fussy_state st" if "request_raw fussy_world meth url (401 # sts) None params data st = Inr (res, st1)"
      "escalate fussy_world res st1 = Inl e" for st res st1 e
      using F [of st] that by auto
    show "\<not> fussy_state st" if "request_raw fussy_world meth url (401 # sts) None params data st = Inr (res, st1)"
      "escalate fussy_world res st1 = Inr (False, st2)" for st res st1 st2
      using F [of st] that by auto
    show "\<not> fussy_state st" if "request_raw fussy_world meth url (401 # sts) None params data st = Inr (res, st1)"
      "escalate fussy_world res st1 = Inr (True, st2)" "\<not> fussy_state st2" for st res st1 st2
      using F [of st] that by auto
  qed
  with assms show False by blast
qed

section \<open>Uploads\<close>

text \<open>An upload that succeeds ends with the registry confirming that it has the blob.\<close>

lemma blob_upload_confirmed:
  "blob_upload w digest data st = Some (Inr st') \<Longrightarrow>
   \<exists>st0. blob_exists_p w digest st0 = Some (Inr (True, st'))"
  by (auto simp: blob_upload_def bindo_Some_Inr split: if_splits)

text \<open>A blob that is already there is not sent again.\<close>

lemma blob_upload_present:
  "blob_exists_p w digest st = Some (Inr (True, st')) \<Longrightarrow> blob_upload w digest data st = Some (Inr st')"
  by (simp add: blob_upload_def bindo_def)

end
