(* ===== verification/Pull.thy ===== *)
theory Pull
  imports Registry
begin

text \<open>
  Pulling: class \<open>Image_Puller\<close> of \<open>lib/pull.py\<close>. The download cache is a map from file
  names to contents or symbolic links; \<open>loads\<close> is the JSON parser (\<open>None\<close> on a syntax
  error). Every step may fail or, in authenticated mode, not return; so results are
  options of sums.
\<close>

section \<open>State\<close>

datatype cached = Content string | Link_To string

type_synonym dlcache = "string \<rightharpoonup> cached"

record puller =
  pl_arch :: string                                      \<comment> \<open>\<open>ch.arch\<close>\<close>
  pl_architectures :: "(string, string option) dict option"
  pl_digests :: "(string, string) dict"
  pl_config_hash :: "string option"
  pl_layer_hashes :: "string list"
  pl_session :: session
  pl_store :: dlcache

record pull_env =
  pe_world :: world
  pe_loads :: "string \<Rightarrow> json option"
  pe_arch_host :: string
  pe_dlcache_p :: bool
  pe_src :: string        \<comment> \<open>\<open>str(src_ref)\<close>\<close>
  pe_image :: string      \<comment> \<open>\<open>str(image.ref)\<close>\<close>
  pe_image_path :: string \<comment> \<open>\<open>image.ref.for_path\<close>\<close>

definition manifests_internal :: "(string, json) dict" where
  "manifests_internal =
     [(''scratch'', Obj [(''schemaVersion'', Num 2), (''config'', Obj [(''digest'', Null)]),
                         (''layers'', Arr [])])]"

definition puller_init :: "string \<Rightarrow> session \<Rightarrow> dlcache \<Rightarrow> puller" where
  "puller_init arch session store =
     \<lparr>pl_arch = arch, pl_architectures = None, pl_digests = [], pl_config_hash = None,
      pl_layer_hashes = [], pl_session = session, pl_store = store\<rparr>"

section \<open>Files of the download cache\<close>

definition fatman_for_download :: "string \<Rightarrow> string" where
  "fatman_for_download fp = fp @ ''.fat.json''"

definition manifest_for_download :: "string \<Rightarrow> string option \<Rightarrow> string" where
  "manifest_for_download fp digest =
     fp @ ''%'' @ (case digest of None \<Rightarrow> ''skinny'' | Some d \<Rightarrow> d) @ ''.manifest.json''"

definition layer_path :: "string \<Rightarrow> string" where
  "layer_path layer_hash = layer_hash @ ''.tar.gz''"

definition config_path :: "puller \<Rightarrow> string option" where
  "config_path p = map_option (\<lambda>h. h @ ''.json'') (pl_config_hash p)"

text \<open>Reading follows a link once; the code makes links to plain files only.\<close>

definition cache_read :: "dlcache \<Rightarrow> string \<Rightarrow> string option" where
  "cache_read s f =
     (case s f of
        None \<Rightarrow> None
      | Some (Content c) \<Rightarrow> Some c
      | Some (Link_To g) \<Rightarrow> (case s g of Some (Content c) \<Rightarrow> Some c | _ \<Rightarrow> None))"

definition json_from_cache :: "pull_env \<Rightarrow> puller \<Rightarrow> string \<Rightarrow> json res" where
  "json_from_cache e p f =
     bindr (of_opt (Fatal ''can't read: %s'') (cache_read (pl_store p) f)) (\<lambda>text.
       of_opt (Fatal ''can't parse JSON: %s:%d: %s'') (pe_loads e text))"

definition arch_digest :: "puller \<Rightarrow> string option res" where
  \<comment> \<open>the digest of the manifest for the architecture; \<open>None\<close> for the default one\<close>
  "arch_digest p =
     (case pl_architectures p of
        None \<Rightarrow> Inr None
      | Some as \<Rightarrow> if pl_arch p = ''yolo'' then Inr None else arch_getitem as (pl_arch p))"

definition manifest_path :: "pull_env \<Rightarrow> puller \<Rightarrow> string res" where
  "manifest_path e p =
     (if map_of manifests_internal (pe_image e) \<noteq> None then Inr ''[internal library]''
      else bindr (arch_digest p) (\<lambda>d. Inr (manifest_for_download (pe_image_path e) d)))"

definition store_body :: "string \<Rightarrow> string option \<Rightarrow> puller \<Rightarrow> puller" where
  "store_body f body p = (case body of None \<Rightarrow> p | Some c \<Rightarrow> p\<lparr>pl_store := (pl_store p)(f \<mapsto> Content c)\<rparr>)"

section \<open>Manifest lists\<close>

definition error_decode :: "json \<Rightarrow> (json \<times> json) res" where
  "error_decode data =
     (case bindr (json_key data ''errors'') (\<lambda>es. bindr (json_index es 0) (\<lambda>e0.
           bindr (json_key e0 ''code'') (\<lambda>code. bindr (json_key e0 ''message'') (\<lambda>msg. Inr (code, msg))))) of
        Inl e \<Rightarrow> if e \<in> {Index_Error, Key_Error} then Inl (Fatal ''malformed error data'') else Inl e
      | Inr x \<Rightarrow> Inr x)"

text \<open>\<open>digest_trim\<close> on a value that may not be a string\<close>

definition digest_trim_json :: "json \<Rightarrow> string res" where
  "digest_trim_json d =
     (case d of Str s \<Rightarrow> digest_trim s | _ \<Rightarrow> Inl (Fatal ''not a string: %s''))"

text \<open>One entry of a manifest list: \<open>None\<close> if it is not for Linux.\<close>

definition fatman_entry :: "json \<Rightarrow> (string \<times> json) option res" where
  "fatman_entry m =
     (case bindr (json_key m ''platform'') (\<lambda>pf.
           bindr (json_key pf ''os'') (\<lambda>os.
           if os \<noteq> Str ''linux'' then Inr None
           else bindr (json_key pf ''architecture'') (\<lambda>a.
                bindr (case a of Str s \<Rightarrow> Inr s | _ \<Rightarrow> Inl (Unmodelled ''architecture is not a string'')) (\<lambda>arch.
                bindr (json_in ''variant'' pf) (\<lambda>has_variant.
                bindr (if has_variant
                       then bindr (json_key pf ''variant'') (\<lambda>v.
                              case v of Str s \<Rightarrow> Inr (arch @ ''/'' @ s)
                              | _ \<Rightarrow> Inl (Unmodelled ''variant is not a string''))
                       else Inr arch) (\<lambda>arch.
                bindr (json_key m ''digest'') (\<lambda>d. Inr (Some (arch, d))))))))) of
        Inl e \<Rightarrow> if e = Key_Error then Inl (Fatal ''manifest lists missing a required key'') else Inl e
      | Inr x \<Rightarrow> Inr x)"

fun fatman_entries :: "json list \<Rightarrow> (string, string option) dict \<Rightarrow> (string, string) dict \<Rightarrow>
    ((string, string option) dict \<times> (string, string) dict) res" where
  "fatman_entries [] archs digests = Inr (archs, digests)"
| "fatman_entries (m # ms) archs digests =
     bindr (fatman_entry m) (\<lambda>x.
       case x of
         None \<Rightarrow> fatman_entries ms archs digests
       | Some (arch, d) \<Rightarrow>
           bindr (arch_contains archs arch) (\<lambda>dup.
           bindr (guard (\<not> dup) (Fatal ''manifest list: duplicate architecture: %s'')) (\<lambda>_.
           bindr (digest_trim_json d) (\<lambda>h.
           bindr (json_str d) (\<lambda>s.
             fatman_entries ms (AList.update arch (Some h) archs)
               (AList.update arch (split_on CHR '':'' s ! 1) digests))))))"

text \<open>
  \<open>fatman_load\<close>. The exception that says there is no manifest list is a value here,
  because the caller goes on with the state: the first component is then \<open>True\<close>.
\<close>

definition fatman_load :: "pull_env \<Rightarrow> puller \<Rightarrow> (bool \<times> puller) res option" where
  "fatman_load e p =
     (let p = p\<lparr>pl_architectures := None\<rparr>;
          fatman_path = fatman_for_download (pe_image_path e) in
      if map_of manifests_internal (pe_src e) \<noteq> None then
        Some (Inr (False, p\<lparr>pl_architectures := Some [(pe_arch_host e, None)],
                            pl_digests := AList.update (pe_arch_host e) ''no digest'' (pl_digests p)\<rparr>))
      else
        bindo (fatman_to_file (pe_world e) (pl_session p)) (\<lambda>(body, st).
        let p = store_body fatman_path body (p\<lparr>pl_session := st\<rparr>) in
        bindo (Some (json_from_cache e p fatman_path)) (\<lambda>fm.
        bindo (Some (json_in ''layers'' fm)) (\<lambda>layers.
        bindo (Some (json_in ''fsLayers'' fm)) (\<lambda>fslayers.
        if layers \<or> fslayers then
          bindo (Some (manifest_path e p)) (\<lambda>mp.
            Some (Inr (True, if pl_store p mp = None
                             then p\<lparr>pl_store := (pl_store p)(mp \<mapsto> Link_To fatman_path)\<rparr> else p)))
        else bindo (Some (json_in ''errors'' fm)) (\<lambda>errors.
        if errors then
          bindo (Some (error_decode fm)) (\<lambda>(code, msg).
            if code = Str ''MANIFEST_UNKNOWN'' then Some (Inr (False, p))
            else Some (Inl (Fatal ''manifest list: error: %s'')))
        else bindo (Some (json_in ''manifests'' fm)) (\<lambda>has.
          if \<not> has then Some (Inl (Fatal ''manifest list has no key manifests''))
          else Some (bindr (bindr (json_key fm ''manifests'') json_iter) (\<lambda>ms.
                 bindr (fatman_entries ms [] (pl_digests p)) (\<lambda>(archs, digests).
                   Inr (False, p\<lparr>pl_architectures := Some archs, pl_digests := digests\<rparr>)))))))))))"

section \<open>Manifests\<close>

definition json_version :: "json \<Rightarrow> nat res" where
  \<comment> \<open>the schema version, checked with \<open>version not in {1,2}\<close>\<close>
  "json_version v =
     (case v of
        Arr xs \<Rightarrow> Inl Type_Error
      | Obj d \<Rightarrow> Inl Type_Error
      | _ \<Rightarrow> if v = Num 1 \<or> v = Bool True then Inr 1
            else if v = Num 2 then Inr 2
            else Inl (Fatal ''unsupported manifest schema version: %s''))"

definition key_or :: "exn \<Rightarrow> json res \<Rightarrow> json res" where
  "key_or e r = (case r of Inl x \<Rightarrow> Inl (if x = Key_Error then e else x) | Inr v \<Rightarrow> Inr v)"

definition manifest_config_hash :: "nat \<Rightarrow> json \<Rightarrow> string option res" where
  "manifest_config_hash version manifest =
     (if version = 1 then Inr None
      else bindr (key_or (Fatal ''manifest: %s: no key: %s'')
                        (bindr (json_key manifest ''config'') (\<lambda>c. json_key c ''digest''))) (\<lambda>d.
                  if d = Null then Inr None
                  else bindr (digest_trim_json d) (\<lambda>h. Inr (Some h))))"

definition manifest_layer :: "string \<Rightarrow> json \<Rightarrow> string res" where
  "manifest_layer key2 i =
     bindr (json_in key2 i) (\<lambda>has.
     bindr (guard has (Fatal ''manifest: %s: no key: %s'')) (\<lambda>_.
     bindr (json_key i key2) digest_trim_json))"

definition manifest_layer_hashes :: "nat \<Rightarrow> json \<Rightarrow> string list res" where
  "manifest_layer_hashes version manifest =
     (let key1 = (if version = 1 then ''fsLayers'' else ''layers'');
          key2 = (if version = 1 then ''blobSum'' else ''digest'') in
      bindr (json_in key1 manifest) (\<lambda>has.
      bindr (guard has (Fatal ''manifest: %s: no key: %s'')) (\<lambda>_.
      bindr (bindr (json_key manifest key1) json_iter) (\<lambda>ls.
      bindr (mapr (manifest_layer key2) ls) (\<lambda>hs.
        Inr (if version = 1 then rev hs else hs))))))"

definition manifest_parse :: "json \<Rightarrow> (string option \<times> string list) res" where
  "manifest_parse manifest =
     bindr (key_or (Fatal ''manifest: %s: no key: %s'') (json_key manifest ''schemaVersion'')) (\<lambda>v.
     bindr (json_version v) (\<lambda>version.
     bindr (manifest_config_hash version manifest) (\<lambda>c.
     bindr (manifest_layer_hashes version manifest) (\<lambda>ls. Inr (c, ls)))))"

definition manifest_load :: "pull_env \<Rightarrow> bool \<Rightarrow> puller \<Rightarrow> puller res option" where
  "manifest_load e have_skinny p =
     bindo (case map_of manifests_internal (pe_src e) of
              Some m \<Rightarrow> Some (Inr (m, p))
            | None \<Rightarrow>
                bindo (Some (arch_digest p)) (\<lambda>digest.
                bindo (Some (manifest_path e p)) (\<lambda>mp.
                bindo (if have_skinny then Some (Inr p)
                       else bindo (manifest_to_file (pe_world e) digest (pl_session p)) (\<lambda>(body, st).
                              Some (Inr (store_body mp body (p\<lparr>pl_session := st\<rparr>))))) (\<lambda>p.
                bindo (Some (json_from_cache e p mp)) (\<lambda>m. Some (Inr (m, p))))))) (\<lambda>(manifest, p).
     Some (bindr (manifest_parse manifest) (\<lambda>(c, ls).
             Inr (p\<lparr>pl_config_hash := c, pl_layer_hashes := ls\<rparr>))))"

section \<open>Downloading\<close>

text \<open>A blob is fetched unless its file exists and the download cache may be read.\<close>

definition fetch_blob :: "pull_env \<Rightarrow> string \<Rightarrow> string \<Rightarrow> puller \<Rightarrow> puller res option" where
  "fetch_blob e hash f p =
     (if pl_store p f \<noteq> None \<and> pe_dlcache_p e then Some (Inr p)
      else bindo (blob_to_file (pe_world e) hash (pl_session p)) (\<lambda>(body, st).
             Some (Inr (store_body f body (p\<lparr>pl_session := st\<rparr>)))))"

fun fetch_layers :: "pull_env \<Rightarrow> string list \<Rightarrow> puller \<Rightarrow> puller res option" where
  "fetch_layers e [] p = Some (Inr p)"
| "fetch_layers e (h # hs) p = bindo (fetch_blob e h (layer_path h) p) (fetch_layers e hs)"

text \<open>The part under the exception handler: which manifest to use, and loading it.\<close>

definition load_manifests :: "pull_env \<Rightarrow> puller \<Rightarrow> puller res option" where
  "load_manifests e p =
     (if pl_arch p = ''yolo'' then manifest_load e False p
      else bindo (fatman_load e p) (\<lambda>(no_fatman, p).
        if no_fatman then
          (if pl_arch p = ''amd64'' then manifest_load e True (p\<lparr>pl_arch := ''yolo''\<rparr>)
           else Some (Inl (Fatal ''image is architecture-unaware'')))
        else bindo (Some (of_opt Attribute_Error (pl_architectures p))) (\<lambda>as.
             bindo (Some (arch_in_warn as (pl_arch p))) (\<lambda>(available, warned).
             if available then manifest_load e False p
             else Some (Inl (Fatal ''requested arch unavailable: %s''))))))"

definition unavailable_fatal :: "puller res option \<Rightarrow> puller res option" where
  "unavailable_fatal m =
     (case m of
        Some (Inl Image_Unavailable_Error) \<Rightarrow> Some (Inl (Fatal ''unauthorized or not in registry: %s''))
      | _ \<Rightarrow> m)"

definition download :: "pull_env \<Rightarrow> puller \<Rightarrow> puller res option" where
  "download e p =
     bindo (unavailable_fatal (load_manifests e p)) (\<lambda>p.
     bindo (case pl_config_hash p of
              None \<Rightarrow> Some (Inr p)
            | Some h \<Rightarrow> fetch_blob e h (h @ ''.json'') p) (\<lambda>p.
     bindo (fetch_layers e (pl_layer_hashes p) p) (\<lambda>p.
       Some (Inr (p\<lparr>pl_session := http_close (pl_session p)\<rparr>)))))"

section \<open>Properties\<close>

lemma blob_to_file_ok:
  assumes "blob_to_file w d st = Some (Inr (body, st'))"
  shows "\<exists>c. body = Some c \<and> w_sha w c = d"
proof -
  from assms obtain url res where "request w ''GET'' url [200] True (Some d) [] None st = Some (Inr (res, body, st'))"
    by (auto simp: blob_to_file_def bindo_Some_Inr)
  from request_sound [OF this] show ?thesis by (auto split: option.splits)
qed

definition layer_good :: "pull_env \<Rightarrow> puller \<Rightarrow> string \<Rightarrow> bool" where
  "layer_good e p h \<longleftrightarrow> (\<exists>c. pl_store p (layer_path h) = Some (Content c) \<and> w_sha (pe_world e) c = h)"

definition layer_kept :: "pull_env \<Rightarrow> puller \<Rightarrow> puller \<Rightarrow> string \<Rightarrow> bool" where
  "layer_kept e p p' h \<longleftrightarrow> pe_dlcache_p e \<and> pl_store p (layer_path h) \<noteq> None
     \<and> pl_store p' (layer_path h) = pl_store p (layer_path h)"

lemma fetch_blob_ok:
  assumes "fetch_blob e h f p = Some (Inr p')"
  shows "pl_layer_hashes p' = pl_layer_hashes p \<and> (\<forall>g. g \<noteq> f \<longrightarrow> pl_store p' g = pl_store p g)
    \<and> ((\<exists>c. pl_store p' f = Some (Content c) \<and> w_sha (pe_world e) c = h)
       \<or> pe_dlcache_p e \<and> pl_store p f \<noteq> None \<and> pl_store p' f = pl_store p f)"
proof (cases "pl_store p f \<noteq> None \<and> pe_dlcache_p e")
  case True
  with assms show ?thesis by (auto simp: fetch_blob_def)
next
  case False
  then have "bindo (blob_to_file (pe_world e) h (pl_session p)) (\<lambda>(body, st).
      Some (Inr (store_body f body (p\<lparr>pl_session := st\<rparr>)))) = Some (Inr p')"
    using assms unfolding fetch_blob_def by (simp only: if_False)
  then obtain x where x: "blob_to_file (pe_world e) h (pl_session p) = Some (Inr x)"
    and "(case x of (body, st) \<Rightarrow> Some (Inr (store_body f body (p\<lparr>pl_session := st\<rparr>)))) = (Some (Inr p') :: puller res option)"
    unfolding bindo_Some_Inr by blast
  then obtain body st where b: "blob_to_file (pe_world e) h (pl_session p) = Some (Inr (body, st))"
    and p': "p' = store_body f body (p\<lparr>pl_session := st\<rparr>)"
    by (cases x) simp
  from blob_to_file_ok [OF b] obtain c where "body = Some c" "w_sha (pe_world e) c = h" by blast
  then have st: "pl_store p' = (pl_store p)(f \<mapsto> Content c)" and hs: "pl_layer_hashes p' = pl_layer_hashes p"
    using p' by (simp_all add: store_body_def)
  have "pl_store p' f = Some (Content c)" "\<forall>g. g \<noteq> f \<longrightarrow> pl_store p' g = pl_store p g"
    unfolding st by simp_all
  with hs \<open>w_sha (pe_world e) c = h\<close> show ?thesis by blast
qed

lemma layer_path_inj: "layer_path h = layer_path k \<longleftrightarrow> h = k"
  by (simp add: layer_path_def)

lemma fetch_layers_ok:
  assumes "fetch_layers e hs p = Some (Inr p')"
  shows "pl_layer_hashes p' = pl_layer_hashes p
    \<and> (\<forall>h. layer_good e p' h \<or> pl_store p' (layer_path h) = pl_store p (layer_path h))
    \<and> (\<forall>h \<in> set hs. layer_good e p' h \<or> layer_kept e p p' h)"
  using assms
proof (induction hs arbitrary: p)
  case (Cons h hs)
  from Cons.prems obtain p1 where f: "fetch_blob e h (layer_path h) p = Some (Inr p1)"
    and r: "fetch_layers e hs p1 = Some (Inr p')" by (auto simp: bindo_Some_Inr)
  note F = fetch_blob_ok [OF f] and IH = Cons.IH [OF r]
  have one: "layer_good e p1 k \<or> pl_store p1 (layer_path k) = pl_store p (layer_path k)" for k
    using F by (cases "k = h") (auto simp: layer_good_def layer_path_inj)
  have all: "layer_good e p' k \<or> pl_store p' (layer_path k) = pl_store p (layer_path k)" for k
    using IH one [of k] by (auto simp: layer_good_def)
  have h: "layer_good e p' h \<or> layer_kept e p p' h"
    using F IH all [of h] by (auto simp: layer_good_def layer_kept_def) metis+
  have "layer_good e p' k \<or> layer_kept e p p' k" if "k \<in> set hs" for k
  proof (cases "k = h")
    case True
    with h show ?thesis by simp
  next
    case False
    then have "pl_store p1 (layer_path k) = pl_store p (layer_path k)" using F by (simp add: layer_path_inj)
    with IH that show ?thesis unfolding layer_kept_def by metis
  qed
  with h all F IH show ?case by simp
qed simp

lemma last_append_lit: "b \<noteq> [] \<Longrightarrow> last (a @ b) = last b"
  by simp

lemma store_body_other: "f \<noteq> g \<Longrightarrow> pl_store (store_body f body p) g = pl_store p g"
  by (simp add: store_body_def split: option.splits)

text \<open>Loading manifests leaves the layer files alone.\<close>

lemma manifest_path_json:
  assumes "manifest_path e p = Inr mp" shows "mp \<noteq> layer_path h"
proof -
  have "last mp = CHR '']'' \<or> last mp = CHR ''n''"
    using assms by (auto simp: manifest_path_def manifest_for_download_def res_simps split: if_splits)
  moreover have "last (layer_path h) = CHR ''z''" by (simp add: layer_path_def)
  ultimately show ?thesis by auto
qed

lemma fatman_path_json: "fatman_for_download fp \<noteq> layer_path h"
proof
  assume "fatman_for_download fp = layer_path h"
  then have "last (fatman_for_download fp) = last (layer_path h)" by simp
  then show False by (simp add: fatman_for_download_def layer_path_def)
qed

lemma manifest_load_store:
  assumes "manifest_load e sk p = Some (Inr p')"
  shows "pl_store p' (layer_path h) = pl_store p (layer_path h)"
proof -
  from assms obtain m p1 where 1: "(case map_of manifests_internal (pe_src e) of
              Some m \<Rightarrow> Some (Inr (m, p))
            | None \<Rightarrow>
                bindo (Some (arch_digest p)) (\<lambda>digest.
                bindo (Some (manifest_path e p)) (\<lambda>mp.
                bindo (if sk then Some (Inr p)
                       else bindo (manifest_to_file (pe_world e) digest (pl_session p)) (\<lambda>(body, st).
                              Some (Inr (store_body mp body (p\<lparr>pl_session := st\<rparr>))))) (\<lambda>p.
                bindo (Some (json_from_cache e p mp)) (\<lambda>m. Some (Inr (m, p))))))) = Some (Inr (m, p1))"
    and p': "pl_store p' = pl_store p1"
    unfolding manifest_load_def bindo_Some_Inr by (auto simp: res_simps)
  from 1 have "pl_store p1 (layer_path h) = pl_store p (layer_path h)"
    by (auto simp: bindo_Some_Inr store_body_other dest!: manifest_path_json [where h = h]
        split: option.splits if_splits)
  with p' show ?thesis by simp
qed

lemma fatman_load_store:
  assumes "fatman_load e p = Some (Inr (b, p'))"
  shows "pl_store p' (layer_path h) = pl_store p (layer_path h)"
  using assms
  by (auto simp: fatman_load_def Let_def bindo_Some_Inr store_body_other fatman_path_json res_simps
      dest!: manifest_path_json [where h = h] split: if_splits prod.splits)

lemma load_manifests_store:
  assumes "load_manifests e p = Some (Inr p')"
  shows "pl_store p' (layer_path h) = pl_store p (layer_path h)"
proof (cases "pl_arch p = ''yolo''")
  case True
  with assms show ?thesis by (auto simp: load_manifests_def dest: manifest_load_store)
next
  case False
  with assms obtain b p1 where f: "fatman_load e p = Some (Inr (b, p1))"
    and r: "manifest_load e True (p1\<lparr>pl_arch := ''yolo''\<rparr>) = Some (Inr p') \<or> manifest_load e False p1 = Some (Inr p')"
    by (auto simp: load_manifests_def bindo_Some_Inr split: if_splits)
  from r have "pl_store p' (layer_path h) = pl_store p1 (layer_path h)"
    by (auto dest!: manifest_load_store [of e _ _ p' h])
  with fatman_load_store [OF f] show ?thesis by simp
qed

lemma config_file_not_layer: "k @ ''.json'' \<noteq> layer_path h"
proof
  assume "k @ ''.json'' = layer_path h"
  then have "last (k @ ''.json'') = last (layer_path h)" by simp
  then show False by (simp add: layer_path_def)
qed

lemma unavailable_fatal_ok: "unavailable_fatal m = Some (Inr x) \<Longrightarrow> m = Some (Inr x)"
proof (cases m)
  case (Some r)
  assume u: "unavailable_fatal m = Some (Inr x)"
  with Some show ?thesis
  proof (cases r)
    case (Inl e)
    with u Some show ?thesis by (cases e) (simp_all add: unavailable_fatal_def)
  qed (simp add: unavailable_fatal_def)
qed (simp add: unavailable_fatal_def)

text \<open>
  C18: After a download, the file of every layer of the image either holds content whose
  hash is the layer's digest, or was in the download cache before, untouched, and the
  cache may be read.
\<close>

theorem download_verified:
  assumes "download e p = Some (Inr p')" "h \<in> set (pl_layer_hashes p')"
  shows "layer_good e p' h \<or> layer_kept e p p' h"
proof -
  from assms(1) obtain p1 p2 p3 where 1: "unavailable_fatal (load_manifests e p) = Some (Inr p1)"
    and 2: "(case pl_config_hash p1 of None \<Rightarrow> Some (Inr p1) | Some h \<Rightarrow> fetch_blob e h (h @ ''.json'') p1) = Some (Inr p2)"
    and 3: "fetch_layers e (pl_layer_hashes p2) p2 = Some (Inr p3)"
    and p': "p' = p3\<lparr>pl_session := http_close (pl_session p3)\<rparr>"
    unfolding download_def bindo_Some_Inr by auto
  from 1 have "load_manifests e p = Some (Inr p1)" by (rule unavailable_fatal_ok)
  then have s1: "pl_store p1 (layer_path h) = pl_store p (layer_path h)" by (rule load_manifests_store)
  have s2: "pl_store p2 (layer_path h) = pl_store p1 (layer_path h)"
  proof (cases "pl_config_hash p1")
    case None
    then show ?thesis using 2 by simp
  next
    case (Some k)
    then have "fetch_blob e k (k @ ''.json'') p1 = Some (Inr p2)" using 2 by simp
    from fetch_blob_ok [OF this] show ?thesis using config_file_not_layer [of k h] by metis
  qed
  note F = fetch_layers_ok [OF 3]
  then have "h \<in> set (pl_layer_hashes p2)" using assms(2) p' by simp
  with F have "layer_good e p3 h \<or> layer_kept e p2 p3 h" by blast
  then show ?thesis using s1 s2 p' by (simp add: layer_good_def layer_kept_def)
qed

lemma request_always:
  assumes "w_server w = (\<lambda>qs. Some r)" "rs_status r = 200" "200 \<in> set sts" "rs_headers r = []"
    "digest = None \<or> digest = Some (w_sha w (concat (rs_chunks r)))"
  shows "request w meth url sts True digest params data st = Some (Inr (r, Some (concat (rs_chunks r)),
    (session_init_maybe st)\<lparr>h_reqs := h_reqs st @ [\<lparr>q_method = meth, q_url = url, q_auth = h_auth st,
       q_params = params, q_data = data\<rparr>]\<rparr>))"
proof -
  have "request_raw w meth url (401 # sts) None params data (session_init_maybe st) =
      Inr (r, (session_init_maybe st)\<lparr>h_reqs := h_reqs st @ [\<lparr>q_method = meth, q_url = url, q_auth = h_auth st,
       q_params = params, q_data = data\<rparr>]\<rparr>)"
    using assms by (simp add: request_raw_def session_init_maybe_def Let_def)
  from request_loop_done [OF this] show ?thesis
    using assms by (auto simp: request_def stream_body_def bindo_def)
qed

definition example_env :: pull_env where
  "example_env =
     \<lparr>pe_world = \<lparr>w_server = (\<lambda>qs. Some \<lparr>rs_status = 200, rs_headers = [], rs_chunks = [''M''], rs_json = Null\<rparr>),
        w_env = [], w_prompt = None, w_password_many = False, w_auth_p = False, w_sha = (\<lambda>s. ''aa'')\<rparr>,
      pe_loads = (\<lambda>s. Some (Obj [(''schemaVersion'', Num 2),
          (''config'', Obj [(''digest'', Null)]), (''layers'', Arr [Obj [(''digest'', Str ''sha256:aa'')]])])),
      pe_arch_host = ''amd64'', pe_dlcache_p = True, pe_src = ''i'', pe_image = ''i'', pe_image_path = ''i''\<rparr>"

definition example_puller :: puller where
  "example_puller = puller_init ''yolo''
     \<lparr>h_ref = \<lparr>r_host = Some ''r'', r_port = Some 1, r_path = [], r_name = Some ''i'', r_tag = Some ''t'',
        r_digest = None, r_variables = []\<rparr>, h_auth = Auth_None,
      h_creds = \<lparr>cr_username = None, cr_password = None\<rparr>, h_open = True, h_reqs = [], h_asked = 0\<rparr> Map.empty"

lemma example_manifest: "manifest_parse (Obj [(''schemaVersion'', Num 2),
    (''config'', Obj [(''digest'', Null)]), (''layers'', Arr [Obj [(''digest'', Str ''sha256:aa'')]])]) = Inr (None, [''aa''])"
  by code_simp

lemma download_verified_witness:
  "\<exists>p'. download example_env example_puller = Some (Inr p') \<and> pl_layer_hashes p' = [''aa'']
     \<and> (layer_good example_env p' ''aa'' \<or> layer_kept example_env example_puller p' ''aa'')"
proof -
  have "\<exists>p'. download example_env example_puller = Some (Inr p') \<and> pl_layer_hashes p' = [''aa'']"
    by (simp add: download_def load_manifests_def example_env_def example_puller_def puller_init_def
        manifest_load_def manifests_internal_def arch_digest_def manifest_path_def manifest_to_file_def
        blob_to_file_def fetch_blob_def request_always bindo_def ref_version_def url_of_def url_base_def path_full_def
        store_body_def json_from_cache_def cache_read_def example_manifest unavailable_fatal_def
        manifest_for_download_def layer_path_def session_init_maybe_def)
  then obtain p' where p: "download example_env example_puller = Some (Inr p')" "pl_layer_hashes p' = [''aa'']"
    by blast
  have "''aa'' \<in> set (pl_layer_hashes p')" using p(2) by simp
  from download_verified [OF p(1) this] p show ?thesis by blast
qed

section \<open>Where the code goes wrong\<close>

text \<open>
  When the registry says that it does not know the image, \<open>fatman_load\<close> returns with no
  architectures, and the next line of \<open>download\<close> raises instead of reporting that.
\<close>

lemma unknown_image_raises:
  assumes "fatman_load e p = Some (Inr (False, p1))" "pl_architectures p1 = None" "pl_arch p \<noteq> ''yolo''"
  shows "load_manifests e p = Some (Inl Attribute_Error)"
  using assms by (simp add: load_manifests_def bindo_def)

text \<open>
  The test for duplicate architectures uses the dictionary with fallbacks, so a list that
  offers \<open>arm64\<close> and then \<open>arm64/v8\<close> is rejected, in the other order accepted.
\<close>

definition list_entry :: "string \<Rightarrow> string \<Rightarrow> json" where
  "list_entry a v = Obj [(''platform'', Obj ([(''os'', Str ''linux''), (''architecture'', Str a)]
     @ (if v = [] then [] else [(''variant'', Str v)]))), (''digest'', Str ''sha256:0'')]"

lemma duplicate_by_fallback:
  "fatman_entries [list_entry ''arm64'' [], list_entry ''arm64'' ''v8''] [] []
     = Inl (Fatal ''manifest list: duplicate architecture: %s'')
   \<and> is_ok (fatman_entries [list_entry ''arm64'' ''v8'', list_entry ''arm64'' []] [] [])"
  by code_simp

text \<open>Schema version 2: the configuration's digest and the layers in the order listed.\<close>

lemma manifest_parse_v2:
  assumes "\<forall>h \<in> set (c # ls). CHR '':'' \<notin> set h"
  shows "manifest_parse (Obj [(''schemaVersion'', Num 2), (''config'', Obj [(''digest'', Str (''sha256:'' @ c))]),
      (''layers'', Arr (map (\<lambda>h. Obj [(''digest'', Str (''sha256:'' @ h))]) ls))]) = Inr (Some c, ls)"
proof -
  have trim: "digest_trim (''sha256:'' @ h) = Inr h" for h
    using split1_append [of "CHR '':''" "''sha256''" h] by (simp add: digest_trim_def)
  have "mapr (manifest_layer ''digest'') (map (\<lambda>h. Obj [(''digest'', Str (''sha256:'' @ h))]) ls) = Inr ls"
    using trim by (induction ls) (simp_all add: manifest_layer_def json_ops digest_trim_json_def)
  then show ?thesis
    using trim by (simp add: manifest_parse_def json_ops key_or_def json_version_def manifest_config_hash_def
        digest_trim_json_def manifest_layer_hashes_def)
qed

end
