(* ===== verification/State_Ids.thy ===== *)
theory State_Ids
  imports Pystr "HOL-Library.Code_Target_Nat" begin

text \<open>
  State identifiers: class \<open>State_ID\<close> of \<open>lib/build_cache.py\<close>. Bytes are strings of 8-bit
  characters; MD5 is an argument, a function from bytes to bytes.
\<close>

section \<open>Bytes, UTF-8 and hexadecimal digits\<close>

type_synonym bytes = string

definition utf8_char :: "char \<Rightarrow> bytes" where
  "utf8_char c =
     (let n = (of_char c :: nat)
      in if n < 128 then [c] else [char_of (192 + n div 64), char_of (128 + n mod 64)])"

definition encode_utf8 :: "string \<Rightarrow> bytes" where
  "encode_utf8 s = concat (map utf8_char s)"

definition hex_char :: "nat \<Rightarrow> char" where \<comment> \<open>one digit, as \<open>bytes.hex\<close> prints it\<close>
  "hex_char n = (if n < 10 then char_of (48 + n) else char_of (87 + n))"

definition hex_val :: "char \<Rightarrow> nat" where
  "hex_val c =
     (if is_digit c then of_char c - 48
      else if in_range CHR ''a'' CHR ''f'' c then of_char c - 87
      else of_char c - 55)"

definition hex_byte :: "char \<Rightarrow> string" where
  "hex_byte b = [hex_char (of_char b div 16), hex_char (of_char b mod 16)]"

definition bytes_hex :: "bytes \<Rightarrow> string" where
  "bytes_hex bs = concat (map hex_byte bs)"

fun bytes_fromhex :: "string \<Rightarrow> bytes option" where \<comment> \<open>\<open>None\<close> where Python raises\<close>
  "bytes_fromhex [] = Some []"
| "bytes_fromhex [c] = None"
| "bytes_fromhex (c # d # s) =
     (if is_hex c \<and> is_hex d
      then map_option (\<lambda>bs. char_of (16 * hex_val c + hex_val d) # bs) (bytes_fromhex s)
      else None)"

section \<open>Class State_ID\<close>

type_synonym state_id = bytes

text \<open>The constructor's assertion is the type; the two kinds of input of \<open>from_parent\<close> are a sum.\<close>

datatype sid_input = Bytes_Input bytes | Str_Input string

definition input_bytes :: "sid_input \<Rightarrow> bytes" where
  "input_bytes i = (case i of Bytes_Input b \<Rightarrow> b | Str_Input s \<Rightarrow> encode_utf8 s)"

definition from_parent :: "(bytes \<Rightarrow> bytes) \<Rightarrow> state_id \<Rightarrow> sid_input \<Rightarrow> state_id" where
  "from_parent md5 psid i = md5 (psid @ input_bytes i)"

definition last_n :: "nat \<Rightarrow> 'a list \<Rightarrow> 'a list" where \<comment> \<open>\<open>xs[-n:]\<close>, n positive\<close>
  "last_n n xs = drop (length xs - n) xs"

definition from_text :: "string \<Rightarrow> state_id res" where
  "from_text text =
     (let text = last_n 32 (filter is_hex text) in
      bindr (guard (\<not> length text < 32) (Fatal ''state ID too short: %s'')) (\<lambda>_.
        of_opt (Fatal ''state ID: malformed hex: %s'') (bytes_fromhex text)))"

definition slice :: "nat \<Rightarrow> nat \<Rightarrow> 'a list \<Rightarrow> 'a list" where \<comment> \<open>\<open>xs[i:j]\<close>\<close>
  "slice i j xs = take (j - i) (drop i xs)"

definition sid_str :: "state_id \<Rightarrow> string" where
  "sid_str i =
     (let s = map to_upper (bytes_hex i)
      in join '':'' [slice 0 4 s, slice 4 8 s, slice 8 16 s, slice 16 24 s, slice 24 32 s])"

definition sid_short :: "state_id \<Rightarrow> string" where
  "sid_short i = take 4 (sid_str i)"

section \<open>Hexadecimal digits read back\<close>

lemma upper_hex_char:
  assumes "n < 16"
  shows "is_hex (to_upper (hex_char n)) \<and> hex_val (to_upper (hex_char n)) = n"
proof -
  have "list_all (\<lambda>n. is_hex (to_upper (hex_char n)) \<and> hex_val (to_upper (hex_char n)) = n) [0..<16]"
    by code_simp
  with assms show ?thesis unfolding list_all_iff by auto
qed

lemma byte_halves: "(of_char b :: nat) div 16 < 16" "(of_char b :: nat) mod 16 < 16"
  using nat_of_char_less_256 [of b] by (simp_all add: less_mult_imp_div_less)

lemma hex_byte_length [simp]: "length (bytes_hex bs) = 2 * length bs"
  by (induction bs) (simp_all add: bytes_hex_def hex_byte_def)

lemma bytes_hex_all: "list_all is_hex (map to_upper (bytes_hex bs))"
  by (induction bs) (simp_all add: bytes_hex_def hex_byte_def upper_hex_char byte_halves)

lemma bytes_fromhex_hex: "bytes_fromhex (map to_upper (bytes_hex bs)) = Some bs"
proof (induction bs)
  case (Cons b bs)
  have "char_of (16 * (of_char b div 16) + of_char b mod 16 :: nat) = b"
    by simp
  with Cons show ?case
    by (simp add: bytes_hex_def hex_byte_def upper_hex_char byte_halves)
qed (simp add: bytes_hex_def)

lemma bytes_fromhex_total:
  "list_all is_hex s \<Longrightarrow> even (length s) \<Longrightarrow> bytes_fromhex s \<noteq> None"
  by (induction s rule: bytes_fromhex.induct) auto


section \<open>The printed form\<close>

lemma slices_join:
  assumes "length s = 32"
  shows "slice 0 4 s @ slice 4 8 s @ slice 8 16 s @ slice 16 24 s @ slice 24 32 s = s"
proof -
  have "take n s @ slice n m s = take m s" if "n \<le> m" for n m :: nat
    using that by (simp add: slice_def take_add [symmetric])
  from this [of 0 4] this [of 4 8] this [of 8 16] this [of 16 24] this [of 24 32]
  have "take 4 s @ slice 4 8 s = take 8 s" "take 8 s @ slice 8 16 s = take 16 s"
    "take 16 s @ slice 16 24 s = take 24 s" "take 24 s @ slice 24 32 s = take 32 s" by simp_all
  moreover have "slice 0 4 s = take 4 s" "take 32 s = s" using assms by (simp_all add: slice_def)
  ultimately show ?thesis by (metis append_assoc)
qed

lemma filter_hex_sid_str:
  assumes "length i = 16"
  shows "filter is_hex (sid_str i) = map to_upper (bytes_hex i)"
proof -
  let ?s = "map to_upper (bytes_hex i)"
  have len: "length ?s = 32" using assms by simp
  have all: "list_all is_hex ?s" by (rule bytes_hex_all)
  then have sl: "filter is_hex (slice a b ?s) = slice a b ?s" for a b
    unfolding slice_def list_all_iff by (intro filter_True) (metis in_set_takeD in_set_dropD)
  have colon: "\<not> is_hex CHR '':''" by code_simp
  have "filter is_hex (sid_str i) = slice 0 4 ?s @ slice 4 8 ?s @ slice 8 16 ?s @ slice 16 24 ?s @ slice 24 32 ?s"
    unfolding sid_str_def Let_def by (simp add: sl colon)
  with slices_join [OF len] show ?thesis by (simp only:)
qed

lemma last_n_append: "length b = n \<Longrightarrow> last_n n (a @ b) = b"
  by (simp add: last_n_def)

text \<open>
  The state ID of a commit reads back from the output of \<open>git log\<close> whatever the
  commit's abbreviated hash and message are: text that ends with a printed ID, followed by
  characters that are no hexadecimal digits, parses to that ID.
\<close>

theorem from_text_str:
  assumes "length i = 16" and "list_all (\<lambda>c. \<not> is_hex c) post"
  shows "from_text (pre @ sid_str i @ post) = Inr i"
proof -
  have "filter is_hex post = []" using assms(2) by (simp add: list_all_iff)
  then have f: "filter is_hex (pre @ sid_str i @ post) = filter is_hex pre @ map to_upper (bytes_hex i)"
    using filter_hex_sid_str [OF assms(1)] by simp
  have "last_n 32 (filter is_hex pre @ map to_upper (bytes_hex i)) = map to_upper (bytes_hex i)"
    by (rule last_n_append) (simp add: assms(1))
  then show ?thesis
    unfolding from_text_def f Let_def using assms(1) by (simp add: bytes_fromhex_hex)
qed

lemma from_text_str_witness:
  "from_text (''1a2b3c '' @ sid_str (replicate 16 CHR ''J'') @ [newline]) = Inr (replicate 16 CHR ''J'')"
  by (rule from_text_str) (simp_all add: char_class_defs)

text \<open>
  Parsing a state ID fails exactly when the text has fewer than 32 hexadecimal digits,
  with the message that says so; the second error branch is never taken. A parsed ID has
  16 bytes.
\<close>

theorem from_text_total:
  "if length (filter is_hex text) < 32 then from_text text = Inl (Fatal ''state ID too short: %s'')
   else \<exists>i. from_text text = Inr i \<and> length i = 16"
proof (cases "length (filter is_hex text) < 32")
  case True
  then show ?thesis by (simp add: from_text_def last_n_def)
next
  case False
  let ?t = "last_n 32 (filter is_hex text)"
  have len: "length ?t = 32" using False by (simp add: last_n_def)
  have hex: "list_all is_hex ?t" by (auto simp: last_n_def list_all_iff dest: in_set_dropD)
  have "length s = 2 * length i" if "bytes_fromhex s = Some i" for s i
    using that by (induction s arbitrary: i rule: bytes_fromhex.induct) (auto split: if_splits)
  with bytes_fromhex_total [OF hex] len obtain i where "bytes_fromhex ?t = Some i" "length i = 16"
    by fastforce
  with False len show ?thesis by (simp add: from_text_def Let_def)
qed

section \<open>Chains of state IDs\<close>

text \<open>The ID of a sequence of transitions from a first state.\<close>

definition chain_sid :: "(bytes \<Rightarrow> bytes) \<Rightarrow> state_id \<Rightarrow> sid_input list \<Rightarrow> state_id" where
  "chain_sid md5 root is = foldl (from_parent md5) root is"

text \<open>What is hashed on the way.\<close>

fun chain_hashed :: "(bytes \<Rightarrow> bytes) \<Rightarrow> state_id \<Rightarrow> sid_input list \<Rightarrow> bytes set" where
  "chain_hashed md5 i [] = {}"
| "chain_hashed md5 i (x # xs) = insert (i @ input_bytes x) (chain_hashed md5 (from_parent md5 i x) xs)"

lemma chain_sid_simps [simp]:
  "chain_sid md5 r [] = r"
  "chain_sid md5 r (x # xs) = chain_sid md5 (from_parent md5 r x) xs"
  "chain_sid md5 r (xs @ [x]) = from_parent md5 (chain_sid md5 r xs) x"
  by (simp_all add: chain_sid_def)

lemma chain_hashed_snoc:
  "chain_hashed md5 r (xs @ [x]) = insert (chain_sid md5 r xs @ input_bytes x) (chain_hashed md5 r xs)"
  by (induction xs arbitrary: r) auto

lemma chain_sid_length: "(\<And>b. length (md5 b) = n) \<Longrightarrow> length r = n \<Longrightarrow> length (chain_sid md5 r xs) = n"
  by (induction xs arbitrary: r) (simp_all add: from_parent_def)


definition example_md5 :: "bytes \<Rightarrow> bytes" where
  "example_md5 b = take 16 (last_n 4 b @ replicate 16 CHR ''x'')"


end
