(* ===== verification/Files.thy ===== *)
theory Files
  imports Paths State_Ids "HOL-Library.Word"
begin

text \<open>
  Files as trees, for the parts of ch-image that work on unpacked images: what \<open>stat\<close>
  reports, the types of files, and the operations of class \<open>Path\<close> in \<open>lib/filesystem.py\<close>
  on a file or directory tree. A directory's entries are in the order in which the system
  lists them.
\<close>

unbundle bit_operations_syntax

section \<open>Trees\<close>

record meta =
  mt_mode :: int       \<comment> \<open>permission bits, \<open>stat.S_IMODE\<close>\<close>
  mt_size :: int
  mt_atime :: int      \<comment> \<open>nanoseconds\<close>
  mt_mtime :: int
  mt_ino :: nat
  mt_nlink :: nat
  mt_xattrs :: "(string, string) dict"

datatype kind = K_Reg | K_Lnk | K_Fifo | K_Sock | K_Chr | K_Blk | K_Dir

datatype node =
    Reg meta string                    \<comment> \<open>content\<close>
  | Lnk meta string                    \<comment> \<open>target\<close>
  | Special kind meta                  \<comment> \<open>FIFO, socket or device\<close>
  | Dir meta "(string \<times> node) list"

fun node_kind :: "node \<Rightarrow> kind" where
  "node_kind (Reg m c) = K_Reg"
| "node_kind (Lnk m t) = K_Lnk"
| "node_kind (Special k m) = k"
| "node_kind (Dir m es) = K_Dir"

fun node_meta :: "node \<Rightarrow> meta" where
  "node_meta (Reg m c) = m"
| "node_meta (Lnk m t) = m"
| "node_meta (Special k m) = m"
| "node_meta (Dir m es) = m"

fun node_entries :: "node \<Rightarrow> (string \<times> node) list" where
  "node_entries (Dir m es) = es"
| "node_entries _ = []"

fun node_meta_update :: "(meta \<Rightarrow> meta) \<Rightarrow> node \<Rightarrow> node" where
  "node_meta_update f (Reg m c) = Reg (f m) c"
| "node_meta_update f (Lnk m t) = Lnk (f m) t"
| "node_meta_update f (Special k m) = Special k (f m)"
| "node_meta_update f (Dir m es) = Dir (f m) es"

text \<open>The file type bits of \<open>st_mode\<close>.\<close>

fun kind_bits :: "kind \<Rightarrow> int" where
  "kind_bits K_Fifo = 0x1000"
| "kind_bits K_Chr = 0x2000"
| "kind_bits K_Dir = 0x4000"
| "kind_bits K_Blk = 0x6000"
| "kind_bits K_Reg = 0x8000"
| "kind_bits K_Lnk = 0xA000"
| "kind_bits K_Sock = 0xC000"

definition st_mode :: "node \<Rightarrow> int" where
  "st_mode n = kind_bits (node_kind n) + mt_mode (node_meta n)"

text \<open>The entry at a path given by its parts, links not followed.\<close>

fun node_at :: "node \<Rightarrow> string list \<Rightarrow> node option" where
  "node_at n [] = Some n"
| "node_at n (c # cs) = (case map_of (node_entries n) c of None \<Rightarrow> None | Some m \<Rightarrow> node_at m cs)"

text \<open>Changing the entry at a path; its parent directories must be there.\<close>

fun node_alter :: "exn \<Rightarrow> (node option \<Rightarrow> node option) \<Rightarrow> node \<Rightarrow> string list \<Rightarrow> node res" where
  "node_alter x f n [] = Inl x"
| "node_alter x f (Dir m es) [c] =
     Inr (Dir m (case f (map_of es c) of None \<Rightarrow> AList.delete c es | Some n \<Rightarrow> AList.update c n es))"
| "node_alter x f (Dir m es) (c # d # ds) =
     (case map_of es c of
        None \<Rightarrow> Inl x
      | Some n \<Rightarrow> bindr (node_alter x f n (d # ds)) (\<lambda>n'. Inr (Dir m (AList.update c n' es))))"
| "node_alter x f n (c # cs) = Inl x"

text \<open>New files and directories, as the system creates them (times and inode are not modelled).\<close>

definition new_file :: "string \<Rightarrow> node" where
  "new_file content = Reg \<lparr>mt_mode = 0x1A4, mt_size = int (length content), mt_atime = 0, mt_mtime = 0, mt_ino = 0,
     mt_nlink = 1, mt_xattrs = []\<rparr> content"

definition new_dir :: node where
  "new_dir = Dir \<lparr>mt_mode = 0x1ED, mt_size = 0, mt_atime = 0, mt_mtime = 0, mt_ino = 0, mt_nlink = 2, mt_xattrs = []\<rparr> []"

text \<open>\<open>file_write\<close>: an existing file keeps its metadata but for the size.\<close>

definition file_write :: "string \<Rightarrow> node \<Rightarrow> string list \<Rightarrow> node res" where
  "file_write content n p =
     (case node_at n p of
        None \<Rightarrow> node_alter (Fatal ''can't open for %s: %s'') (\<lambda>_. Some (new_file content)) n p
      | Some (Reg m c) \<Rightarrow> node_alter (Fatal ''can't open for %s: %s'')
            (\<lambda>_. Some (Reg (m\<lparr>mt_size := int (length content)\<rparr>) content)) n p
      | _ \<Rightarrow> Inl (Unmodelled ''writing to what is no regular file''))"

definition file_read_all :: "node \<Rightarrow> string list \<Rightarrow> string res" where
  "file_read_all n p =
     (case node_at n p of Some (Reg m c) \<Rightarrow> Inr c | _ \<Rightarrow> Inl (Fatal ''can't open for %s: %s''))"

text \<open>\<open>mkdirs\<close>: every missing directory on the way\<close>

fun mkdirs :: "node \<Rightarrow> string list \<Rightarrow> node res" where
  "mkdirs n [] = (case n of Dir m es \<Rightarrow> Inr n | Lnk m t \<Rightarrow> Inl (Unmodelled ''a link on the way'')
     | _ \<Rightarrow> Inl (Fatal ''can't mkdir: %s: %s: %s''))"
| "mkdirs (Dir m es) (c # cs) =
     bindr (mkdirs (case map_of es c of None \<Rightarrow> new_dir | Some n \<Rightarrow> n) cs) (\<lambda>n'.
       Inr (Dir m (AList.update c n' es)))"
| "mkdirs (Lnk m t) (c # cs) = Inl (Unmodelled ''a link on the way'')"
| "mkdirs n (c # cs) = Inl (Fatal ''can't mkdir: %s: %s: %s'')"

section \<open>Operations on one file\<close>

text \<open>\<open>chmod_min\<close>: at least \<open>0o700\<close> for directories and \<open>0o400\<close> otherwise; links are left alone.\<close>

definition min_perms :: "kind \<Rightarrow> int" where
  "min_perms k = (if k = K_Dir then 0x1C0 else 0x100)"

definition chmod_min :: "node \<Rightarrow> node" where
  "chmod_min n =
     (if node_kind n = K_Lnk then n
      else node_meta_update (\<lambda>m. m\<lparr>mt_mode := mt_mode m OR min_perms (node_kind n)\<rparr>) n)"

text \<open>\<open>os.utime\<close> with \<open>os.chmod\<close>\<close>

definition set_times_mode :: "int \<Rightarrow> int \<Rightarrow> int \<Rightarrow> node \<Rightarrow> node" where
  "set_times_mode atime mtime mode =
     node_meta_update (\<lambda>m. m\<lparr>mt_atime := atime, mt_mtime := mtime, mt_mode := mode\<rparr>)"

section \<open>Walking a tree\<close>

text \<open>\<open>Disabled_Cache.permissions_fix\<close>: everything below the top gets minimal permissions.\<close>

fun permissions_fix_all :: "node \<Rightarrow> node" where
  "permissions_fix_all (Dir m es) = chmod_min (Dir m (map (\<lambda>(i, n). (i, permissions_fix_all n)) es))"
| "permissions_fix_all n = chmod_min n"

fun permissions_fix :: "node \<Rightarrow> node" where
  "permissions_fix (Dir m es) = Dir m (map (\<lambda>(i, n). (i, permissions_fix_all n)) es)"
| "permissions_fix n = n"

text \<open>\<open>du\<close>: files and bytes on disk of a tree; the size on disk is an argument.\<close>

fun du :: "(node \<Rightarrow> nat) \<Rightarrow> node \<Rightarrow> nat \<times> nat" where
  "du disk_bytes (Dir m es) =
     (Suc (sum_list (map (\<lambda>(i, n). fst (du disk_bytes n)) es)),
      disk_bytes (Dir m es) + sum_list (map (\<lambda>(i, n). snd (du disk_bytes n)) es))"
| "du disk_bytes n = (1, disk_bytes n)"

text \<open>
  \<open>stat_bytes\<close>: the path, then mode, size and modification time packed in 2, 8 and 8
  bytes, native order (little-endian here). A value out of range raises.
\<close>

fun le_bytes :: "nat \<Rightarrow> nat \<Rightarrow> bytes" where
  "le_bytes 0 n = []"
| "le_bytes (Suc k) n = char_of (n mod 256) # le_bytes k (n div 256)"

definition pack_uint :: "nat \<Rightarrow> int \<Rightarrow> bytes res" where
  "pack_uint k i = (if 0 \<le> i \<and> i < 256 ^ k then Inr (le_bytes k (nat i)) else Inl (Unmodelled ''struct.error''))"

definition stat_bytes :: "path \<Rightarrow> node \<Rightarrow> bytes res" where
  "stat_bytes p n =
     bindr (pack_uint 2 (st_mode n)) (\<lambda>a.
     bindr (pack_uint 8 (mt_size (node_meta n))) (\<lambda>b.
     bindr (pack_uint 8 (mt_mtime (node_meta n))) (\<lambda>c.
       Inr (encode_utf8 p @ a @ b @ c))))"

text \<open>
  \<open>stat_bytes_recursive\<close> below its first entry: each directory with its files in the order
  of their names, then its subdirectories. They come in the order of the listing: the code
  sorts them, but in a copy that \<open>ch.walk\<close> made, which the walk does not see. The walk
  lists a link to a directory among the directories, whose metadata it leaves out;
  \<open>follows\<close> tells which links lead to directories.
\<close>

fun stat_bytes_walk :: "(path \<Rightarrow> bool) \<Rightarrow> path \<Rightarrow> node \<Rightarrow> bytes res"
  and stat_bytes_dirs :: "(path \<Rightarrow> bool) \<Rightarrow> path \<Rightarrow> (string \<times> node) list \<Rightarrow> bytes res" where
  "stat_bytes_walk follows p (Dir m es) =
     bindr (stat_bytes p (Dir m es)) (\<lambda>own.
     bindr (mapr (\<lambda>(i, n). stat_bytes (floordiv p i) n)
              (sort_key fst (filter (\<lambda>(i, n). node_kind n \<noteq> K_Dir
                 \<and> \<not> (node_kind n = K_Lnk \<and> follows (floordiv p i))) es))) (\<lambda>files.
     bindr (stat_bytes_dirs follows p es) (\<lambda>dirs. Inr (own @ concat files @ dirs))))"
| "stat_bytes_walk follows p n = Inr []"
| "stat_bytes_dirs follows p [] = Inr []"
| "stat_bytes_dirs follows p ((i, n) # es) =
     bindr (stat_bytes_walk follows (floordiv p i) n) (\<lambda>a.
     bindr (stat_bytes_dirs follows p es) (\<lambda>b. Inr (a @ b)))"

text \<open>The first entry is given with its links followed.\<close>

definition stat_bytes_recursive :: "(path \<Rightarrow> bool) \<Rightarrow> path \<Rightarrow> node \<Rightarrow> bytes res" where
  "stat_bytes_recursive follows p n =
     bindr (stat_bytes p n) (\<lambda>a. bindr (stat_bytes_walk follows p n) (\<lambda>b. Inr (a @ b)))"

definition stat_bytes_all :: "(path \<Rightarrow> bool) \<Rightarrow> (path \<times> node) list \<Rightarrow> bytes res" where
  "stat_bytes_all follows ps =
     bindr (mapr (\<lambda>(p, n). stat_bytes_recursive follows p n) ps) (\<lambda>bs. Inr (concat bs))"

text \<open>The bytes, and so the cache key of \<open>COPY\<close>, depend on the order of the listing.\<close>

lemma stat_bytes_order:
  fixes m :: meta
  defines "m \<equiv> \<lparr>mt_mode = 0, mt_size = 0, mt_atime = 0, mt_mtime = 0, mt_ino = 0, mt_nlink = 2, mt_xattrs = []\<rparr>"
  shows "stat_bytes_recursive (\<lambda>_. False) ''d'' (Dir m [(''a'', Dir m []), (''b'', Dir m [])])
    \<noteq> stat_bytes_recursive (\<lambda>_. False) ''d'' (Dir m [(''b'', Dir m []), (''a'', Dir m [])])"
  unfolding m_def by code_simp

end
