(* ===== verification/Git_Metadata.thy ===== *)
theory Git_Metadata
  imports Files "HOL-Library.Multiset"
begin

text \<open>
  File metadata for the build cache: class \<open>File_Metadata\<close> of \<open>lib/build_cache.py\<close>.
  \<open>git_prepare\<close> walks an unpacked image before a Git commit, records what Git does not
  store and takes out or renames the files that Git cannot store; \<open>git_restore\<close> puts
  them back. The global settings and MD5 are one argument.
\<close>

section \<open>State\<close>

record fm_attrs =
  fa_path :: path
  fa_kind :: kind
  fa_mode :: int
  fa_size :: int
  fa_atime :: int
  fa_mtime :: int
  fa_dont_restore :: bool
  fa_hardlink_to :: "path option"
  fa_large_name :: "string option"
  fa_xattrs :: "(string, string) dict"

datatype fm = FM (attrs: fm_attrs) (fm_children: "(string \<times> fm) list")

record fm_env =
  fe_md5_hex :: "bytes \<Rightarrow> string"
  fe_threshold :: int          \<comment> \<open>\<open>large_file_thresh\<close>\<close>
  fe_xattrs :: bool            \<comment> \<open>\<open>ch.xattrs_save\<close>\<close>

text \<open>
  The state of a walk: the first link of each group of hard links, the inodes of the links
  deleted so far, and the large file storage.
\<close>

record walk_state =
  ws_hardlinks :: "(nat, path) dict"
  ws_deleted :: "nat list"
  ws_large :: "(string, node) dict"

definition git_dir :: path where "git_dir = ''ch/git''"

definition pickle_path :: path where "pickle_path = ''ch/git.pickle''"

definition filename_max_chars :: nat where "filename_max_chars = 192"

definition rpm_db :: "path \<Rightarrow> bool" where
  "rpm_db p \<longleftrightarrow> match_path p ''var/lib/rpm/__db.*''"

definition fm_init :: "fm_env \<Rightarrow> path \<Rightarrow> node \<Rightarrow> fm_attrs" where
  "fm_init e p n =
     (let m = node_meta n in
      \<lparr>fa_path = p, fa_kind = node_kind n, fa_mode = mt_mode m, fa_size = mt_size m, fa_atime = mt_atime m,
       fa_mtime = mt_mtime m, fa_dont_restore = False, fa_hardlink_to = None, fa_large_name = None,
       fa_xattrs = (if fe_xattrs e then mt_xattrs m else [])\<rparr>)"

definition stat_cache_update :: "node \<Rightarrow> fm_attrs \<Rightarrow> fm_attrs" where
  "stat_cache_update n a =
     a\<lparr>fa_atime := mt_atime (node_meta n), fa_mtime := mt_mtime (node_meta n),
       fa_mode := mt_mode (node_meta n), fa_size := mt_size (node_meta n)\<rparr>"

section \<open>What is not stored\<close>

definition unstored :: "fm_attrs \<Rightarrow> bool" where
  "unstored a \<longleftrightarrow> fa_kind a = K_Fifo \<or> fa_kind a = K_Sock \<or> fa_large_name a \<noteq> None \<or> fa_hardlink_to a \<noteq> None"

fun empty_dir_p :: "fm \<Rightarrow> bool" where
  "empty_dir_p (FM a cs) \<longleftrightarrow> fa_kind a = K_Dir \<and> list_all (\<lambda>(i, c). unstored (attrs c) \<or> empty_dir_p c) cs"

section \<open>Large files\<close>

text \<open>\<open>repr\<close> of a string that prints\<close>

definition py_repr :: "string \<Rightarrow> string" where
  "py_repr s =
     (let q = (if squote \<in> set s \<and> dquote \<notin> set s then dquote else squote) in
      q # concat (map (\<lambda>c. if c = q \<or> c = backslash then [backslash, c] else [c]) s) @ [q])"

definition large_name_get :: "fm_env \<Rightarrow> fm_attrs \<Rightarrow> string res" where
  "large_name_get e a =
     bindr (guard (fa_size a \<ge> 0) Assertion_Error) (\<lambda>_.
       Inr (take filename_max_chars
         (fe_md5_hex e (encode_utf8 (str_of_int (fa_mtime a) @ str_of_int (kind_bits (fa_kind a) + fa_mode a)
            @ str_of_int (fa_size a) @ ''Path('' @ py_repr (fa_path a) @ '')''))
          @ ''%'' @ replace_char slash CHR ''%'' (fa_path a))))"

fun large_names :: "fm \<Rightarrow> string list" where
  "large_names (FM a cs) =
     (case fa_large_name a of None \<Rightarrow> [] | Some l \<Rightarrow> [l]) @ concat (map (\<lambda>(i, c). large_names c) cs)"

definition note_deleted :: "node \<Rightarrow> walk_state \<Rightarrow> walk_state" where
  "note_deleted n st = st\<lparr>ws_deleted := mt_ino (node_meta n) # ws_deleted st\<rparr>"

text \<open>The link count at the time of the visit\<close>

definition nlink_now :: "node \<Rightarrow> walk_state \<Rightarrow> nat" where
  "nlink_now n st = mt_nlink (node_meta n) - count_list (ws_deleted st) (mt_ino (node_meta n))"

definition large_prepare :: "fm_env \<Rightarrow> fm_attrs \<Rightarrow> node \<Rightarrow> walk_state \<Rightarrow> (string \<times> walk_state) res" where
  "large_prepare e a n st =
     bindr (large_name_get e a) (\<lambda>name.
       Inr (name, if map_of (ws_large st) name \<noteq> None then note_deleted n st
                  else st\<lparr>ws_large := AList.update name n (ws_large st)\<rparr>))"

section \<open>Preparing\<close>

text \<open>
  After the file's type: hard links, large files, empty directories, FIFOs and names. The
  result is the metadata and what is left in the directory, if anything, with its name.
\<close>

definition prepare_leaf :: "fm_env \<Rightarrow> string \<Rightarrow> node \<Rightarrow> fm_attrs \<Rightarrow> (string \<times> fm) list \<Rightarrow> walk_state \<Rightarrow>
    (fm \<times> (string \<times> node) option \<times> walk_state) res" where
  "prepare_leaf e i n a cs st =
     (let p = fa_path a; ino = mt_ino (node_meta n) in
      case (if nlink_now n st > 1 \<and> fa_kind a \<noteq> K_Dir then map_of (ws_hardlinks st) ino else None) of
        Some first \<Rightarrow> Inr (FM (a\<lparr>fa_hardlink_to := Some first\<rparr>) cs, None, note_deleted n st)
      | None \<Rightarrow>
          let st = (if nlink_now n st > 1 \<and> fa_kind a \<noteq> K_Dir
                    then st\<lparr>ws_hardlinks := AList.update ino p (ws_hardlinks st)\<rparr> else st) in
          bindr (if fa_size a \<ge> fe_threshold e \<and> fa_kind a = K_Reg \<and> path_name p \<noteq> path_name pickle_path
                 then bindr (large_prepare e a n st) (\<lambda>(l, st). Inr (Some l, st))
                 else Inr (None, st)) (\<lambda>(large, st).
          let a = a\<lparr>fa_large_name := large\<rparr>; fm = FM a cs in
          if empty_dir_p fm then
            bindr (guard (node_entries n = []) (Fatal ''can't rmdir: %s'')) (\<lambda>_. Inr (fm, None, st))
          else if fa_kind a = K_Fifo then Inr (fm, None, note_deleted n st)
          else if large \<noteq> None then
            (if git_compatible_p p then Inr (fm, None, st)
             else Inl (Fatal ''can't rename: %s -> %s''))
          else bindr (if git_compatible_p p then Inr i
                      else bindr (git_escaped p) (\<lambda>q. Inr (path_name q))) (\<lambda>i. Inr (fm, Some (i, n), st))))"

lemma size_list_sort_key [termination_simp]: "size_list f (sort_key g xs) = size_list f xs"
proof -
  have "size_list f xs = sum_mset (image_mset f (mset xs)) + size (mset xs)" for xs
    by (induction xs) auto
  from this [of xs] this [of "sort_key g xs"] show ?thesis by simp
qed

fun git_prepare :: "fm_env \<Rightarrow> path \<Rightarrow> string \<Rightarrow> node \<Rightarrow> walk_state \<Rightarrow>
      (fm \<times> (string \<times> node) option \<times> walk_state) res"
  and prepare_entries :: "fm_env \<Rightarrow> path \<Rightarrow> (string \<times> node) list \<Rightarrow> walk_state \<Rightarrow>
      ((string \<times> fm) list \<times> (string \<times> node) list \<times> walk_state) res" where
  "git_prepare e p i n st =
     (let a = fm_init e p n in
      if p = git_dir then Inr (FM (a\<lparr>fa_dont_restore := True\<rparr>) [], Some (i, n), st)
      else
        let a = stat_cache_update (chmod_min n) a in
        case n of
          Dir m es \<Rightarrow>
            bindr (prepare_entries e p (sort_key fst es) st) (\<lambda>(cs, es', st).
              prepare_leaf e i (Dir (node_meta (chmod_min n)) es') a cs st)
        | Special k m \<Rightarrow>
            if k = K_Sock then Inr (FM (a\<lparr>fa_dont_restore := True\<rparr>) [], None, note_deleted n st)
            else if k = K_Chr \<or> k = K_Blk then Inl (Fatal ''device files invalid in image: %s'')
            else if rpm_db p then Inr (FM (a\<lparr>fa_dont_restore := True\<rparr>) [], None, note_deleted n st)
            else prepare_leaf e i (chmod_min n) a [] st
        | _ \<Rightarrow>
            if rpm_db p then Inr (FM (a\<lparr>fa_dont_restore := True\<rparr>) [], None, note_deleted n st)
            else prepare_leaf e i (chmod_min n) a [] st)"
| "prepare_entries e p [] st = Inr ([], [], st)"
| "prepare_entries e p ((i, n) # es) st =
     bindr (git_prepare e (floordiv p i) i n st) (\<lambda>(fm, kept, st).
     bindr (prepare_entries e p es st) (\<lambda>(fms, es', st).
     bindr (guard (kept = None \<or> fst (the kept) = i \<or> fst (the kept) \<notin> fst ` (set es \<union> set es'))
              (Unmodelled ''renaming replaces another file'')) (\<lambda>_.
       Inr ((i, fm) # fms, (case kept of None \<Rightarrow> es' | Some k \<Rightarrow> k # es'), st))))"

section \<open>Restoring\<close>

text \<open>
  The state of a restoring walk: the files that are in place by path, for hard links, and
  the next free inode.
\<close>

record restore_state =
  rs_seen :: "(path, node) dict"
  rs_inode :: nat

record restore_env =
  re_quick :: bool
  re_xattrs :: bool
  re_large :: "(string, node) dict"

definition new_meta :: "restore_state \<Rightarrow> meta" where
  "new_meta st = \<lparr>mt_mode = 0, mt_size = 0, mt_atime = 0, mt_mtime = 0, mt_ino = rs_inode st, mt_nlink = 1, mt_xattrs = []\<rparr>"

text \<open>
  Making sure the file is there under the right name: the entry, what is left of the
  directory's other entries, and the state.
\<close>

definition restore_entry :: "restore_env \<Rightarrow> string \<Rightarrow> fm_attrs \<Rightarrow> bool \<Rightarrow> (string, node) dict \<Rightarrow> restore_state \<Rightarrow>
    (node option \<times> (string, node) dict \<times> restore_state) res" where
  "restore_entry e i a empty_dir es st =
     (let p = fa_path a; other = AList.delete i es; used = st\<lparr>rs_inode := Suc (rs_inode st)\<rparr> in
      case (fa_hardlink_to a, fa_large_name a) of
        (Some target, _) \<Rightarrow>
          bindr (of_opt (Unmodelled ''hard link to a file that is not restored before'')
                   (map_of (rs_seen st) target)) (\<lambda>n.
          bindr (guard (map_of es i = None) (Fatal ''can't hardlink: %s -> %s'')) (\<lambda>_.
            Inr (Some n, es, st)))
      | (None, Some l) \<Rightarrow>
          bindr (of_opt (Fatal ''can't stat: %s'') (map_of (re_large e) l)) (\<lambda>n.
            Inr (Some (node_meta_update (\<lambda>m. m\<lparr>mt_ino := rs_inode st, mt_nlink := 1\<rparr>) n), other, used))
      | (None, None) \<Rightarrow>
          if empty_dir then
            bindr (guard (map_of es i = None) (Fatal ''can't mkdir: %s'')) (\<lambda>_.
              Inr (Some (Dir (new_meta st) []), es, used))
          else if fa_kind a = K_Fifo then
            bindr (guard (map_of es i = None) (Fatal ''can't make FIFO: %s'')) (\<lambda>_.
              Inr (Some (Special K_Fifo (new_meta st)), es, used))
          else if \<not> git_compatible_p p then
            bindr (bindr (git_escaped p) (\<lambda>q. Inr (path_name q))) (\<lambda>j.
            bindr (of_opt (Fatal ''can't rename: %s -> %s'') (map_of es j)) (\<lambda>n.
              Inr (Some n, AList.delete j other, st)))
          else Inr (map_of es i, other, st))"

definition set_xattrs :: "restore_env \<Rightarrow> (string, string) dict \<Rightarrow> node option \<Rightarrow> node option res" where
  "set_xattrs e xs n =
     (if xs = [] \<or> \<not> re_xattrs e then Inr n
      else bindr (of_opt (Fatal ''can't set xattr: %s: %s: %s'') n) (\<lambda>n.
        Inr (Some (node_meta_update (\<lambda>m. m\<lparr>mt_xattrs := dict_update (mt_xattrs m) xs\<rparr>) n))))"

definition restore_metadata :: "restore_env \<Rightarrow> fm_attrs \<Rightarrow> node option \<Rightarrow> node option res" where
  "restore_metadata e a n =
     (if (\<not> re_quick e \<or> fa_hardlink_to a \<noteq> None \<or> fa_kind a = K_Dir \<or> fa_kind a = K_Fifo) \<and> fa_kind a \<noteq> K_Lnk
      then bindr (of_opt (Fatal ''can't restore times: %s'') n) (\<lambda>n.
             Inr (Some (set_times_mode (fa_atime a) (fa_mtime a) (fa_mode a) n)))
      else Inr n)"

definition note_seen :: "path \<Rightarrow> node option \<Rightarrow> restore_state \<Rightarrow> restore_state" where
  "note_seen p n st = (case n of None \<Rightarrow> st | Some n \<Rightarrow> st\<lparr>rs_seen := AList.update p n (rs_seen st)\<rparr>)"

text \<open>
  The entries of a directory that is being restored. One that is missing has none; the
  failure that follows is reported for the directory here, maybe for a child by the code.
\<close>

definition dir_entries :: "node option \<Rightarrow> (string, node) dict res" where
  "dir_entries n =
     (case n of Some (Dir m es) \<Rightarrow> Inr es | None \<Rightarrow> Inr []
      | _ \<Rightarrow> Inl (Unmodelled ''children of a file that is no directory''))"

fun with_entries :: "(string, node) dict \<Rightarrow> node option \<Rightarrow> node option" where
  "with_entries es (Some (Dir m es')) = Some (Dir m es)"
| "with_entries es n = n"

fun git_restore :: "restore_env \<Rightarrow> string \<Rightarrow> fm \<Rightarrow> (string, node) dict \<Rightarrow> restore_state \<Rightarrow>
      (node option \<times> (string, node) dict \<times> restore_state) res"
  and restore_children :: "restore_env \<Rightarrow> (string \<times> fm) list \<Rightarrow> (string, node) dict \<Rightarrow> restore_state \<Rightarrow>
      ((string, node) dict \<times> restore_state) res" where
  "git_restore e i (FM a cs) es st =
     (if fa_dont_restore a \<or> rpm_db (fa_path a) then Inr (map_of es i, AList.delete i es, st)
      else bindr (restore_entry e i a (empty_dir_p (FM a cs)) es st) (\<lambda>(n, es, st).
           bindr (set_xattrs e (fa_xattrs a) n) (\<lambda>n.
           bindr (if cs = [] then Inr (n, st)
                  else bindr (dir_entries n) (\<lambda>sub.
                       bindr (restore_children e cs sub st) (\<lambda>(sub, st). Inr (with_entries sub n, st)))) (\<lambda>(n, st).
           bindr (restore_metadata e a n) (\<lambda>n. Inr (n, es, note_seen (fa_path a) n st))))))"
| "restore_children e [] es st = Inr (es, st)"
| "restore_children e ((i, fm) # fms) es st =
     bindr (git_restore e i fm es st) (\<lambda>(n, es, st).
     bindr (restore_children e fms es st) (\<lambda>(es', st).
       Inr ((case n of None \<Rightarrow> es' | Some n \<Rightarrow> (i, n) # es'), st)))"

text \<open>The whole image: its root is like an entry with the name of the empty path.\<close>

definition prepare_image :: "fm_env \<Rightarrow> (string, node) dict \<Rightarrow> node \<Rightarrow> (fm \<times> node option \<times> (string, node) dict) res" where
  "prepare_image e large n =
     bindr (git_prepare e (Path []) ''.'' n \<lparr>ws_hardlinks = [], ws_deleted = [], ws_large = large\<rparr>) (\<lambda>(fm, kept, st).
       Inr (fm, map_option snd kept, ws_large st))"

definition restore_image :: "restore_env \<Rightarrow> fm \<Rightarrow> node \<Rightarrow> nat \<Rightarrow> node option res" where
  "restore_image e fm n inode =
     bindr (git_restore e ''.'' fm [(''.'', n)] \<lparr>rs_seen = [], rs_inode = inode\<rparr>) (\<lambda>(n, es, st). Inr n)"

section \<open>Pickling\<close>

text \<open>
  \<open>unpickle_fix\<close> on the attributes that are recomputed: the paths. (Attributes that old
  pickles lack are not modelled.)
\<close>

fun unpickle_fix :: "path \<Rightarrow> fm \<Rightarrow> fm" where
  "unpickle_fix p (FM a cs) = FM (a\<lparr>fa_path := p\<rparr>) (map (\<lambda>(i, c). (i, unpickle_fix (floordiv p i) c)) cs)"

text \<open>\<open>get\<close> and \<open>update\<close>: one file's metadata in the tree, by its parts.\<close>

fun fm_get :: "fm \<Rightarrow> string list \<Rightarrow> fm res" where
  "fm_get fm [] = Inr fm"
| "fm_get fm (c # cs) = bindr (of_opt Key_Error (map_of (fm_children fm) c)) (\<lambda>f. fm_get f cs)"

fun fm_set :: "fm_attrs \<Rightarrow> fm \<Rightarrow> string list \<Rightarrow> fm res" where
  "fm_set new fm [] = Inl Assertion_Error"
| "fm_set new (FM a cs) [c] = Inr (FM a (AList.update c (FM new []) cs))"
| "fm_set new (FM a cs) (c # d # ds) =
     bindr (of_opt Key_Error (map_of cs c)) (\<lambda>f.
     bindr (fm_set new f (d # ds)) (\<lambda>f'. Inr (FM a (AList.update c f' cs))))"

definition fm_update :: "fm_env \<Rightarrow> node \<Rightarrow> path \<Rightarrow> fm \<Rightarrow> fm res" where
  "fm_update e root p fm =
     bindr (guard (fa_kind (attrs fm) = K_Dir \<and> path_len p \<ge> 1) Assertion_Error) (\<lambda>_.
     bindr (of_opt (Fatal ''can't stat: %s'') (node_at root (path_parts p))) (\<lambda>n.
     bindr (fm_set (fm_init e p n) fm (path_parts p)) (\<lambda>fm'.
     bindr (guard (node_kind n = K_Reg) Assertion_Error) (\<lambda>_. Inr fm'))))"

end
