(* ===== verification/Git_Roundtrip.thy ===== *)
theory Git_Roundtrip
  imports Git_Metadata
begin

text \<open>
  Preparing an image for Git and restoring it, as a round trip: what is compared
  (\<open>view\<close>), what should come back (\<open>expected\<close>), what Git is relied on for
  (\<open>git_same\<close>), the images for which it works (\<open>tree_ok\<close>), the proof by induction over
  the walk of \<open>git_prepare\<close>, and two images for which it does not work.
\<close>

section \<open>What a round trip keeps\<close>

definition view_meta :: "int \<Rightarrow> int \<Rightarrow> meta" where
  "view_meta mode mtime = \<lparr>mt_mode = mode, mt_size = 0, mt_atime = 0, mt_mtime = mtime, mt_ino = 0, mt_nlink = 0,
     mt_xattrs = []\<rparr>"

definition git_dir_parts :: "string list" where "git_dir_parts = [''ch'', ''git'']"

text \<open>
  A file tree as far as it is compared: types, contents, link targets, permissions and
  modification times (no metadata of symbolic links), and nothing of Git's own link file.
\<close>

fun view :: "string list \<Rightarrow> node \<Rightarrow> node" where
  "view cs (Reg m c) = (if cs = git_dir_parts then Reg (view_meta 0 0) [] else Reg (view_meta (mt_mode m) (mt_mtime m)) c)"
| "view cs (Lnk m t) = (if cs = git_dir_parts then Reg (view_meta 0 0) [] else Lnk (view_meta 0 0) t)"
| "view cs (Special k m) = (if cs = git_dir_parts then Reg (view_meta 0 0) [] else Special k (view_meta (mt_mode m) (mt_mtime m)))"
| "view cs (Dir m es) = (if cs = git_dir_parts then Reg (view_meta 0 0) []
     else Dir (view_meta (mt_mode m) (mt_mtime m)) (map (\<lambda>(i, n). (i, view (cs @ [i]) n)) es))"

text \<open>
  What an image should look like after a round trip: every file has minimal permissions,
  and sockets are gone. Entries are in the order of their names.
\<close>

fun expected :: "string list \<Rightarrow> node \<Rightarrow> node" where
  "expected cs (Dir m es) = (if cs = git_dir_parts then Reg (view_meta 0 0) []
     else Dir (view_meta (mt_mode m OR min_perms K_Dir) (mt_mtime m))
       (sort_key fst (filter (\<lambda>(i, n). node_kind n \<noteq> K_Sock) (map (\<lambda>(i, n). (i, expected (cs @ [i]) n)) es))))"
| "expected cs n = view cs (chmod_min n)"

definition leaf_p :: "node \<Rightarrow> bool" where "leaf_p n \<longleftrightarrow> node_kind n \<noteq> K_Dir"

fun core :: "node \<Rightarrow> kind \<times> string" where
  "core (Reg m c) = (K_Reg, c)"
| "core (Lnk m t) = (K_Lnk, t)"
| "core (Special k m) = (k, [])"
| "core (Dir m es) = (K_Dir, [])"

lemma git_dir_parts_ne [simp]: "[] \<noteq> git_dir_parts" "git_dir_parts \<noteq> []"
  by (simp_all add: git_dir_parts_def)

lemma view_leaf: "leaf_p n \<Longrightarrow> cs \<noteq> git_dir_parts \<Longrightarrow> view cs n = view [] n"
  by (cases n) (auto simp: leaf_p_def)

lemma expected_leaf: "leaf_p n \<Longrightarrow> cs \<noteq> git_dir_parts \<Longrightarrow> expected cs n = view [] (chmod_min n)"
  using view_leaf [of "chmod_min n" cs] by (cases n) (auto simp: leaf_p_def chmod_min_def)

lemma expected_git_dir: "expected git_dir_parts n = Reg (view_meta 0 0) []"
  by (cases n) (simp_all add: chmod_min_def)

lemma view_git_dir: "view git_dir_parts n = Reg (view_meta 0 0) []"
  by (cases n) simp_all

definition node_wf :: "node \<Rightarrow> bool" where
  \<comment> \<open>the type of a special file is one of the special types\<close>
  "node_wf n = (case n of Special k m \<Rightarrow> k \<in> {K_Fifo, K_Sock, K_Chr, K_Blk} | _ \<Rightarrow> True)"

lemma view_leaf_eqI:
  assumes "leaf_p x" "node_wf x" "node_wf y" "core x = core y"
    "node_kind x \<noteq> K_Lnk \<Longrightarrow> mt_mode (node_meta x) = mt_mode (node_meta y) \<and> mt_mtime (node_meta x) = mt_mtime (node_meta y)"
  shows "view [] x = view [] y"
  using assms by (cases x; cases y) (auto simp: leaf_p_def node_wf_def)

lemma view_leaf_eqD:
  assumes "leaf_p x" "node_wf x" "node_wf y" "view [] x = view [] y"
  shows "core x = core y \<and> node_kind y = node_kind x \<and> leaf_p y \<and>
    (node_kind x \<noteq> K_Lnk \<longrightarrow> mt_mode (node_meta x) = mt_mode (node_meta y) \<and> mt_mtime (node_meta x) = mt_mtime (node_meta y))"
  using assms by (cases x; cases y) (auto simp: leaf_p_def view_meta_def)

lemma node_meta_update_simps [simp]:
  "node_kind (node_meta_update f n) = node_kind n"
  "node_meta (node_meta_update f n) = f (node_meta n)"
  "core (node_meta_update f n) = core n"
  "node_wf (node_meta_update f n) = node_wf n"
  "leaf_p (node_meta_update f n) = leaf_p n"
  "node_entries (node_meta_update f n) = node_entries n"
  by (cases n; simp add: node_wf_def leaf_p_def)+

lemma chmod_min_simps [simp]:
  "node_kind (chmod_min n) = node_kind n" "core (chmod_min n) = core n" "node_wf (chmod_min n) = node_wf n"
  "leaf_p (chmod_min n) = leaf_p n" "node_entries (chmod_min n) = node_entries n"
  "mt_ino (node_meta (chmod_min n)) = mt_ino (node_meta n)" "mt_size (node_meta (chmod_min n)) = mt_size (node_meta n)"
  "mt_nlink (node_meta (chmod_min n)) = mt_nlink (node_meta n)"
  by (simp_all add: chmod_min_def)

text \<open>Git brings back the files it stored, in any order, without their metadata unless nothing was checked out.\<close>

fun git_same :: "bool \<Rightarrow> node \<Rightarrow> node \<Rightarrow> bool" where
  "git_same quick (Reg m c) n' \<longleftrightarrow> (case n' of Reg m' c' \<Rightarrow> c' = c \<and> (quick \<longrightarrow> m' = m) | _ \<Rightarrow> False)"
| "git_same quick (Lnk m t) n' \<longleftrightarrow> (case n' of Lnk m' t' \<Rightarrow> t' = t | _ \<Rightarrow> False)"
| "git_same quick (Special k m) n' \<longleftrightarrow> n' = Special k m"
| "git_same quick (Dir m es) n' \<longleftrightarrow> (case n' of
     Dir m' es' \<Rightarrow> fst ` set es' = fst ` set es \<and> distinct (map fst es')
       \<and> list_all (\<lambda>(i, n). case map_of es' i of None \<Rightarrow> False | Some x \<Rightarrow> git_same quick n x) es
   | _ \<Rightarrow> False)"

section \<open>Images that survive the round trip\<close>

text \<open>
  No RPM data base support files; names that are file names and are not reserved for
  renamed files; links with the same inode are the same file, as the map \<open>grp\<close> says; and
  a large file's name determines the file, as the map \<open>big\<close> says.
\<close>

definition entry_names_ok :: "(string \<times> node) list \<Rightarrow> bool" where
  "entry_names_ok es \<longleftrightarrow> distinct (map fst es) \<and> (\<forall>i \<in> fst ` set es. plain_comps [i] \<and> \<not> prefix ''.weirdal_'' i)"

definition leaf_ok :: "fm_env \<Rightarrow> (string \<Rightarrow> node) \<Rightarrow> (nat \<Rightarrow> node) \<Rightarrow> path \<Rightarrow> node \<Rightarrow> bool" where
  "leaf_ok e big grp p n \<longleftrightarrow> node_wf n \<and> \<not> rpm_db p
     \<and> (mt_nlink (node_meta n) > 1 \<longrightarrow> view [] (grp (mt_ino (node_meta n))) = view [] (chmod_min n))
     \<and> (node_kind n = K_Reg \<and> mt_size (node_meta n) \<ge> fe_threshold e \<longrightarrow> (case large_name_get e (stat_cache_update (chmod_min n) (fm_init e p n)) of
          Inl x \<Rightarrow> True | Inr l \<Rightarrow> view [] (big l) = view [] (chmod_min n)))"

fun tree_ok :: "fm_env \<Rightarrow> (string \<Rightarrow> node) \<Rightarrow> (nat \<Rightarrow> node) \<Rightarrow> path \<Rightarrow> node \<Rightarrow> bool" where
  "tree_ok e big grp p (Dir m es) \<longleftrightarrow>
     p = git_dir \<or> \<not> rpm_db p \<and> entry_names_ok es \<and> list_all (\<lambda>(i, n). tree_ok e big grp (floordiv p i) n) es"
| "tree_ok e big grp p n \<longleftrightarrow> p = git_dir \<or> leaf_ok e big grp p n"


section \<open>What preparing a file leads to\<close>

definition link_noted :: "node \<Rightarrow> fm_attrs \<Rightarrow> walk_state \<Rightarrow> (nat, path) dict" where
  "link_noted n a st =
     (if nlink_now n st > 1 \<and> fa_kind a \<noteq> K_Dir then AList.update (mt_ino (node_meta n)) (fa_path a) (ws_hardlinks st)
      else ws_hardlinks st)"

definition kept_name :: "path \<Rightarrow> string \<Rightarrow> string \<Rightarrow> bool" where
  "kept_name p i j \<longleftrightarrow> (if git_compatible_p p then j = i else \<exists>q. git_escaped p = Inr q \<and> j = path_name q)"

lemma prepare_leaf_cases:
  assumes "prepare_leaf e i n a cs st = Inr (fm, kept, st')" "fa_large_name a = None" "fa_hardlink_to a = None"
  obtains
    (link) first where "fa_kind a \<noteq> K_Dir" "nlink_now n st > 1" "map_of (ws_hardlinks st) (mt_ino (node_meta n)) = Some first"
      "fm = FM (a\<lparr>fa_hardlink_to := Some first\<rparr>) cs" "kept = None" "ws_hardlinks st' = ws_hardlinks st"
      "ws_large st' = ws_large st"
  | (large) l where "fa_kind a = K_Reg \<and> fa_size a \<ge> fe_threshold e" "large_name_get e a = Inr l" "fm = FM (a\<lparr>fa_large_name := Some l\<rparr>) cs" "kept = None"
      "ws_hardlinks st' = link_noted n a st"
      "ws_large st' = (if map_of (ws_large st) l \<noteq> None then ws_large st else AList.update l n (ws_large st))"
  | (empty) "fa_kind a = K_Dir" "empty_dir_p (FM a cs)" "node_entries n = []" "fm = FM a cs" "kept = None"
      "ws_hardlinks st' = link_noted n a st" "ws_large st' = ws_large st"
  | (fifo) "fa_kind a = K_Fifo" "fm = FM a cs" "kept = None"
      "ws_hardlinks st' = link_noted n a st" "ws_large st' = ws_large st"
  | (kept) j where "\<not> empty_dir_p (FM a cs)" "fa_kind a \<noteq> K_Fifo" "fm = FM a cs" "kept = Some (j, n)" "kept_name (fa_path a) i j"
      "ws_hardlinks st' = link_noted n a st" "ws_large st' = ws_large st"
proof (cases "if nlink_now n st > 1 \<and> fa_kind a \<noteq> K_Dir then map_of (ws_hardlinks st) (mt_ino (node_meta n)) else None")
  case (Some first)
  with assms(1) have "fm = FM (a\<lparr>fa_hardlink_to := Some first\<rparr>) cs" "kept = None" "st' = note_deleted n st"
    by (auto simp: prepare_leaf_def Let_def)
  then show ?thesis using Some by (intro link [of first]) (auto simp: note_deleted_def split: if_splits)
next
  case None
  have a: "a\<lparr>fa_large_name := None\<rparr> = a" using assms(2) by simp
  let ?st = "if nlink_now n st > 1 \<and> fa_kind a \<noteq> K_Dir
      then st\<lparr>ws_hardlinks := AList.update (mt_ino (node_meta n)) (fa_path a) (ws_hardlinks st)\<rparr> else st"
  have hl: "ws_hardlinks ?st = link_noted n a st" "ws_large ?st = ws_large st"
    by (simp_all add: link_noted_def)
  show ?thesis
  proof (cases "fa_size a \<ge> fe_threshold e \<and> fa_kind a = K_Reg \<and> path_name (fa_path a) \<noteq> path_name pickle_path")
    case True
    then have "\<not> empty_dir_p (FM (a\<lparr>fa_large_name := x\<rparr>) cs)" for x by simp
    with assms(1) None True obtain l st1 where l: "large_prepare e a n ?st = Inr (l, st1)"
      and "fm = FM (a\<lparr>fa_large_name := Some l\<rparr>) cs" "kept = None" "st' = st1"
      unfolding prepare_leaf_def Let_def None option.case if_P [OF True] bindr_Inr_iff
      by (force simp: bindr_Inr_iff simp del: empty_dir_p.simps split: if_splits)
    moreover from l have "large_name_get e a = Inr l" "ws_hardlinks st1 = link_noted n a st"
      "ws_large st1 = (if map_of (ws_large st) l \<noteq> None then ws_large st else AList.update l n (ws_large st))"
      using hl by (auto simp: large_prepare_def res_simps note_deleted_def)
    ultimately show ?thesis using True by (intro large [of l]) auto
  next
    case False
    have hl': "ws_hardlinks (note_deleted n ?st) = link_noted n a st" "ws_large (note_deleted n ?st) = ws_large st"
      using hl by (simp_all add: note_deleted_def)
    have m: "(if empty_dir_p (FM a cs) then bindr (guard (node_entries n = []) (Fatal ''can't rmdir: %s'')) (\<lambda>_. Inr (FM a cs, None, ?st))
        else if fa_kind a = K_Fifo then Inr (FM a cs, None, note_deleted n ?st)
        else bindr (if git_compatible_p (fa_path a) then Inr i else bindr (git_escaped (fa_path a)) (\<lambda>q. Inr (path_name q)))
              (\<lambda>i. Inr (FM a cs, Some (i, n), ?st))) = Inr (fm, kept, st')"
      using assms(1) False None
      unfolding prepare_leaf_def Let_def None option.case by (simp only: if_False bindr.simps prod.case a option.simps HOL.simp_thms)
    consider (E) "empty_dir_p (FM a cs)" | (F) "\<not> empty_dir_p (FM a cs)" "fa_kind a = K_Fifo"
      | (K) "\<not> empty_dir_p (FM a cs)" "fa_kind a \<noteq> K_Fifo" by blast
    then show ?thesis
    proof cases
      case E
      with m have "node_entries n = []" "fm = FM a cs" "kept = None" "st' = ?st"
        by (simp_all only: if_True res_simps) auto
      with E hl show ?thesis by (intro empty) (simp_all only: empty_dir_p.simps not_False_eq_True)
    next
      case F
      from m have "fm = FM a cs" "kept = None" "st' = note_deleted n ?st" unfolding if_not_P [OF F(1)] if_P [OF F(2)] by simp_all
      with F hl' show ?thesis by (intro fifo) (simp_all only:)
    next
      case K
      from m obtain j where "fm = FM a cs" "kept = Some (j, n)" "st' = ?st" "kept_name (fa_path a) i j"
        unfolding if_not_P [OF K(1)] if_not_P [OF K(2)] bindr_Inr_iff
        by (auto simp: kept_name_def bindr_Inr_iff split: if_splits)
      with K hl show ?thesis by (intro kept [of j]) (simp_all only: not_False_eq_True)
    qed
  qed
qed


section \<open>What restoring a file leads to\<close>

definition sets_metadata :: "restore_env \<Rightarrow> fm_attrs \<Rightarrow> bool" where
  "sets_metadata e a \<longleftrightarrow>
     (\<not> re_quick e \<or> fa_hardlink_to a \<noteq> None \<or> fa_kind a = K_Dir \<or> fa_kind a = K_Fifo) \<and> fa_kind a \<noteq> K_Lnk"

definition with_xattrs :: "restore_env \<Rightarrow> fm_attrs \<Rightarrow> node \<Rightarrow> node" where
  "with_xattrs e a n =
     (if fa_xattrs a = [] \<or> \<not> re_xattrs e then n
      else node_meta_update (\<lambda>m. m\<lparr>mt_xattrs := dict_update (mt_xattrs m) (fa_xattrs a)\<rparr>) n)"

definition finished :: "restore_env \<Rightarrow> fm_attrs \<Rightarrow> node \<Rightarrow> node" where
  "finished e a n = (if sets_metadata e a then set_times_mode (fa_atime a) (fa_mtime a) (fa_mode a) n else n)"

lemma set_xattrs_Some: "set_xattrs e (fa_xattrs a) (Some n) = Inr (Some (with_xattrs e a n))"
  by (simp add: set_xattrs_def with_xattrs_def)

lemma restore_metadata_Some: "restore_metadata e a (Some n) = Inr (Some (finished e a n))"
  by (simp add: restore_metadata_def finished_def sets_metadata_def)

lemma finished_simps [simp]:
  "core (finished e a n) = core n" "node_kind (finished e a n) = node_kind n" "node_wf (finished e a n) = node_wf n"
  "core (with_xattrs e a n) = core n" "node_kind (with_xattrs e a n) = node_kind n" "node_wf (with_xattrs e a n) = node_wf n"
  "mt_mode (node_meta (with_xattrs e a n)) = mt_mode (node_meta n)"
  "mt_mtime (node_meta (with_xattrs e a n)) = mt_mtime (node_meta n)"
  "node_entries (with_xattrs e a n) = node_entries n" "node_entries (finished e a n) = node_entries n"
  "sets_metadata e a \<Longrightarrow> mt_mode (node_meta (finished e a n)) = fa_mode a"
  "sets_metadata e a \<Longrightarrow> mt_mtime (node_meta (finished e a n)) = fa_mtime a"
  "\<not> sets_metadata e a \<Longrightarrow> finished e a n = n"
  by (simp_all add: finished_def with_xattrs_def set_times_mode_def)

lemma git_restore_leaf:
  assumes "\<not> fa_dont_restore a" "\<not> rpm_db (fa_path a)"
    and "restore_entry e i a (empty_dir_p (FM a [])) es st = Inr (Some n, es', st')"
  shows "git_restore e i (FM a []) es st =
    Inr (Some (finished e a (with_xattrs e a n)), es', note_seen (fa_path a) (Some (finished e a (with_xattrs e a n))) st')"
  using assms by (simp add: set_xattrs_Some restore_metadata_Some)

lemma leaf_restored_view:
  assumes "leaf_p x" "node_wf x" "node_wf n" "core n = core x"
    and "fa_mode a = mt_mode (node_meta x)" "fa_mtime a = mt_mtime (node_meta x)"
    and "node_kind x \<noteq> K_Lnk \<Longrightarrow> sets_metadata e a
      \<or> mt_mode (node_meta n) = mt_mode (node_meta x) \<and> mt_mtime (node_meta n) = mt_mtime (node_meta x)"
  shows "view [] (finished e a (with_xattrs e a n)) = view [] x"
proof (rule view_leaf_eqI [symmetric])
  show "mt_mode (node_meta x) = mt_mode (node_meta (finished e a (with_xattrs e a n)))
      \<and> mt_mtime (node_meta x) = mt_mtime (node_meta (finished e a (with_xattrs e a n)))" if "node_kind x \<noteq> K_Lnk"
    using assms(5,6) assms(7) [OF that] by (cases "sets_metadata e a") simp_all
qed (use assms in simp_all)

text \<open>Deleting entries from a directory's listing\<close>

definition without :: "string set \<Rightarrow> ('k \<Rightarrow> string) \<Rightarrow> 'k list \<Rightarrow> 'k list" where
  "without xs f es = filter (\<lambda>x. f x \<notin> xs) es"

lemma delete_without: "AList.delete i es = without {i} fst es"
  by (auto simp: without_def AList.delete_eq case_prod_unfold intro: filter_cong)

lemma without_without [simp]: "without a f (without b f es) = without (a \<union> b) f es"
  by (simp add: without_def conj_commute)

lemma without_absent: "map_of es i = None \<Longrightarrow> without {i} fst es = es"
  by (auto simp: without_def filter_id_conv map_of_eq_None_iff)

lemma map_of_without: "map_of (without xs fst es) i = (if i \<in> xs then None else map_of es i)"
  by (induction es) (auto simp: without_def)


section \<open>One file there and back\<close>

definition entry_there :: "bool \<Rightarrow> (string, node) dict \<Rightarrow> string \<Rightarrow> (string \<times> node) option \<Rightarrow> bool" where
  "entry_there quick es i kept \<longleftrightarrow>
     (case kept of
        None \<Rightarrow> map_of es i = None
      | Some (j, k) \<Rightarrow> (\<exists>k'. map_of es j = Some k' \<and> git_same quick k k') \<and> (j \<noteq> i \<longrightarrow> map_of es i = None))"

definition entry_names :: "string \<Rightarrow> (string \<times> node) option \<Rightarrow> string set" where
  "entry_names i kept = insert i (case kept of None \<Rightarrow> {} | Some (j, k) \<Rightarrow> {j})"

definition links_there :: "(nat \<Rightarrow> node) \<Rightarrow> (nat, path) dict \<Rightarrow> restore_state \<Rightarrow> bool" where
  "links_there grp hl st \<longleftrightarrow> (\<forall>ino q. map_of hl ino = Some q \<longrightarrow>
     (\<exists>r. map_of (rs_seen st) q = Some r \<and> leaf_p r \<and> node_wf r \<and> view [] r = view [] (grp ino)))"

definition large_there :: "(string \<Rightarrow> node) \<Rightarrow> (string, node) dict \<Rightarrow> bool" where
  "large_there big l \<longleftrightarrow> (\<forall>name x. map_of l name = Some x \<longrightarrow>
     leaf_p x \<and> node_wf x \<and> view [] x = view [] (big name))"

lemma fm_init_simps [simp]:
  "fa_kind (stat_cache_update m (fm_init e p n)) = node_kind n"
  "fa_path (stat_cache_update m (fm_init e p n)) = p"
  "fa_mode (stat_cache_update m (fm_init e p n)) = mt_mode (node_meta m)"
  "fa_mtime (stat_cache_update m (fm_init e p n)) = mt_mtime (node_meta m)"
  "fa_size (stat_cache_update m (fm_init e p n)) = mt_size (node_meta m)"
  "fa_large_name (stat_cache_update m (fm_init e p n)) = None"
  "fa_hardlink_to (stat_cache_update m (fm_init e p n)) = None"
  "\<not> fa_dont_restore (stat_cache_update m (fm_init e p n))"
  by (simp_all add: stat_cache_update_def fm_init_def Let_def)

lemma nlink_now_le: "nlink_now n st > 1 \<Longrightarrow> mt_nlink (node_meta n) > 1"
  by (simp add: nlink_now_def)

lemma git_same_leaf:
  assumes "git_same quick k k'" "leaf_p k" "node_wf k"
  shows "core k' = core k \<and> leaf_p k' \<and> node_wf k' \<and> node_kind k' = node_kind k
    \<and> (quick \<and> node_kind k \<noteq> K_Lnk \<longrightarrow> node_meta k' = node_meta k)"
  using assms by (cases k; cases k') (auto simp: leaf_p_def node_wf_def)

lemma leaf_roundtrip:
  fixes e p n
  defines "a \<equiv> stat_cache_update (chmod_min n) (fm_init e p n)"
  assumes prep: "prepare_leaf e i (chmod_min n) a [] st = Inr (fm, kept, st')"
    and n: "leaf_p n" "node_kind n \<in> {K_Reg, K_Lnk, K_Fifo}" and ok: "leaf_ok e big grp p n"
    and large: "map_of (ws_large st') \<subseteq>\<^sub>m map_of (re_large R)" "large_there big (re_large R)"
    and links: "links_there grp (ws_hardlinks st) rst"
    and there: "entry_there (re_quick R) es i kept"
  shows "\<exists>r rst'. git_restore R i fm es rst = Inr (Some r, without (entry_names i kept) fst es, rst')
    \<and> leaf_p r \<and> node_wf r \<and> view [] r = view [] (chmod_min n)
    \<and> rs_seen rst' = AList.update p r (rs_seen rst)
    \<and> (ws_hardlinks st' = ws_hardlinks st
        \<or> ws_hardlinks st' = AList.update (mt_ino (node_meta n)) p (ws_hardlinks st) \<and> mt_nlink (node_meta n) > 1)"
proof -
  let ?x = "chmod_min n"
  have x: "leaf_p ?x" "node_wf ?x" "node_kind ?x = node_kind n" using n ok by (simp_all add: leaf_ok_def)
  have sz: "fa_size a = mt_size (node_meta n)" by (simp add: a_def)
  have a: "fa_kind a = node_kind n" "fa_path a = p" "fa_mode a = mt_mode (node_meta ?x)" "fa_mtime a = mt_mtime (node_meta ?x)"
    "fa_large_name a = None" "fa_hardlink_to a = None" "\<not> fa_dont_restore a" by (simp_all add: a_def)
  have leaf: "node_kind n \<noteq> K_Dir" using n by (simp add: leaf_p_def)
  have rpm: "\<not> rpm_db p" using ok by (simp add: leaf_ok_def)
  have noted: "link_noted ?x a st = ws_hardlinks st
      \<or> link_noted ?x a st = AList.update (mt_ino (node_meta n)) p (ws_hardlinks st) \<and> mt_nlink (node_meta n) > 1"
    using nlink_now_le [of ?x st] a by (auto simp: link_noted_def)
  text \<open>It is enough to find the file that \<open>restore_entry\<close> puts in place.\<close>
  have goal: ?thesis
    if e: "restore_entry R i a' False es rst = Inr (Some y, without (entry_names i kept) fst es, rst1)"
      and fm: "fm = FM a' []" and y: "node_wf y" "core y = core ?x"
      and a': "fa_kind a' = node_kind n" "fa_path a' = p" "fa_mode a' = fa_mode a" "fa_mtime a' = fa_mtime a" "\<not> fa_dont_restore a'"
      and s: "rs_seen rst1 = rs_seen rst"
      and md: "node_kind ?x \<noteq> K_Lnk \<Longrightarrow> sets_metadata R a'
        \<or> mt_mode (node_meta y) = mt_mode (node_meta ?x) \<and> mt_mtime (node_meta y) = mt_mtime (node_meta ?x)"
      and hl: "ws_hardlinks st' = ws_hardlinks st \<or> ws_hardlinks st' = link_noted ?x a st" for a' y rst1
  proof -
    let ?r = "finished R a' (with_xattrs R a' y)"
    have "git_restore R i fm es rst =
        Inr (Some ?r, without (entry_names i kept) fst es, note_seen p (Some ?r) rst1)"
      using git_restore_leaf [of a' R i es rst y _ rst1] e a' rpm leaf unfolding fm by simp
    moreover have v: "view [] ?r = view [] ?x"
      using leaf_restored_view [of ?x y a' R] x y a' a md by simp
    moreover from view_leaf_eqD [OF x(1,2) _ v [symmetric]] y have "leaf_p ?r" "node_wf ?r" by simp_all
    ultimately show ?thesis using s hl noted by (auto simp: note_seen_def)
  qed
  from prep a(5,6) show ?thesis
  proof (cases rule: prepare_leaf_cases)
    case (link first)
    have ino: "mt_nlink (node_meta n) > 1" using link(2) nlink_now_le [of ?x st] by simp
    from links link(3) obtain r where r: "map_of (rs_seen rst) first = Some r" "leaf_p r" "node_wf r"
      and v: "view [] r = view [] (grp (mt_ino (node_meta n)))" by (auto simp: links_there_def)
    have vx: "view [] ?x = view [] r" using v ok ino by (simp add: leaf_ok_def)
    note D = view_leaf_eqD [OF x(1,2) r(3) vx]
    have absent: "map_of es i = None" using there link(5) by (simp add: entry_there_def)
    show ?thesis
    proof (rule goal [of "a\<lparr>fa_hardlink_to := Some first\<rparr>" r rst])
      show "restore_entry R i (a\<lparr>fa_hardlink_to := Some first\<rparr>) False es rst = Inr (Some r, without (entry_names i kept) fst es, rst)"
        using r absent link(5) by (simp add: restore_entry_def Let_def entry_names_def without_absent)
    qed (use link a r D in \<open>auto simp: sets_metadata_def\<close>)
  next
    case (large l)
    have "map_of (ws_large st') l \<noteq> None" using large(6) by (simp add: dict_simps)
    then obtain y where y: "map_of (re_large R) l = Some y" using assms(6) by (auto simp: map_le_def) (metis domI)
    have v: "view [] ?x = view [] y"
      using assms(7) y ok large(1,2) a(1) sz unfolding large_there_def leaf_ok_def a_def [symmetric] by simp
    have "node_wf y" using assms(7) y by (simp add: large_there_def)
    note D = view_leaf_eqD [OF x(1,2) this v]
    show ?thesis
    proof (rule goal [of "a\<lparr>fa_large_name := Some l\<rparr>" "node_meta_update (\<lambda>m. m\<lparr>mt_ino := rs_inode rst, mt_nlink := 1\<rparr>) y"])
      show "restore_entry R i (a\<lparr>fa_large_name := Some l\<rparr>) False es rst =
          Inr (Some (node_meta_update (\<lambda>m. m\<lparr>mt_ino := rs_inode rst, mt_nlink := 1\<rparr>) y), without (entry_names i kept) fst es,
            rst\<lparr>rs_inode := Suc (rs_inode rst)\<rparr>)"
        using y a large(4) by (simp add: restore_entry_def Let_def entry_names_def delete_without)
    qed (use large a \<open>node_wf y\<close> D in auto)
  next
    case empty
    with leaf a show ?thesis by simp
  next
    case fifo
    then have k: "node_kind n = K_Fifo" using a by simp
    have absent: "map_of es i = None" using there fifo(3) by (simp add: entry_there_def)
    have core: "core ?x = (K_Fifo, [])" using k by (cases n) (auto simp: chmod_min_def)
    show ?thesis
    proof (rule goal [of a "Special K_Fifo (new_meta rst)" "rst\<lparr>rs_inode := Suc (rs_inode rst)\<rparr>"])
      show "restore_entry R i a False es rst = Inr (Some (Special K_Fifo (new_meta rst)), without (entry_names i kept) fst es,
          rst\<lparr>rs_inode := Suc (rs_inode rst)\<rparr>)"
        using absent fifo a by (simp add: restore_entry_def Let_def entry_names_def without_absent)
    qed (use fifo a k core in \<open>auto simp: sets_metadata_def node_wf_def\<close>)
  next
    case (kept j)
    then obtain y where y: "map_of es j = Some y" "git_same (re_quick R) ?x y" and abs: "j \<noteq> i \<longrightarrow> map_of es i = None"
      using there by (auto simp: entry_there_def)
    note S = git_same_leaf [OF y(2) x(1,2)]
    have names: "entry_names i (Some (j, ?x)) = {i, j}" by (simp add: entry_names_def insert_commute)
    show ?thesis
    proof (rule goal [of a y rst])
      show "restore_entry R i a False es rst = Inr (Some y, without (entry_names i kept) fst es, rst)"
        using kept y abs a unfolding kept(4) names
        by (auto simp: restore_entry_def Let_def kept_name_def delete_without insert_commute split: if_splits)
    qed (use kept a S n in \<open>auto simp: sets_metadata_def\<close>)
  qed
qed


section \<open>Trees there and back\<close>

definition below :: "string list \<Rightarrow> path \<Rightarrow> bool" where
  "below cs q \<longleftrightarrow> (\<exists>ds. plain_comps ds \<and> q = rel_path (cs @ ds))"

lemma below_self: "below cs (rel_path cs)"
  unfolding below_def by (intro exI [of _ "[]"]) simp

lemma below_child: "plain_comps [i] \<Longrightarrow> below (cs @ [i]) q \<Longrightarrow> below cs q"
  unfolding below_def by (metis append_assoc plain_comps_simps(3))

lemma below_disjoint:
  assumes "plain_comps (cs @ [i])" "plain_comps (cs @ [j])" "i \<noteq> j" "below (cs @ [i]) q"
  shows "\<not> below (cs @ [j]) q"
  using assms rel_path_inj unfolding below_def by (metis append_assoc append_Cons append_Nil list.inject plain_comps_simps(3) same_append_eq)

lemma not_below_child_self:
  assumes "plain_comps (cs @ [i])"
  shows "\<not> below (cs @ [i]) (rel_path cs)"
proof
  assume "below (cs @ [i]) (rel_path cs)"
  then obtain ds where "plain_comps ds" "rel_path cs = rel_path (cs @ i # ds)" unfolding below_def by auto
  with rel_path_inj [of cs "cs @ i # ds"] assms show False by auto
qed

definition seen_frame :: "(path \<Rightarrow> bool) \<Rightarrow> restore_state \<Rightarrow> restore_state \<Rightarrow> bool" where
  "seen_frame B st st' \<longleftrightarrow> (\<forall>x. \<not> B x \<longrightarrow> map_of (rs_seen st') x = map_of (rs_seen st) x)"

definition links_new :: "(path \<Rightarrow> bool) \<Rightarrow> (nat, path) dict \<Rightarrow> (nat, path) dict \<Rightarrow> bool" where
  "links_new B hl hl' \<longleftrightarrow> (\<forall>ino q. map_of hl' ino = Some q \<longrightarrow> map_of hl ino = Some q \<or> B q)"

definition links_outside :: "(path \<Rightarrow> bool) \<Rightarrow> (nat, path) dict \<Rightarrow> bool" where
  "links_outside B hl \<longleftrightarrow> (\<forall>ino q. map_of hl ino = Some q \<longrightarrow> \<not> B q)"

lemma seen_frame_trans:
  "seen_frame A s t \<Longrightarrow> seen_frame B t u \<Longrightarrow> (\<And>x. A x \<or> B x \<Longrightarrow> C x) \<Longrightarrow> seen_frame C s u"
  unfolding seen_frame_def by metis

lemma links_new_trans:
  "links_new A h h' \<Longrightarrow> links_new B h' h'' \<Longrightarrow> (\<And>x. A x \<or> B x \<Longrightarrow> C x) \<Longrightarrow> links_new C h h''"
  unfolding links_new_def by metis

lemma links_outside_new:
  "links_outside C h \<Longrightarrow> links_new B h h' \<Longrightarrow> (\<And>x. B x \<Longrightarrow> \<not> C x) \<Longrightarrow> links_outside C h'"
  unfolding links_outside_def links_new_def by metis

text \<open>The large file storage only grows.\<close>

lemma update_map_le: "map_of d k = None \<Longrightarrow> map_of d \<subseteq>\<^sub>m map_of (AList.update k v d)"
  by (auto simp: map_le_def dict_simps)

lemma prepare_leaf_large:
  "prepare_leaf e i n a cs st = Inr (fm, kept, st') \<Longrightarrow> fa_large_name a = None \<Longrightarrow> fa_hardlink_to a = None \<Longrightarrow>
   map_of (ws_large st) \<subseteq>\<^sub>m map_of (ws_large st')"
  by (erule prepare_leaf_cases) (auto simp: update_map_le split: if_splits)

lemma prepare_large:
  "git_prepare e p i n st = Inr (fm, kept, st') \<Longrightarrow> map_of (ws_large st) \<subseteq>\<^sub>m map_of (ws_large st')"
  "prepare_entries e p es st = Inr (fms, es', st') \<Longrightarrow> map_of (ws_large st) \<subseteq>\<^sub>m map_of (ws_large st')"
proof (induction e p i n st and e p es st arbitrary: fm kept st' and fms es' st' rule: git_prepare_prepare_entries.induct)
  case (1 e p i n st)
  note IH = "1.IH" and prems = "1.prems"
  show ?case
  proof (cases n)
    case (Dir m es)
    with prems IH [OF refl _ refl Dir] show ?thesis
      by (auto simp: Let_def res_simps note_deleted_def dest!: prepare_leaf_large split: if_splits intro: map_le_trans)
  qed (use prems in \<open>auto simp: Let_def res_simps note_deleted_def dest!: prepare_leaf_large split: if_splits\<close>)
next
  case (3 e p i n es st)
  from "3.prems" obtain fm kept st1 fms1 es1 where g: "git_prepare e (floordiv p i) i n st = Inr (fm, kept, st1)"
    and r: "prepare_entries e p es st1 = Inr (fms1, es1, st')" by (auto simp: res_simps)
  from "3.IH"(1) [OF g] "3.IH"(2) [OF g refl refl r] show ?case by (rule map_le_trans)
qed simp


text \<open>Names\<close>

lemma set_replace_str: "set (replace_str a b s) \<subseteq> set s \<union> set b"
proof (induction a b s rule: replace_str.induct)
  case (1 old new s)
  show ?case
  proof (cases "old = [] \<or> s = []")
    case False
    note E = replace_str.simps [of old new s]
    have d: "set (drop (length old) s) \<subseteq> set s" by (rule set_drop_subset)
    have h: "set (tl s) \<subseteq> set s \<and> hd s \<in> set s" using False by (cases s) auto
    show ?thesis
    proof (cases "prefix old s")
      case True
      then have "replace_str old new s = new @ replace_str old new (drop (length old) s)" using E False by simp
      then show ?thesis using "1.IH"(1) [OF False True] d by auto
    next
      case nP: False
      then have "replace_str old new s = hd s # replace_str old new (tl s)" using E False by simp
      then show ?thesis using "1.IH"(2) [OF False nP] h by auto
    qed
  qed (use replace_str.simps [of old new s] in simp)
qed

lemma replace_str_prefix: "old \<noteq> [] \<Longrightarrow> replace_str old new (old @ s) = new @ replace_str old new s"
proof -
  assume "old \<noteq> []"
  moreover have "replace_str old new (old @ s) = (if old = [] \<or> old @ s = [] then old @ s
      else if prefix old (old @ s) then new @ replace_str old new (drop (length old) (old @ s))
      else hd (old @ s) # replace_str old new (tl (old @ s)))" by (rule replace_str.simps)
  ultimately show ?thesis by simp
qed

lemma escaped_name:
  assumes "plain_comps (cs @ [i])" "prefix ''.git'' i"
  shows "\<exists>q. git_escaped (rel_path (cs @ [i])) = Inr q \<and> prefix ''.weirdal_'' (path_name q)"
proof -
  obtain s where i: "i = ''.git'' @ s" using assms(2) by (auto elim: prefixE)
  let ?j = "replace_str ''.git'' ''.weirdal_'' i"
  have j: "?j = ''.weirdal_'' @ replace_str ''.git'' ''.weirdal_'' s"
    unfolding i by (rule replace_str_prefix) simp
  have "slash \<notin> set ?j" using set_replace_str [of "''.git''" "''.weirdal_''" i] assms(1) by auto
  then have ok: "plain_comps (cs @ [?j])" using assms(1) j by auto
  note R = rel_path_snoc_plain [OF assms(1)]
  have "git_escaped (rel_path (cs @ [i])) = Inr (rel_path (cs @ [?j]))"
    using R floordiv_rel_path [OF ok] by (simp add: git_escaped_def with_name_def)
  moreover have "path_name (rel_path (cs @ [?j])) = ?j" by (rule rel_path_snoc_plain(3) [OF ok])
  ultimately show ?thesis using j by auto
qed

lemma kept_name_cases:
  assumes "plain_comps (cs @ [i])" "kept_name (rel_path (cs @ [i])) i j"
  shows "j = i \<or> prefix ''.git'' i \<and> prefix ''.weirdal_'' j"
proof (cases "prefix ''.git'' i")
  case True
  with escaped_name [OF assms(1) True] assms(2) rel_path_snoc_plain(3) [OF assms(1)] show ?thesis
    by (auto simp: kept_name_def git_compatible_p_def)
next
  case False
  with assms(2) rel_path_snoc_plain(3) [OF assms(1)] show ?thesis
    by (simp add: kept_name_def git_compatible_p_def)
qed

lemma prepare_leaf_name:
  "prepare_leaf e i n a cs st = Inr (fm, Some (j, k), st') \<Longrightarrow> fa_large_name a = None \<Longrightarrow> fa_hardlink_to a = None \<Longrightarrow>
   kept_name (fa_path a) i j"
  by (erule prepare_leaf_cases) auto

lemma git_prepare_name:
  assumes "git_prepare e p i n st = Inr (fm, Some (j, k), st')"
  shows "j = i \<or> kept_name p i j"
  using assms
  by (cases n) (auto simp: Let_def res_simps dest!: prepare_leaf_name split: if_splits)

lemma git_prepare_kept:
  assumes "git_prepare e (rel_path (cs @ [i])) i n st = Inr (fm, kept, st')" "plain_comps (cs @ [i])" "kept = Some (j, k)"
  shows "j = i \<or> prefix ''.git'' i \<and> prefix ''.weirdal_'' j"
  using git_prepare_name [of e "rel_path (cs @ [i])" i n st fm j k st'] assms kept_name_cases by blast

lemma prepare_entries_names:
  assumes "prepare_entries e (rel_path cs) es st = Inr (fms, es', st')" "plain_comps cs"
    "\<forall>i \<in> fst ` set es. plain_comps [i]"
  shows "fst ` set es' \<subseteq> fst ` set es \<union> {j. prefix ''.weirdal_'' j}"
  using assms
proof (induction es arbitrary: st fms es' st')
  case (Cons x es)
  obtain i n where x: "x = (i, n)" by (cases x)
  have ok: "plain_comps (cs @ [i])" using Cons.prems x by simp
  from Cons.prems(1) x ok obtain fm kept st1 fms1 es1 where
      g: "git_prepare e (rel_path (cs @ [i])) i n st = Inr (fm, kept, st1)"
    and r: "prepare_entries e (rel_path cs) es st1 = Inr (fms1, es1, st')"
    and es': "es' = (case kept of None \<Rightarrow> es1 | Some k \<Rightarrow> k # es1)"
    by (auto simp: bindr_Inr_iff floordiv_rel_path simp del: git_prepare.simps)
  from Cons.IH [OF r] Cons.prems git_prepare_kept [OF g ok] show ?case
    using x es' by (cases kept) auto
qed simp

lemma expected_kind: "node_kind (expected cs n) = (if cs = git_dir_parts then K_Reg else node_kind n)"
  by (cases n) (auto simp: chmod_min_def)

lemma insort_key_map:
  "(\<And>x. f (g x) = f x) \<Longrightarrow> map g (insort_key f a xs) = insort_key f (g a) (map g xs)"
  by (induction xs) auto

lemma sort_key_map: "(\<And>x. f (g x) = f x) \<Longrightarrow> sort_key f (map g xs) = map g (sort_key f xs)"
  by (induction xs) (auto simp: insort_key_map)

definition expected_entries :: "string list \<Rightarrow> (string \<times> node) list \<Rightarrow> (string \<times> node) list" where
  "expected_entries cs es =
     filter (\<lambda>(i, n). node_kind n \<noteq> K_Sock) (map (\<lambda>(i, n). (i, expected (cs @ [i]) n)) es)"

lemma expected_Dir:
  assumes "cs \<noteq> git_dir_parts"
  shows "expected cs (Dir m es) =
    Dir (view_meta (mt_mode m OR min_perms K_Dir) (mt_mtime m)) (expected_entries cs (sort_key fst es))"
proof -
  let ?g = "\<lambda>(i, n). (i, expected (cs @ [i]) n)"
  have "expected_entries cs (sort_key fst es) = filter (\<lambda>(i, n). node_kind n \<noteq> K_Sock) (sort_key fst (map ?g es))"
    unfolding expected_entries_def by (subst sort_key_map) auto
  also have "\<dots> = sort_key fst (filter (\<lambda>(i, n). node_kind n \<noteq> K_Sock) (map ?g es))" by (rule filter_sort)
  finally show ?thesis using assms by simp
qed

lemma rel_path_git_dir: "plain_comps cs \<Longrightarrow> rel_path cs = git_dir \<longleftrightarrow> cs = git_dir_parts"
proof -
  have "rel_path git_dir_parts = git_dir" "plain_comps git_dir_parts" by code_simp+
  then show "plain_comps cs \<Longrightarrow> rel_path cs = git_dir \<longleftrightarrow> cs = git_dir_parts" using rel_path_inj by metis
qed


declare git_prepare.simps [simp del]

lemma links_there_update:
  assumes "links_there grp hl st" "rs_seen st' = AList.update p r (rs_seen st)"
    and "\<And>ino q. map_of hl ino = Some q \<Longrightarrow> q \<noteq> p"
  shows "links_there grp hl st'"
  using assms by (fastforce simp: links_there_def dict_simps)

lemma links_there_new:
  assumes "links_there grp hl st'" "map_of (rs_seen st') p = Some r" "leaf_p r" "node_wf r" "view [] r = view [] (grp ino)"
  shows "links_there grp (AList.update ino p hl) st'"
  using assms by (auto simp: links_there_def dict_simps)

text \<open>A leaf of the tree, with the frame\<close>

lemma leaf_back:
  assumes prep: "prepare_leaf e i (chmod_min n) (stat_cache_update (chmod_min n) (fm_init e (rel_path cs) n)) [] st = Inr (fm, kept, st')"
    and n: "leaf_p n" "node_kind n \<in> {K_Reg, K_Lnk, K_Fifo}" and ok: "leaf_ok e big grp (rel_path cs) n"
    and cs: "plain_comps cs" "cs \<noteq> git_dir_parts"
    and large: "map_of (ws_large st') \<subseteq>\<^sub>m map_of (re_large R)" "large_there big (re_large R)"
    and links: "links_there grp (ws_hardlinks st) rst" "links_outside (below cs) (ws_hardlinks st)"
    and there: "entry_there (re_quick R) es i kept"
  shows "\<exists>r rst'. git_restore R i fm es rst = Inr (r, without (entry_names i kept) fst es, rst')
    \<and> (if node_kind (expected cs n) = K_Sock then r = None else \<exists>x. r = Some x \<and> view cs x = expected cs n)
    \<and> seen_frame (below cs) rst rst' \<and> links_there grp (ws_hardlinks st') rst'
    \<and> links_new (below cs) (ws_hardlinks st) (ws_hardlinks st')"
proof -
  from leaf_roundtrip [OF prep n ok large links(1) there] obtain r rst' where
      restore: "git_restore R i fm es rst = Inr (Some r, without (entry_names i kept) fst es, rst')"
    and r: "leaf_p r" "node_wf r" "view [] r = view [] (chmod_min n)"
    and seen: "rs_seen rst' = AList.update (rel_path cs) r (rs_seen rst)"
    and hl: "ws_hardlinks st' = ws_hardlinks st
        \<or> ws_hardlinks st' = AList.update (mt_ino (node_meta n)) (rel_path cs) (ws_hardlinks st) \<and> mt_nlink (node_meta n) > 1"
    by blast
  have "view cs r = expected cs n" using r n cs view_leaf [of r cs] expected_leaf [of n cs] by simp
  moreover have "node_kind (expected cs n) \<noteq> K_Sock" using n cs by (auto simp: expected_kind)
  moreover have "seen_frame (below cs) rst rst'"
    using seen below_self [of cs] by (auto simp: seen_frame_def dict_simps)
  moreover have out: "links_there grp (ws_hardlinks st) rst'"
    using links below_self [of cs] by (intro links_there_update [OF links(1) seen]) (auto simp: links_outside_def)
  moreover have "links_there grp (ws_hardlinks st') rst'"
  proof (rule disjE [OF hl])
    assume "ws_hardlinks st' = ws_hardlinks st"
    with out show ?thesis by simp
  next
    assume *: "ws_hardlinks st' = AList.update (mt_ino (node_meta n)) (rel_path cs) (ws_hardlinks st) \<and> mt_nlink (node_meta n) > 1"
    then have "view [] r = view [] (grp (mt_ino (node_meta n)))" using ok r by (simp add: leaf_ok_def)
    with * show ?thesis using links_there_new [OF out _ r(1,2)] seen by (simp add: dict_simps)
  qed
  moreover have "links_new (below cs) (ws_hardlinks st) (ws_hardlinks st')"
    using hl below_self [of cs] by (auto simp: links_new_def dict_simps split: if_splits)
  ultimately show ?thesis using restore by auto
qed

text \<open>Directories: restoring the children of a directory that is in place\<close>

lemma git_restore_dir:
  assumes "\<not> fa_dont_restore a" "\<not> rpm_db (fa_path a)" "fa_kind a = K_Dir"
    and "restore_entry R i a (empty_dir_p (FM a cs)) es st = Inr (Some (Dir m sub), es', st1)"
    and "restore_children R cs sub st1 = Inr (sub', st2)"
  shows "\<exists>m'. git_restore R i (FM a cs) es st =
    Inr (Some (Dir m' sub'), es', note_seen (fa_path a) (Some (Dir m' sub')) st2)
    \<and> mt_mode m' = fa_mode a \<and> mt_mtime m' = fa_mtime a"
proof -
  obtain m1 where x: "with_xattrs R a (Dir m sub) = Dir m1 sub"
    by (cases "fa_xattrs a = [] \<or> \<not> re_xattrs R") (auto simp: with_xattrs_def)
  have "(if cs = [] then Inr (Some (Dir m1 sub), st1)
      else bindr (dir_entries (Some (Dir m1 sub))) (\<lambda>sub.
             bindr (restore_children R cs sub st1) (\<lambda>(sub', st'). Inr (with_entries sub' (Some (Dir m1 sub)), st'))))
      = (Inr (Some (Dir m1 sub'), st2) :: (node option \<times> restore_state) res)"
    using assms(5) by (auto simp: dir_entries_def)
  moreover have "finished R a (Dir m1 sub') = Dir (m1\<lparr>mt_atime := fa_atime a, mt_mtime := fa_mtime a, mt_mode := fa_mode a\<rparr>) sub'"
    using assms(3) by (simp add: finished_def sets_metadata_def set_times_mode_def)
  ultimately show ?thesis
    using assms(1,2,4) x
    by (auto simp: set_xattrs_Some restore_metadata_Some simp del: empty_dir_p.simps)
qed


lemma git_prepare_Dir:
  "p \<noteq> git_dir \<Longrightarrow> git_prepare e p i (Dir m es) st =
     bindr (prepare_entries e p (sort_key fst es) st) (\<lambda>(cs, es', st).
       prepare_leaf e i (Dir (node_meta (chmod_min (Dir m es))) es')
         (stat_cache_update (chmod_min (Dir m es)) (fm_init e p (Dir m es))) cs st)"
  by (simp add: git_prepare.simps Let_def)

lemma tree_roundtrip:
  assumes big: "large_there big (re_large R)"
  shows "git_prepare e p i n st = Inr (fm, kept, st') \<Longrightarrow> p = rel_path cs \<Longrightarrow> plain_comps cs \<Longrightarrow> tree_ok e big grp p n \<Longrightarrow>
      map_of (ws_large st') \<subseteq>\<^sub>m map_of (re_large R) \<Longrightarrow> links_there grp (ws_hardlinks st) rst \<Longrightarrow>
      links_outside (below cs) (ws_hardlinks st) \<Longrightarrow> entry_there (re_quick R) cur i kept \<Longrightarrow>
      \<exists>r rst'. git_restore R i fm cur rst = Inr (r, without (entry_names i kept) fst cur, rst')
        \<and> (if node_kind (expected cs n) = K_Sock then r = None else \<exists>x. r = Some x \<and> view cs x = expected cs n)
        \<and> seen_frame (below cs) rst rst' \<and> links_there grp (ws_hardlinks st') rst'
        \<and> links_new (below cs) (ws_hardlinks st) (ws_hardlinks st')"
    and "prepare_entries e p es st = Inr (fms, es', st') \<Longrightarrow> p = rel_path cs \<Longrightarrow> plain_comps cs \<Longrightarrow> entry_names_ok es \<Longrightarrow>
      list_all (\<lambda>(i, n). tree_ok e big grp (floordiv p i) n) es \<Longrightarrow>
      map_of (ws_large st') \<subseteq>\<^sub>m map_of (re_large R) \<Longrightarrow> links_there grp (ws_hardlinks st) rst \<Longrightarrow>
      (\<forall>i \<in> fst ` set es. links_outside (below (cs @ [i])) (ws_hardlinks st)) \<Longrightarrow>
      (\<forall>(j, k) \<in> set es'. \<exists>k'. map_of cur j = Some k' \<and> git_same (re_quick R) k k') \<Longrightarrow>
      (\<forall>i \<in> fst ` set es. i \<notin> fst ` set es' \<longrightarrow> map_of cur i = None) \<Longrightarrow>
      \<exists>rs rst'. restore_children R fms cur rst = Inr (rs @ without (fst ` set es \<union> fst ` set es') fst cur, rst')
        \<and> map (\<lambda>(i, x). (i, view (cs @ [i]) x)) rs = expected_entries cs es
        \<and> seen_frame (\<lambda>x. \<exists>i \<in> fst ` set es. below (cs @ [i]) x) rst rst' \<and> links_there grp (ws_hardlinks st') rst'
        \<and> links_new (\<lambda>x. \<exists>i \<in> fst ` set es. below (cs @ [i]) x) (ws_hardlinks st) (ws_hardlinks st')"
proof (induction e p i n st and e p es st arbitrary: cs fm kept st' rst cur and cs fms es' st' rst cur
    rule: git_prepare_prepare_entries.induct)
  case (1 e p i n st)
  note IH = "1.IH" and prep = "1.prems"(1) and p = "1.prems"(2) and cs = "1.prems"(3) and ok = "1.prems"(4)
    and large = "1.prems"(5) and links = "1.prems"(6,7) and there = "1.prems"(8)
  let ?a = "stat_cache_update (chmod_min n) (fm_init e p n)"
  show ?case
  proof (cases "cs = git_dir_parts")
    case True
    then have g: "p = git_dir" using p rel_path_git_dir [OF cs] by simp
    with prep have fm: "fm = FM ((fm_init e p n)\<lparr>fa_dont_restore := True\<rparr>) []" "kept = Some (i, n)" "st' = st"
      by (simp_all add: git_prepare.simps Let_def)
    with there obtain k' where "map_of cur i = Some k'" by (auto simp: entry_there_def)
    then show ?thesis
      using fm True links by (simp add: delete_without entry_names_def expected_git_dir view_git_dir seen_frame_def links_new_def)
  next
    case False
    then have g: "p \<noteq> git_dir" using p rel_path_git_dir [OF cs] by simp
    consider (L) "leaf_p n" "node_kind n \<in> {K_Reg, K_Lnk, K_Fifo}" | (S) "node_kind n = K_Sock"
      | (B) "node_kind n = K_Chr \<or> node_kind n = K_Blk" | (D) "node_kind n = K_Dir"
      by (cases "node_kind n") (auto simp: leaf_p_def)
    then show ?thesis
    proof cases
      case L
      then have lok: "leaf_ok e big grp p n" using ok g by (cases n) (auto simp: leaf_p_def)
      then have "\<not> rpm_db p" by (simp add: leaf_ok_def)
      then have "prepare_leaf e i (chmod_min n) ?a [] st = Inr (fm, kept, st')"
        using prep L g by (cases n) (auto simp: git_prepare.simps Let_def leaf_p_def)
      then show ?thesis using leaf_back [OF _ L _ cs False large big links there] lok unfolding p by blast
    next
      case S
      then have "leaf_ok e big grp p n" using ok g by (cases n) auto
      then obtain m where n: "n = Special K_Sock m" using S by (cases n) (auto simp: leaf_ok_def)
      with prep g have fm: "fm = FM (?a\<lparr>fa_dont_restore := True\<rparr>) []" "kept = None" "st' = note_deleted n st"
        by (simp_all add: git_prepare.simps Let_def)
      then have "map_of cur i = None" using there by (simp add: entry_there_def)
      then show ?thesis
        using fm links False n
          by (simp add: delete_without entry_names_def chmod_min_def seen_frame_def links_new_def note_deleted_def)
    next
      case B
      then show ?thesis using prep g ok by (cases n) (auto simp: git_prepare.simps Let_def leaf_ok_def node_wf_def)
    next
      case D
      then obtain m es where n: "n = Dir m es" using ok g by (cases n) (auto simp: leaf_ok_def node_wf_def)
      have rpm: "\<not> rpm_db p" and names: "entry_names_ok es"
        and sub: "list_all (\<lambda>(i, n). tree_ok e big grp (floordiv p i) n) es" using ok g n by auto
      obtain m1 where m1: "chmod_min n = Dir m1 es" "mt_mode m1 = mt_mode m OR min_perms K_Dir" "mt_mtime m1 = mt_mtime m"
        by (simp add: chmod_min_def n)
      from prep g n obtain fms es1 st1 where
          ents: "prepare_entries e p (sort_key fst es) st = Inr (fms, es1, st1)"
        and leaf: "prepare_leaf e i (Dir m1 es1) ?a fms st1 = Inr (fm, kept, st')"
        using m1 by (auto simp: git_prepare_Dir bindr_Inr_iff)
      have names': "entry_names_ok (sort_key fst es)"
        using names by (auto simp: entry_names_ok_def distinct_map inj_on_def) 
      have sub': "list_all (\<lambda>(i, n). tree_ok e big grp (floordiv p i) n) (sort_key fst es)"
        using sub by (simp add: list_all_iff)
      have plain: "plain_comps (cs @ [j])" if "j \<in> fst ` set es" for j
        using names that cs by (auto simp: entry_names_ok_def)
      have out: "\<forall>j \<in> fst ` set (sort_key fst es). links_outside (below (cs @ [j])) (ws_hardlinks st)"
      proof
        fix j assume "j \<in> fst ` set (sort_key fst es)"
        then have "plain_comps [j]" using plain [of j] by simp
        with links(2) below_child show "links_outside (below (cs @ [j])) (ws_hardlinks st)"
          unfolding links_outside_def by blast
      qed
      note IH' = IH [OF refl g refl n ents p cs names' sub' _ _ out]
      have a: "fa_kind ?a = K_Dir" "fa_path ?a = p" "fa_mode ?a = mt_mode m1" "fa_mtime ?a = mt_mtime m1"
        "fa_large_name ?a = None" "fa_hardlink_to ?a = None" "\<not> fa_dont_restore ?a" using n m1 by simp_all
      have eN: "expected cs n = Dir (view_meta (mt_mode m1) (mt_mtime m1)) (expected_entries cs (sort_key fst es))"
        using expected_Dir [OF False] n m1 by simp
      text \<open>What follows once the directory is in place with the entries that Git stored\<close>
      have goal: ?thesis
        if fm: "fm = FM ?a fms" and st': "ws_hardlinks st' = link_noted (Dir m1 es1) ?a st1" "ws_large st' = ws_large st1"
          and entry: "restore_entry R i ?a (empty_dir_p fm) cur rst = Inr (Some (Dir m2 es2), without (entry_names i kept) fst cur, rst1)"
          and es2: "fst ` set es2 = fst ` set es1" "\<forall>(j, k) \<in> set es1. \<exists>k'. map_of es2 j = Some k' \<and> git_same (re_quick R) k k'"
          and rst1: "rs_seen rst1 = rs_seen rst" for m2 es2 rst1
      proof -
        have hl: "ws_hardlinks st' = ws_hardlinks st1" using st' a by (simp add: link_noted_def)
        have there1: "links_there grp (ws_hardlinks st) rst1" using links(1) rst1 by (simp add: links_there_def)
        have none: "\<forall>i \<in> fst ` set (sort_key fst es). i \<notin> fst ` set es1 \<longrightarrow> map_of es2 i = None"
          using es2(1) by (auto simp: map_of_eq_None_iff)
        from IH' [OF _ there1 es2(2) none] large st' obtain rs rst2 where
            ch: "restore_children R fms es2 rst1 = Inr (rs @ without (fst ` set (sort_key fst es) \<union> fst ` set es1) fst es2, rst2)"
          and rs: "map (\<lambda>(i, x). (i, view (cs @ [i]) x)) rs = expected_entries cs (sort_key fst es)"
          and fr: "seen_frame (\<lambda>x. \<exists>i \<in> fst ` set (sort_key fst es). below (cs @ [i]) x) rst1 rst2"
          and lt: "links_there grp (ws_hardlinks st1) rst2"
          and ln: "links_new (\<lambda>x. \<exists>i \<in> fst ` set (sort_key fst es). below (cs @ [i]) x) (ws_hardlinks st) (ws_hardlinks st1)"
          by auto
        have "without (fst ` set (sort_key fst es) \<union> fst ` set es1) fst es2 = []"
          using es2(1) by (auto simp: without_def filter_empty_conv)
        with ch have ch': "restore_children R fms es2 rst1 = Inr (rs, rst2)" by simp
        from git_restore_dir [OF a(7) _ a(1) entry [unfolded fm] ch'] rpm a(2) obtain m' where
            rest: "git_restore R i fm cur rst = Inr (Some (Dir m' rs), without (entry_names i kept) fst cur,
                note_seen p (Some (Dir m' rs)) rst2)"
          and m': "mt_mode m' = mt_mode m1" "mt_mtime m' = mt_mtime m1" unfolding fm a by auto
        have "view cs (Dir m' rs) = expected cs n" using False m' rs eN by simp
        moreover have "node_kind (expected cs n) \<noteq> K_Sock" using eN by simp
        moreover have child_below: "below cs x" if "\<exists>i \<in> fst ` set (sort_key fst es). below (cs @ [i]) x" for x
        proof -
          from that obtain j where "j \<in> fst ` set es" "below (cs @ [j]) x" by auto
          then show ?thesis using plain [of j] below_child [of j cs x] by simp
        qed
        have "seen_frame (below cs) rst (note_seen p (Some (Dir m' rs)) rst2)"
          using fr child_below below_self [of cs] p rst1 by (auto simp: seen_frame_def note_seen_def dict_simps)
        moreover have "links_there grp (ws_hardlinks st1) (note_seen p (Some (Dir m' rs)) rst2)"
        proof (rule links_there_update [OF lt])
          show "rs_seen (note_seen p (Some (Dir m' rs)) rst2) = AList.update p (Dir m' rs) (rs_seen rst2)"
            by (simp add: note_seen_def)
          fix ino q assume "map_of (ws_hardlinks st1) ino = Some q"
          with ln have "map_of (ws_hardlinks st) ino = Some q \<or> (\<exists>j \<in> fst ` set (sort_key fst es). below (cs @ [j]) q)"
            unfolding links_new_def by blast
          then show "q \<noteq> p"
          proof (elim disjE bexE)
            assume "map_of (ws_hardlinks st) ino = Some q"
            then show "q \<noteq> p" using links(2) below_self [of cs] p by (auto simp: links_outside_def)
          next
            fix j assume "j \<in> fst ` set (sort_key fst es)" "below (cs @ [j]) q"
            then show "q \<noteq> p" using not_below_child_self [OF plain [of j]] p by auto
          qed
        qed
        moreover have "links_new (below cs) (ws_hardlinks st) (ws_hardlinks st1)"
          using ln child_below unfolding links_new_def by blast
        ultimately show ?thesis using rest hl by auto
      qed
      from leaf a(5,6) show ?thesis
      proof (cases rule: prepare_leaf_cases)
        case empty
        then have "es1 = []" by simp
        moreover have "restore_entry R i ?a (empty_dir_p fm) cur rst = Inr (Some (Dir (new_meta rst) []),
            without (entry_names i kept) fst cur, rst\<lparr>rs_inode := Suc (rs_inode rst)\<rparr>)"
          using empty(2,4,5) there a
          by (simp add: restore_entry_def Let_def entry_there_def entry_names_def without_absent del: empty_dir_p.simps)
        ultimately show ?thesis
          using goal [of "new_meta rst" "[]" "rst\<lparr>rs_inode := Suc (rs_inode rst)\<rparr>"] empty by simp
      next
        case (kept j)
        then obtain k' where k': "map_of cur j = Some k'" "git_same (re_quick R) (Dir m1 es1) k'"
          and abs: "j \<noteq> i \<longrightarrow> map_of cur i = None" using there by (auto simp: entry_there_def)
        from k'(2) obtain m2 es2 where "k' = Dir m2 es2" and es2: "fst ` set es2 = fst ` set es1" "distinct (map fst es2)"
          "list_all (\<lambda>(i, n). case map_of es2 i of None \<Rightarrow> False | Some x \<Rightarrow> git_same (re_quick R) n x) es1"
          by (cases k') auto
        have names2: "entry_names i (Some (j, Dir m1 es1)) = {i, j}" by (simp add: entry_names_def insert_commute)
        have "restore_entry R i ?a (empty_dir_p fm) cur rst = Inr (Some k', without (entry_names i (Some (j, Dir m1 es1))) fst cur, rst)"
          using kept(1,2,3,5) k' abs a unfolding names2
          by (auto simp: restore_entry_def Let_def kept_name_def delete_without insert_commute
              simp del: empty_dir_p.simps split: if_splits)
        moreover have "\<forall>(j, k) \<in> set es1. \<exists>k'. map_of es2 j = Some k' \<and> git_same (re_quick R) k k'"
          using es2(3) by (fastforce simp: list_all_iff split: option.splits)
        ultimately show ?thesis using goal [of m2 es2 rst] kept es2(1) \<open>k' = _\<close> by auto
      qed (use a in auto)
    qed
  qed
next
  case (2 e p st)
  then show ?case by (auto simp: without_def expected_entries_def seen_frame_def links_new_def)
next
  case (3 e p i n es st)
  note p = "3.prems"(2) and cs = "3.prems"(3) and names = "3.prems"(4) and ok = "3.prems"(5) and large = "3.prems"(6)
    and links = "3.prems"(7) and out = "3.prems"(8) and there = "3.prems"(9) and absent = "3.prems"(10)
  have i: "plain_comps (cs @ [i])" "i \<notin> fst ` set es" "\<not> prefix ''.weirdal_'' i"
    and rest: "entry_names_ok es" "\<forall>j \<in> fst ` set es. plain_comps (cs @ [j]) \<and> \<not> prefix ''.weirdal_'' j"
    using names cs by (auto simp: entry_names_ok_def)
  have pi: "floordiv p i = rel_path (cs @ [i])" using floordiv_rel_path [OF i(1)] p by simp
  from "3.prems"(1) obtain fm kept st1 fms1 es1 where
      g: "git_prepare e (floordiv p i) i n st = Inr (fm, kept, st1)"
    and r: "prepare_entries e p es st1 = Inr (fms1, es1, st')"
    and free: "kept = None \<or> fst (the kept) = i \<or> fst (the kept) \<notin> fst ` (set es \<union> set es1)"
    and fms: "fms = (i, fm) # fms1" and es': "es' = (case kept of None \<Rightarrow> es1 | Some k \<Rightarrow> k # es1)"
    by (auto simp: bindr_Inr_iff guard_Inr_iff)
  have kn: "j = i \<or> prefix ''.git'' i \<and> prefix ''.weirdal_'' j" if "kept = Some (j, k)" for j k
    using git_prepare_kept [OF g [unfolded pi] i(1) that] .
  have es1: "fst ` set es1 \<subseteq> fst ` set es \<union> {j. prefix ''.weirdal_'' j}"
    using prepare_entries_names [OF r [unfolded p] cs] rest cs by auto
  have i1: "i \<notin> fst ` set es1" using es1 i by auto
  have there_i: "entry_there (re_quick R) cur i kept"
    using there absent es' i1 kn by (cases kept) (auto simp: entry_there_def)
  have le: "map_of (ws_large st1) \<subseteq>\<^sub>m map_of (re_large R)" using prepare_large(2) [OF r] large by (rule map_le_trans)
  have ok_i: "tree_ok e big grp (floordiv p i) n" and ok_es: "list_all (\<lambda>(i, n). tree_ok e big grp (floordiv p i) n) es"
    using ok by simp_all
  have out_i: "links_outside (below (cs @ [i])) (ws_hardlinks st)" using out by simp
  from "3.IH"(1) [OF g pi i(1) ok_i le links out_i there_i] obtain x rst1 where
      x: "git_restore R i fm cur rst = Inr (x, without (entry_names i kept) fst cur, rst1)"
    and v: "if node_kind (expected (cs @ [i]) n) = K_Sock then x = None else \<exists>y. x = Some y \<and> view (cs @ [i]) y = expected (cs @ [i]) n"
    and fr: "seen_frame (below (cs @ [i])) rst rst1" and lt: "links_there grp (ws_hardlinks st1) rst1"
    and ln: "links_new (below (cs @ [i])) (ws_hardlinks st) (ws_hardlinks st1)" by blast
  let ?cur = "without (entry_names i kept) fst cur"
  have out1: "\<forall>j \<in> fst ` set es. links_outside (below (cs @ [j])) (ws_hardlinks st1)"
  proof
    fix j assume j: "j \<in> fst ` set es"
    then have "i \<noteq> j" "plain_comps (cs @ [j])" using i rest by auto
    with below_disjoint [OF i(1)] have "\<And>x. below (cs @ [i]) x \<Longrightarrow> \<not> below (cs @ [j]) x" by blast
    moreover have "links_outside (below (cs @ [j])) (ws_hardlinks st)" using out j by auto
    ultimately show "links_outside (below (cs @ [j])) (ws_hardlinks st1)"
      using links_outside_new [OF _ ln] by blast
  qed
  have notin: "j \<notin> entry_names i kept" if "(j, k) \<in> set es1" for j k
  proof -
    have j: "j \<in> fst ` set es1" using that by force
    then have "j \<noteq> i" using i1 by auto
    moreover have "fst (the kept) \<noteq> j" if "kept \<noteq> None"
      using free that j \<open>j \<noteq> i\<close> by (metis UnI2 image_Un)
    ultimately show ?thesis by (cases kept) (auto simp: entry_names_def)
  qed
  have there1: "\<forall>(j, k) \<in> set es1. \<exists>k'. map_of ?cur j = Some k' \<and> git_same (re_quick R) k k'"
  proof safe
    fix j k assume jk: "(j, k) \<in> set es1"
    then have "(j, k) \<in> set es'" using es' by (cases kept) auto
    with there notin [OF jk] show "\<exists>k'. map_of ?cur j = Some k' \<and> git_same (re_quick R) k k'"
      by (auto simp: map_of_without)
  qed
  have absent1: "\<forall>j \<in> fst ` set es. j \<notin> fst ` set es1 \<longrightarrow> map_of ?cur j = None"
  proof (intro ballI impI)
    fix j assume j: "j \<in> fst ` set es" "j \<notin> fst ` set es1"
    have *: "j \<notin> fst ` set es' \<Longrightarrow> map_of cur j = None" using absent j(1) by auto
    show "map_of ?cur j = None"
    proof (cases "j \<in> entry_names i kept")
      case False
      then have "j \<notin> fst ` set es'" using es' j(2) by (cases kept) (auto simp: entry_names_def)
      with * show ?thesis by (simp add: map_of_without)
    qed (simp add: map_of_without)
  qed
  from "3.IH"(2) [OF g refl refl r p cs rest(1) ok_es large lt out1 there1] absent1 obtain rs rst' where
      rs: "restore_children R fms1 ?cur rst1 = Inr (rs @ without (fst ` set es \<union> fst ` set es1) fst ?cur, rst')"
    and vs: "map (\<lambda>(i, x). (i, view (cs @ [i]) x)) rs = expected_entries cs es"
    and fr': "seen_frame (\<lambda>x. \<exists>i \<in> fst ` set es. below (cs @ [i]) x) rst1 rst'" and lt': "links_there grp (ws_hardlinks st') rst'"
    and ln': "links_new (\<lambda>x. \<exists>i \<in> fst ` set es. below (cs @ [i]) x) (ws_hardlinks st1) (ws_hardlinks st')" by blast
  have "fst ` set es \<union> fst ` set es1 \<union> entry_names i kept = fst ` set ((i, n) # es) \<union> fst ` set es'"
    using es' by (cases kept) (auto simp: entry_names_def)
  with x rs fms have R: "restore_children R fms cur rst =
      Inr (((case x of None \<Rightarrow> [] | Some y \<Rightarrow> [(i, y)]) @ rs) @ without (fst ` set ((i, n) # es) \<union> fst ` set es') fst cur, rst')"
    by (cases x) simp_all
  have V: "map (\<lambda>(i, x). (i, view (cs @ [i]) x)) ((case x of None \<Rightarrow> [] | Some y \<Rightarrow> [(i, y)]) @ rs)
      = expected_entries cs ((i, n) # es)"
    using v vs by (auto simp: expected_entries_def split: if_splits)
  have F: "seen_frame (\<lambda>x. \<exists>i \<in> fst ` set ((i, n) # es). below (cs @ [i]) x) rst rst'"
    using fr fr' by (rule seen_frame_trans) auto
  have L: "links_new (\<lambda>x. \<exists>i \<in> fst ` set ((i, n) # es). below (cs @ [i]) x) (ws_hardlinks st) (ws_hardlinks st')"
    using ln ln' by (rule links_new_trans) auto
  show ?case by (intro exI conjI) (rule R V F lt' L)+
qed

section \<open>The round trip of an image\<close>

lemma large_there_update:
  "large_there big d \<Longrightarrow> leaf_p n \<Longrightarrow> node_wf n \<Longrightarrow> view [] n = view [] (big l) \<Longrightarrow> large_there big (AList.update l n d)"
  by (auto simp: large_there_def dict_simps)

lemma prepare_leaf_large_there:
  assumes "prepare_leaf e i n a cs st = Inr (fm, kept, st')" "fa_large_name a = None" "fa_hardlink_to a = None"
    and "large_there big (ws_large st)"
    and "\<And>l. fa_kind a = K_Reg \<Longrightarrow> fa_size a \<ge> fe_threshold e \<Longrightarrow> large_name_get e a = Inr l \<Longrightarrow> leaf_p n \<and> node_wf n \<and> view [] n = view [] (big l)"
  shows "large_there big (ws_large st')"
  using assms(1-3)
proof (cases rule: prepare_leaf_cases)
  case (large l)
  with assms(5) [of l] assms(4) show ?thesis by (auto intro!: large_there_update)
qed (use assms(4) in simp_all)

lemma git_prepare_leaf:
  assumes "git_prepare e p i n st = Inr (fm, kept, st')" "p \<noteq> git_dir" "node_kind n \<noteq> K_Dir"
  shows "ws_large st' = ws_large st
    \<or> prepare_leaf e i (chmod_min n) (stat_cache_update (chmod_min n) (fm_init e p n)) [] st = Inr (fm, kept, st')"
proof (cases n)
  case (Special k m)
  show ?thesis
  proof (cases "k = K_Sock \<or> k = K_Chr \<or> k = K_Blk \<or> rpm_db p")
    case True
    then show ?thesis using assms(1,2) Special by (auto simp: git_prepare.simps Let_def note_deleted_def split: if_splits)
  next
    case False
    then show ?thesis using assms(1,2) Special by (simp add: git_prepare.simps Let_def)
  qed
next
  case (Reg m c)
  then show ?thesis using assms(1,2) by (cases "rpm_db p") (auto simp: git_prepare.simps Let_def note_deleted_def)
next
  case (Lnk m c)
  then show ?thesis using assms(1,2) by (cases "rpm_db p") (auto simp: git_prepare.simps Let_def note_deleted_def)
next
  case (Dir m es)
  then show ?thesis using assms(3) by simp
qed

lemma prepare_large_there:
  "git_prepare e p i n st = Inr (fm, kept, st') \<Longrightarrow> tree_ok e big grp p n \<Longrightarrow> large_there big (ws_large st) \<Longrightarrow>
   large_there big (ws_large st')"
  "prepare_entries e p es st = Inr (fms, es', st') \<Longrightarrow> list_all (\<lambda>(i, n). tree_ok e big grp (floordiv p i) n) es \<Longrightarrow>
   large_there big (ws_large st) \<Longrightarrow> large_there big (ws_large st')"
proof (induction e p i n st and e p es st arbitrary: fm kept st' and fms es' st' rule: git_prepare_prepare_entries.induct)
  case (1 e p i n st)
  note prep = "1.prems"(1) and ok = "1.prems"(2) and l = "1.prems"(3)
  show ?case
  proof (cases "p = git_dir")
    case True
    with prep l show ?thesis by (simp add: git_prepare.simps Let_def)
  next
    case False
    show ?thesis
    proof (cases "node_kind n = K_Dir")
      case True
      then obtain m es where Dir: "n = Dir m es" using ok False by (cases n) (auto simp: leaf_ok_def node_wf_def)
      obtain m1 where m1: "chmod_min n = Dir m1 es" by (simp add: chmod_min_def Dir)
      from prep Dir False m1 obtain fms es1 st1 where ents: "prepare_entries e p (sort_key fst es) st = Inr (fms, es1, st1)"
        and leaf: "prepare_leaf e i (Dir m1 es1) (stat_cache_update (chmod_min n) (fm_init e p n)) fms st1 = Inr (fm, kept, st')"
        by (auto simp: git_prepare_Dir bindr_Inr_iff)
      have "list_all (\<lambda>(i, n). tree_ok e big grp (floordiv p i) n) (sort_key fst es)"
        using ok Dir False by (simp add: list_all_iff)
      with "1.IH" [OF refl False refl Dir ents] l have "large_there big (ws_large st1)" by simp
      then show ?thesis by (rule prepare_leaf_large_there [OF leaf, rotated 2]) (simp_all add: Dir)
    next
      case leaf: False
      let ?a = "stat_cache_update (chmod_min n) (fm_init e p n)"
      have "ws_large st' = ws_large st \<or> prepare_leaf e i (chmod_min n) ?a [] st = Inr (fm, kept, st')"
        by (rule git_prepare_leaf [OF prep False leaf])
      then show ?thesis
      proof
        assume p: "prepare_leaf e i (chmod_min n) ?a [] st = Inr (fm, kept, st')"
        have "leaf_ok e big grp p n" using ok False leaf by (cases n) auto
        then have name: "leaf_p (chmod_min n) \<and> node_wf (chmod_min n) \<and> view [] (chmod_min n) = view [] (big name)"
          if "fa_kind ?a = K_Reg" "fa_size ?a \<ge> fe_threshold e" "large_name_get e ?a = Inr name" for name
          using that leaf by (simp add: leaf_ok_def leaf_p_def)
        show ?thesis by (rule prepare_leaf_large_there [OF p _ _ l name]) simp_all
      qed (use l in simp)
    qed
  qed
next
  case (3 e p i n es st)
  from "3.prems"(1) obtain fm kept st1 fms1 es1 where g: "git_prepare e (floordiv p i) i n st = Inr (fm, kept, st1)"
    and r: "prepare_entries e p es st1 = Inr (fms1, es1, st')" by (auto simp: bindr_Inr_iff)
  have "large_there big (ws_large st1)" using "3.IH"(1) [OF g] "3.prems" by simp
  with "3.IH"(2) [OF g refl refl r] "3.prems" show ?case by simp
qed simp


definition example_meta :: "int \<Rightarrow> nat \<Rightarrow> nat \<Rightarrow> int \<Rightarrow> meta" where
  "example_meta mode ino nlink sz =
     \<lparr>mt_mode = mode, mt_size = sz, mt_atime = 1, mt_mtime = 2, mt_ino = ino, mt_nlink = nlink, mt_xattrs = []\<rparr>"

definition example_image :: node where
  "example_image = Dir (example_meta 0x1ED 1 2 0)
     [(''z'', Reg (example_meta 0x1A4 7 2 1) ''Z''), (''empty'', Dir (example_meta 0x1ED 2 2 0) []),
      (''a'', Reg (example_meta 0x1A4 7 2 1) ''Z''), (''.gitignore'', Reg (example_meta 0x80 3 1 1) ''G''),
      (''pipe'', Special K_Fifo (example_meta 0x1A4 4 1 0)), (''sock'', Special K_Sock (example_meta 0x1A4 5 1 0)),
      (''large'', Reg (example_meta 0x1A4 6 1 9) ''123456789'')]"

definition example_fm_env :: fm_env where
  "example_fm_env = \<lparr>fe_md5_hex = (\<lambda>_. ''00''), fe_threshold = 9, fe_xattrs = False\<rparr>"

definition example_checkout :: node where \<comment> \<open>what Git brings back\<close>
  "example_checkout = Dir (example_meta 0x1C0 8 2 0)
     [(''.weirdal_ignore'', Reg (example_meta 0x1A4 11 1 1) ''G''), (''a'', Reg (example_meta 0x180 12 1 1) ''Z'')]"


section \<open>Where the code goes wrong\<close>

text \<open>
  A large file that Git cannot name is moved to the large file storage first and then
  renamed where it was, which fails. Here the file is large for any threshold up to nine.
\<close>

lemma large_git_name_fatal:
  "prepare_image example_fm_env [] (Dir (example_meta 0x1ED 1 2 0)
      [(''.gitlarge'', Reg (example_meta 0x1A4 6 1 9) ''123456789'')])
    = Inl (Fatal ''can't rename: %s -> %s'')"
  by code_simp

text \<open>
  A directory that holds nothing but data base support files of RPM is emptied but not
  counted as empty. Git does not store it, so the image cannot be restored elsewhere.
\<close>

lemma rpm_directory_lost:
  "case prepare_image example_fm_env [] (Dir (example_meta 0x1ED 1 2 0)
      [(''var'', Dir (example_meta 0x1ED 2 2 0) [(''lib'', Dir (example_meta 0x1ED 3 2 0)
        [(''rpm'', Dir (example_meta 0x1ED 4 2 0) [(''__db.001'', Reg (example_meta 0x1A4 6 1 1) ''x'')])])]),
       (''x'', Reg (example_meta 0x1A4 7 1 1) ''X'')]) of
     Inr (fm, Some n, large) \<Rightarrow>
       restore_image \<lparr>re_quick = False, re_xattrs = False, re_large = large\<rparr> fm
         (Dir (example_meta 0x1ED 1 2 0) [(''x'', Reg (example_meta 0x1A4 7 1 1) ''X'')]) 20
       = Inl (Fatal ''can't restore times: %s'')
   | _ \<Rightarrow> False"
  by code_simp

end
