(* ===== verification/Io.thy ===== *)
theory Io
  imports Prelude
begin

text \<open>
  Computations that work on a state and may raise: functions from a state to a result and
  the state reached, which is also there when an exception is raised, so that a handler
  goes on from it. \<open>io_simps\<close> takes such computations apart.
\<close>

named_theorems io_simps "decomposition of computations on a state"

type_synonym ('w, 'a) io = "'w \<Rightarrow> 'a res \<times> 'w"

definition ret :: "'a \<Rightarrow> ('w, 'a) io" where "ret x = (\<lambda>w. (Inr x, w))"

definition raise :: "exn \<Rightarrow> ('w, 'a) io" where "raise e = (\<lambda>w. (Inl e, w))"

definition bindio :: "('w, 'a) io \<Rightarrow> ('a \<Rightarrow> ('w, 'b) io) \<Rightarrow> ('w, 'b) io" where
  "bindio m f = (\<lambda>w. case m w of (Inl e, w') \<Rightarrow> (Inl e, w') | (Inr x, w') \<Rightarrow> f x w')"

definition thenio :: "('w, unit) io \<Rightarrow> ('w, 'b) io \<Rightarrow> ('w, 'b) io" where
  "thenio m k = bindio m (\<lambda>_. k)"

definition liftr :: "'a res \<Rightarrow> ('w, 'a) io" where "liftr r = (\<lambda>w. (r, w))"

abbreviation letr :: "'a res \<Rightarrow> ('a \<Rightarrow> ('w, 'b) io) \<Rightarrow> ('w, 'b) io" where
  "letr r f \<equiv> bindio (liftr r) f"

definition gets :: "('w \<Rightarrow> 'a) \<Rightarrow> ('w, 'a) io" where "gets f = (\<lambda>w. (Inr (f w), w))"

definition modify :: "('w \<Rightarrow> 'w) \<Rightarrow> ('w, unit) io" where "modify f = (\<lambda>w. (Inr (), f w))"

definition check :: "bool \<Rightarrow> exn \<Rightarrow> ('w, unit) io" where "check b e = liftr (guard b e)"

definition whenio :: "bool \<Rightarrow> ('w, unit) io \<Rightarrow> ('w, unit) io" where
  "whenio b m = (if b then m else ret ())"

fun seqio :: "('w, unit) io list \<Rightarrow> ('w, unit) io" where
  "seqio [] = ret ()"
| "seqio (m # ms) = thenio m (seqio ms)"

fun mapio :: "('a \<Rightarrow> ('w, 'b) io) \<Rightarrow> 'a list \<Rightarrow> ('w, 'b list) io" where
  "mapio f [] = ret []"
| "mapio f (x # xs) = bindio (f x) (\<lambda>y. bindio (mapio f xs) (\<lambda>ys. ret (y # ys)))"

text \<open>\<open>try: m except ch.Fatal_Error: h; raise\<close>\<close>

fun fatal_p :: "exn \<Rightarrow> bool" where
  "fatal_p (Fatal s) = True"
| "fatal_p e = False"

definition on_fatal :: "('w, 'a) io \<Rightarrow> ('w, unit) io \<Rightarrow> ('w, 'a) io" where
  "on_fatal m h = (\<lambda>w. case m w of
      (Inl e, w') \<Rightarrow> if fatal_p e then thenio h (raise e) w' else (Inl e, w')
    | (Inr x, w') \<Rightarrow> (Inr x, w'))"

lemma bindio_Inr [io_simps]: "bindio m f w = (Inr y, w'') \<longleftrightarrow> (\<exists>x w'. m w = (Inr x, w') \<and> f x w' = (Inr y, w''))"
  by (auto simp: bindio_def split: prod.splits sum.splits)

lemma thenio_Inr [io_simps]: "thenio m k w = (Inr y, w'') \<longleftrightarrow> (\<exists>w'. m w = (Inr (), w') \<and> k w' = (Inr y, w''))"
  by (auto simp: thenio_def bindio_Inr)

lemma ret_Inr [io_simps]: "ret x w = (Inr y, w') \<longleftrightarrow> x = y \<and> w = w'"
  by (auto simp: ret_def)

lemma raise_Inr [io_simps]: "\<not> raise e w = (Inr y, w')"
  by (simp add: raise_def)

lemma liftr_Inr [io_simps]: "liftr r w = (Inr y, w') \<longleftrightarrow> r = Inr y \<and> w = w'"
  by (auto simp: liftr_def)

lemma gets_Inr [io_simps]: "gets f w = (Inr y, w') \<longleftrightarrow> f w = y \<and> w = w'"
  by (auto simp: gets_def)

lemma modify_Inr [io_simps]: "modify f w = (Inr u, w') \<longleftrightarrow> f w = w'"
  by (auto simp: modify_def)

lemma check_Inr [io_simps]: "check b e w = (Inr u, w') \<longleftrightarrow> b \<and> w = w'"
  by (auto simp: check_def liftr_def guard_def)

lemma whenio_Inr [io_simps]: "whenio b m w = (Inr u, w') \<longleftrightarrow> (if b then m w = (Inr (), w') else w = w')"
  by (auto simp: whenio_def ret_def)

lemma io_run:
  "bindio m f w = (case m w of (Inl e, w') \<Rightarrow> (Inl e, w') | (Inr x, w') \<Rightarrow> f x w')"
  "thenio m' k w = (case m' w of (Inl e, w') \<Rightarrow> (Inl e, w') | (Inr x, w') \<Rightarrow> k w')"
  "ret x w = (Inr x, w)" "raise e w = (Inl e, w)" "liftr r w = (r, w)" "gets g w = (Inr (g w), w)"
  "modify u w = (Inr (), u w)" "check b e w = (if b then (Inr (), w) else (Inl e, w))"
  "whenio b m' w = (if b then m' w else (Inr (), w))"
  by (simp_all add: bindio_def thenio_def ret_def raise_def liftr_def gets_def modify_def check_def guard_def whenio_def
      split: prod.splits sum.splits)

text \<open>What holds of every state a computation reaches, by an exception or not\<close>

definition keeps :: "('w \<Rightarrow> bool) \<Rightarrow> ('w, 'a) io \<Rightarrow> bool" where
  "keeps P m \<longleftrightarrow> (\<forall>w. P w \<longrightarrow> P (snd (m w)))"

lemma keeps_bindio: "keeps P m \<Longrightarrow> (\<And>x. keeps P (f x)) \<Longrightarrow> keeps P (bindio m f)"
  unfolding keeps_def bindio_def by (auto split: prod.splits sum.splits)

lemma keeps_thenio: "keeps P m \<Longrightarrow> keeps P k \<Longrightarrow> keeps P (thenio m k)"
  unfolding thenio_def by (rule keeps_bindio)

lemma keeps_pure [simp]:
  "keeps P (ret x)" "keeps P (raise e)" "keeps P (liftr r)" "keeps P (gets g)" "keeps P (check b e)"
  by (simp_all add: keeps_def io_run)

lemma keeps_whenio: "keeps P m \<Longrightarrow> keeps P (whenio b m)"
  by (simp add: keeps_def io_run)

lemma keeps_on_fatal: "keeps P m \<Longrightarrow> keeps P h \<Longrightarrow> keeps P (on_fatal m h)"
  unfolding keeps_def on_fatal_def thenio_def bindio_def raise_def
  by (auto split: prod.splits sum.splits)

named_theorems keeps_intros "rules for what computations keep"

lemmas [keeps_intros] = keeps_bindio keeps_thenio keeps_whenio keeps_on_fatal keeps_pure

lemma keeps_seqio [keeps_intros]: "(\<And>m. m \<in> set ms \<Longrightarrow> keeps P m) \<Longrightarrow> keeps P (seqio ms)"
  by (induction ms) (auto intro: keeps_thenio)

lemma keeps_mapio [keeps_intros]: "(\<And>x. keeps P (f x)) \<Longrightarrow> keeps P (mapio f xs)"
  by (induction xs) (auto intro!: keeps_bindio)

lemma keeps_modify [keeps_intros]: "(\<And>w. P w \<Longrightarrow> P (f w)) \<Longrightarrow> keeps P (modify f)"
  by (simp add: keeps_def io_run)

lemma keeps_snd: "(\<And>w. P w \<Longrightarrow> P (snd (f w))) \<Longrightarrow> (\<And>w. snd (m w) = snd (f w)) \<Longrightarrow> keeps P m"
  by (simp add: keeps_def)

lemma keepsD: "keeps P m \<Longrightarrow> P w \<Longrightarrow> m w = (r, w') \<Longrightarrow> P w'"
  by (auto simp: keeps_def dest!: spec [of _ w])

end
