(* ===== verification/Cache.thy ===== *)
theory Cache
  imports Git_Roundtrip Utils Io
begin

text \<open>
  The build cache: classes \<open>Enabled_Cache\<close>, \<open>Rebuild_Cache\<close> and \<open>Disabled_Cache\<close> of
  \<open>lib/build_cache.py\<close>, with the methods of class \<open>Image\<close> they use. Git is an argument: a
  function that runs a command line on the whole state. Methods that subclasses override
  take the class as first argument.
\<close>

section \<open>State\<close>

record 'g cworld =
  cw_git :: 'g                              \<comment> \<open>what Git keeps in the repository\<close>
  cw_images :: "(string, node) dict"        \<comment> \<open>unpacked images in the storage directory\<close>
  cw_image_tmp :: "node option"             \<comment> \<open>\<open>image_tmp\<close> of the storage directory\<close>
  cw_large :: "(string, node) dict"         \<comment> \<open>large file storage\<close>
  cw_fm :: "fm option"                      \<comment> \<open>attribute \<open>file_metadata\<close>\<close>
  cw_bootstrap_ct :: nat

record image_id =
  im_dir :: string      \<comment> \<open>\<open>ref.for_path\<close>\<close>
  im_str :: string      \<comment> \<open>\<open>str(ref)\<close>\<close>

datatype cache_class = Enabled_Cache | Rebuild_Cache | Disabled_Cache

text \<open>
  The environment: Git, run in the repository or in an image, with standard input; MD5;
  the pickle format; the puller's methods; and where an image is unpacked.
\<close>

record ('g, 'm) cache_env =
  ce_git :: "string option \<Rightarrow> string list \<Rightarrow> string option \<Rightarrow> ('g, 'm) cworld_scheme \<Rightarrow> (int \<times> string) \<times> ('g, 'm) cworld_scheme"
  ce_md5 :: "bytes \<Rightarrow> bytes"
  ce_fm :: fm_env
  ce_dumps :: "fm \<Rightarrow> string"
  ce_loads :: "string \<Rightarrow> fm res"
  ce_inode :: "('g, 'm) cworld_scheme \<Rightarrow> nat"
  ce_unpack_path :: "string \<Rightarrow> string"
  ce_download :: "image_id \<Rightarrow> image_id \<Rightarrow> (('g, 'm) cworld_scheme, bytes) io"    \<comment> \<open>gives \<open>sid_input\<close>\<close>
  ce_unpack :: "image_id \<Rightarrow> int option \<Rightarrow> (('g, 'm) cworld_scheme, unit) io"
  ce_pull_done :: "(('g, 'm) cworld_scheme, unit) io"

type_synonym ('g, 'm, 'a) cio = "(('g, 'm) cworld_scheme, 'a) io"

section \<open>Images\<close>

definition unpack_exist_p :: "image_id \<Rightarrow> ('g, 'm, bool) cio" where
  "unpack_exist_p img = gets (\<lambda>w. map_of (cw_images w) (im_dir img) \<noteq> None)"

definition get_image :: "string \<Rightarrow> ('g, 'm, node) cio" where
  "get_image d = bindio (gets (\<lambda>w. map_of (cw_images w) d)) (\<lambda>n. liftr (of_opt (Fatal ''can't stat: %s'') n))"

definition put_image :: "string \<Rightarrow> node \<Rightarrow> ('g, 'm, unit) cio" where
  "put_image d n = modify (\<lambda>w. w\<lparr>cw_images := AList.update d n (cw_images w)\<rparr>)"

definition drop_image :: "string \<Rightarrow> ('g, 'm, unit) cio" where
  "drop_image d = modify (\<lambda>w. w\<lparr>cw_images := AList.delete d (cw_images w)\<rparr>)"

definition unpack_cache_linked :: "image_id \<Rightarrow> ('g, 'm, bool) cio" where
  "unpack_cache_linked img = gets (\<lambda>w.
     case map_of (cw_images w) (im_dir img) of None \<Rightarrow> False | Some n \<Rightarrow> node_at n git_dir_parts \<noteq> None)"

text \<open>Every image in the model is where the storage directory has it, so it is \<open>deleteable\<close>.\<close>

definition unpack_clear :: "image_id \<Rightarrow> ('g, 'm, unit) cio" where
  "unpack_clear img =
     bindio (gets (\<lambda>w. map_of (cw_images w) (im_dir img))) (\<lambda>n.
       case n of
         None \<Rightarrow> ret ()
       | Some n \<Rightarrow> thenio (check (node_kind n = K_Dir) (Fatal ''can't flatten: %s exists but is not a directory''))
                     (drop_image (im_dir img)))"

definition image_unpack_delete :: "image_id \<Rightarrow> ('g, 'm, unit) cio" where
  "image_unpack_delete img =
     bindio (unpack_exist_p img) (\<lambda>there.
       thenio (check there (Fatal ''image not found, can't delete: %s'')) (drop_image (im_dir img)))"

section \<open>Running Git\<close>

definition git :: "('g, 'm) cache_env \<Rightarrow> string list \<Rightarrow> string option \<Rightarrow> bool \<Rightarrow> ('g, 'm, int \<times> string) cio" where
  "git e argv cwd fail_ok = (\<lambda>w.
     case ce_git e cwd argv None w of ((code, out), w') \<Rightarrow>
       if \<not> fail_ok \<and> code \<noteq> 0 then (Inl (Fatal ''command failed with code %d: %s''), w')
       else (Inr (code, out), w'))"

definition git0 :: "('g, 'm) cache_env \<Rightarrow> string list \<Rightarrow> string option \<Rightarrow> ('g, 'm, unit) cio" where
  \<comment> \<open>when the result is not used\<close>
  "git0 e argv cwd = bindio (git e argv cwd False) (\<lambda>_. ret ())"

section \<open>Branches and commits\<close>

definition branch_name_ready :: "string \<Rightarrow> string" where "branch_name_ready d = d"

definition branch_name_unready :: "string \<Rightarrow> string" where "branch_name_unready d = d @ ''#''"

definition ready_p :: "string \<Rightarrow> bool" where "ready_p branch \<longleftrightarrow> \<not> suffix ''#'' branch"

definition unready_of :: "string \<Rightarrow> string" where
  "unready_of branch = (if ready_p branch then branch @ ''#'' else branch)"

definition commit_hash_re :: re where \<comment> \<open>\<open>r"^[0-9a-f]{7,}$"\<close>\<close>
  "commit_hash_re = (let d = Cls (\<lambda>c. is_digit c \<or> in_range CHR ''a'' CHR ''f'' c)
     in Seqs [Bol, d, d, d, d, d, d, d, Many d, Eol])"

definition commit_hash_p :: "string \<Rightarrow> bool" where "commit_hash_p s \<longleftrightarrow> search_p commit_hash_re s"

text \<open>State ID and abbreviated hash from the output of \<open>git log --format=%h%n%B\<close>\<close>

definition log_parse :: "string \<Rightarrow> (state_id option \<times> string option) res" where
  "log_parse out = bindr (from_text out) (\<lambda>sid. Inr (Some sid, Some (hd (split_on newline out))))"

definition log_argv :: "string \<Rightarrow> string list" where
  "log_argv what = [''log'', ''--format=%h%n%B'', ''-n'', ''1'', what]"

definition find_commit :: "('g, 'm) cache_env \<Rightarrow> string \<Rightarrow> ('g, 'm, state_id option \<times> string option) cio" where
  "find_commit e git_id =
     bindio (git e (log_argv git_id) None True) (\<lambda>(code, out).
       if code = 0 then liftr (log_parse out) else ret (None, None))"

definition commit_find_deleted :: "('g, 'm) cache_env \<Rightarrow> string \<Rightarrow> ('g, 'm, state_id option \<times> string option) cio" where
  "commit_find_deleted e git_id =
     bindio (git e (log_argv (''&'' @ git_id)) None True) (\<lambda>(code, out).
       if code = 0 then liftr (log_parse out) else ret (None, None))"

definition find_deleted_image :: "('g, 'm) cache_env \<Rightarrow> image_id \<Rightarrow> ('g, 'm, state_id option \<times> string option) cio" where
  "find_deleted_image e img = commit_find_deleted e (im_dir img)"

definition cached_p :: "('g, 'm) cache_env \<Rightarrow> string \<Rightarrow> ('g, 'm, bool) cio" where
  "cached_p e git_id = bindio (find_commit e git_id) (\<lambda>(sid, commit). ret (commit \<noteq> None))"

definition find_image :: "('g, 'm) cache_env \<Rightarrow> cache_class \<Rightarrow> image_id \<Rightarrow> ('g, 'm, state_id option \<times> string option) cio" where
  "find_image e cls img = (if cls = Disabled_Cache then ret (None, None) else find_commit e (im_dir img))"

definition find_sid_in :: "('g, 'm) cache_env \<Rightarrow> state_id \<Rightarrow> string option \<Rightarrow> ('g, 'm, string option) cio" where
  "find_sid_in e sid branch =
     bindio (git e ([''log'', ''--grep'', sid_str sid, ''-F'', ''--format=%h'', ''-n'', ''1'']
                 @ (case branch of Some b \<Rightarrow> [b] | None \<Rightarrow> [''--all'', ''--reflog''])) None (branch \<noteq> None)) (\<lambda>(code, out).
       if code \<noteq> 0 \<or> out = [] then ret None
       else case split_ws out of [] \<Rightarrow> raise Index_Error | h # _ \<Rightarrow> ret (Some h))"

text \<open>\<open>sid_from_parent\<close>: no state IDs without the cache.\<close>

definition sid_from_parent :: "('g, 'm) cache_env \<Rightarrow> cache_class \<Rightarrow> state_id option \<Rightarrow> sid_input \<Rightarrow> state_id option res" where
  "sid_from_parent e cls psid i =
     (if cls = Disabled_Cache then Inr None
      else bindr (of_opt Attribute_Error psid) (\<lambda>p. Inr (Some (from_parent (ce_md5 e) p i))))"

definition find_sid :: "('g, 'm) cache_env \<Rightarrow> cache_class \<Rightarrow> state_id option \<Rightarrow> string \<Rightarrow> ('g, 'm, string option) cio" where
  "find_sid e cls sid branch =
     (if cls \<noteq> Enabled_Cache then ret None
      else bindio (liftr (of_opt (Unmodelled ''state ID None'') sid)) (\<lambda>sid.
           bindio (find_sid_in e sid (Some branch)) (\<lambda>c.
             if c = None then find_sid_in e sid None else ret c)))"

definition root_id :: state_id where
  "root_id = (case from_text ''4A6F:73C3:A9204361:7061626C:616E6361'' of Inr i \<Rightarrow> i | Inl e \<Rightarrow> [])"

definition tag_delete :: "('g, 'm) cache_env \<Rightarrow> string \<Rightarrow> bool \<Rightarrow> ('g, 'm, unit) cio" where
  "tag_delete e tag fail_ok = bindio (git e [''tag'', ''-d'', ''&'' @ tag] None fail_ok) (\<lambda>_. ret ())"

definition branch_delete_one :: "('g, 'm) cache_env \<Rightarrow> string \<Rightarrow> ('g, 'm, unit) cio" where
  "branch_delete_one e b =
     bindio (git e [''show-ref'', ''--quiet'', ''--heads'', b] None True) (\<lambda>(code, out).
       if code \<noteq> 0 then ret ()
       else bindio (git e [''rev-parse'', ''HEAD''] None False) (\<lambda>(_, out).
            let head_old = strip_ws out in
            seqio [git0 e [''update-ref'', ''HEAD'', b] None,
                   git0 e [''update-ref'', ''HEAD'', head_old] None,
                   git0 e [''branch'', ''-D'', b] None]))"

definition branch_delete :: "('g, 'm) cache_env \<Rightarrow> string \<Rightarrow> ('g, 'm, unit) cio" where
  "branch_delete e branch =
     bindio (if ready_p branch then cached_p e branch else ret False) (\<lambda>c.
       if c then thenio (git0 e [''tag'', ''-a'', ''-f'', ''&'' @ branch, branch, ''-m'', [squote, squote]] None)
                   (seqio (map (branch_delete_one e) [branch, unready_of branch]))
       else branch_delete_one e branch)"

datatype dest = Dest_Ref image_id | Dest_Commit string

definition branch_nocheckout :: "('g, 'm) cache_env \<Rightarrow> cache_class \<Rightarrow> image_id \<Rightarrow> dest \<Rightarrow> ('g, 'm, unit) cio" where
  "branch_nocheckout e cls src dest =
     (if cls = Disabled_Cache then ret ()
      else let d = (case dest of Dest_Ref r \<Rightarrow> branch_name_ready (im_dir r) | Dest_Commit c \<Rightarrow> c) in
        bindio (unpack_exist_p src) (\<lambda>there.
          thenio (whenio there (git0 e [''checkout'', ''--detach''] (Some (im_dir src))))
            (git0 e [''branch'', ''-f'', branch_name_ready (im_dir src), d] None)))"

section \<open>Metadata of files\<close>

definition pickle :: "('g, 'm) cache_env \<Rightarrow> string \<Rightarrow> ('g, 'm, unit) cio" where
  "pickle e d =
     bindio (gets cw_fm) (\<lambda>fm.
     bindio (liftr (of_opt Attribute_Error fm)) (\<lambda>fm.
     bindio (get_image d) (\<lambda>n.
     bindio (liftr (file_write (ce_dumps e fm) n (path_parts pickle_path))) (put_image d))))"

definition unpickle :: "('g, 'm) cache_env \<Rightarrow> string \<Rightarrow> ('g, 'm, unit) cio" where
  "unpickle e d =
     bindio (get_image d) (\<lambda>n.
     bindio (liftr (bindr (file_read_all n (path_parts pickle_path)) (ce_loads e))) (\<lambda>fm.
       modify (\<lambda>w. w\<lparr>cw_fm := Some (unpickle_fix (Path [''.'']) fm)\<rparr>)))"

definition update_files :: "('g, 'm) cache_env \<Rightarrow> string \<Rightarrow> path list \<Rightarrow> ('g, 'm, unit) cio" where
  "update_files e d files =
     bindio (gets cw_fm) (\<lambda>fm.
     bindio (liftr (of_opt Attribute_Error fm)) (\<lambda>fm.
     bindio (get_image d) (\<lambda>n.
     bindio (liftr (foldr_res (fm_update (ce_fm e) n) files fm)) (\<lambda>fm.
       modify (\<lambda>w. w\<lparr>cw_fm := Some fm\<rparr>)))))"

definition cache_git_prepare :: "('g, 'm) cache_env \<Rightarrow> string \<Rightarrow> path list \<Rightarrow> bool \<Rightarrow> ('g, 'm, unit) cio" where
  "cache_git_prepare e d files write =
     thenio
       (if files = [] then
          bindio (get_image d) (\<lambda>n.
          bindio (gets cw_large) (\<lambda>large.
          bindio (liftr (prepare_image (ce_fm e) large n)) (\<lambda>(fm, n', large).
            modify (\<lambda>w. w\<lparr>cw_fm := Some fm, cw_large := large,
              cw_images := (case n' of None \<Rightarrow> AList.delete d (cw_images w) | Some n' \<Rightarrow> AList.update d n' (cw_images w))\<rparr>))))
        else update_files e d files)
       (whenio write (pickle e d))"

text \<open>
  \<open>git_restore\<close>. With \<open>files\<close>, each is restored on its own; the code only does that for
  regular files that are in place, so it changes at most times and mode.
\<close>

definition restore_file :: "restore_env \<Rightarrow> fm \<Rightarrow> path \<Rightarrow> node \<Rightarrow> node res" where
  "restore_file re fm p n =
     bindr (fm_get fm (path_parts p)) (\<lambda>f.
     bindr (of_opt (Fatal ''can't restore times: %s'') (node_at n (path_parts p))) (\<lambda>x.
     bindr (git_restore re (path_name p) f [(path_name p, x)] \<lparr>rs_seen = [], rs_inode = 0\<rparr>) (\<lambda>(r, _, _).
       case r of None \<Rightarrow> Inr n
       | Some x' \<Rightarrow> node_alter (Fatal ''can't restore times: %s'') (\<lambda>_. Some x') n (path_parts p))))"

definition cache_git_restore :: "('g, 'm) cache_env \<Rightarrow> string \<Rightarrow> path list \<Rightarrow> bool \<Rightarrow> ('g, 'm, unit) cio" where
  "cache_git_restore e d files quick =
     thenio (whenio (\<not> quick) (unpickle e d))
       (bindio (gets cw_fm) (\<lambda>fm.
        bindio (liftr (of_opt Attribute_Error fm)) (\<lambda>fm.
        bindio (get_image d) (\<lambda>n.
        bindio (gets (\<lambda>w. (cw_large w, ce_inode e w))) (\<lambda>(large, inode).
        let re = \<lparr>re_quick = quick, re_xattrs = fe_xattrs (ce_fm e), re_large = large\<rparr> in
        if files = [] then
          bindio (liftr (restore_image re fm n inode)) (\<lambda>r.
            case r of None \<Rightarrow> ret () | Some n' \<Rightarrow> put_image d n')
        else bindio (liftr (foldr_res (restore_file re fm) files n)) (put_image d))))))"

section \<open>Working trees\<close>

definition worktree_head :: "('g, 'm) cache_env \<Rightarrow> image_id \<Rightarrow> ('g, 'm, string option) cio" where
  "worktree_head e img =
     bindio (git e [''rev-parse'', ''--short'', ''HEAD''] (Some (im_dir img)) True) (\<lambda>(code, out).
       ret (if code \<noteq> 0 then None else Some (strip_ws out)))"

text \<open>Moving the link file that Git made to where the code wants it\<close>

definition move_git_dir :: "node \<Rightarrow> node res" where
  "move_git_dir n =
     bindr (mkdirs n [''ch'']) (\<lambda>n.
     bindr (of_opt (Fatal ''can't rename: %s -> %s'') (node_at n [''.git''])) (\<lambda>link.
     bindr (node_alter (Fatal ''can't rename: %s -> %s'') (\<lambda>_. None) n [''.git'']) (\<lambda>n.
       node_alter (Fatal ''can't rename: %s -> %s'') (\<lambda>_. Some link) n git_dir_parts)))"

definition worktree_add :: "('g, 'm) cache_env \<Rightarrow> cache_class \<Rightarrow> image_id \<Rightarrow> string \<Rightarrow> ('g, 'm, unit) cio" where
  "worktree_add e cls img base =
     (if cls = Disabled_Cache then ret ()
      else bindio (unpack_cache_linked img) (\<lambda>linked.
        if linked then
          thenio (cache_git_prepare e (im_dir img) [] False)
            (bindio (if commit_hash_p base then worktree_head e img else ret None) (\<lambda>head.
              if head = Some base then ret ()
              else git0 e [''checkout'', ''-B'', branch_name_unready (im_dir img), base] (Some (im_dir img))))
        else
          thenio (unpack_clear img)
          (thenio (git0 e [''worktree'', ''add'', ''-f'', ''-B'', branch_name_unready (im_dir img),
                           ce_unpack_path e (im_dir img), base] None)
            (bindio (get_image (im_dir img)) (\<lambda>n. bindio (liftr (move_git_dir n)) (put_image (im_dir img)))))))"

text \<open>
  \<open>worktree_adopt\<close>: the image's directory is set aside, a working tree is made in its
  place, and the link file of that moves to the directory, which then comes back.
\<close>

definition put_image_tmp :: "node option \<Rightarrow> ('g, 'm, unit) cio" where
  "put_image_tmp n = modify (\<lambda>w. w\<lparr>cw_image_tmp := n\<rparr>)"

definition worktree_adopt :: "('g, 'm) cache_env \<Rightarrow> cache_class \<Rightarrow> image_id \<Rightarrow> string \<Rightarrow> ('g, 'm, unit) cio" where
  "worktree_adopt e cls img base =
     (if cls = Disabled_Cache then ret ()
      else
        thenio (put_image_tmp None)
        (bindio (get_image (im_dir img)) (\<lambda>n.
        thenio (put_image_tmp (Some n))
        (thenio (drop_image (im_dir img))
        (thenio (worktree_add e cls img base)
        (bindio (get_image (im_dir img)) (\<lambda>new.
         bindio (liftr (of_opt (Fatal ''can't rename: %s -> %s'') (node_at new git_dir_parts))) (\<lambda>link.
         bindio (gets cw_image_tmp) (\<lambda>tmp.
         bindio (liftr (bindr (of_opt (Fatal ''can't rename: %s -> %s'') tmp)
                   (\<lambda>tmp. node_alter (Fatal ''can't rename: %s -> %s'') (\<lambda>_. Some link) tmp git_dir_parts))) (\<lambda>tmp.
         thenio (put_image_tmp None) (put_image (im_dir img) tmp)))))))))))"

definition unpack_delete :: "('g, 'm) cache_env \<Rightarrow> image_id \<Rightarrow> bool \<Rightarrow> ('g, 'm, unit) cio" where
  "unpack_delete e img missing_ok =
     bindio (unpack_exist_p img) (\<lambda>there.
       if \<not> there \<and> missing_ok then ret ()
       else bindio (find_commit e (im_dir img)) (\<lambda>(_, commit).
         thenio (case commit of None \<Rightarrow> ret () | Some c \<Rightarrow> git0 e [''checkout'', c] (Some (im_dir img)))
           (image_unpack_delete img)))"

section \<open>The operations that a build uses\<close>

definition sid_text :: "state_id option \<Rightarrow> string" where
  "sid_text sid = (case sid of None \<Rightarrow> ''None'' | Some i \<Rightarrow> sid_str i)"

definition commit_text :: "string \<Rightarrow> string \<Rightarrow> string" where
  "commit_text msg sid = msg @ [newline, newline] @ sid"

definition commit_message :: "string \<Rightarrow> state_id option \<Rightarrow> string" where
  "commit_message msg sid = commit_text msg (sid_text sid)"

definition disabled_commit :: "string \<Rightarrow> ('g, 'm, string option) cio" where
  "disabled_commit d = bindio (get_image d) (\<lambda>n. thenio (put_image d (permissions_fix n)) (ret None))"

text \<open>\<open>commit\<close>, with the state ID as the text that goes into the message\<close>

definition commit_as :: "('g, 'm) cache_env \<Rightarrow> cache_class \<Rightarrow> image_id \<Rightarrow> string \<Rightarrow> string \<Rightarrow> path list \<Rightarrow>
    ('g, 'm, string option) cio" where
  "commit_as e cls img sid msg files =
     (let d = im_dir img in
      if cls = Disabled_Cache then disabled_commit d
      else
        thenio (cache_git_prepare e d files True)
        (thenio (git0 e (''add'' # (if files = [] then [''-A''] else files @ [pickle_path])) (Some d))
        (thenio (git0 e [''commit'', ''-q'', ''--allow-empty'', ''-m'', commit_text msg sid] (Some d))
        (bindio (git e [''rev-parse'', ''--short'', ''HEAD''] (Some d) False) (\<lambda>(_, out).
           let git_hash = strip_ws out in
           thenio (cache_git_restore e d files True) (ret (Some git_hash)))))))"

definition commit :: "('g, 'm) cache_env \<Rightarrow> cache_class \<Rightarrow> image_id \<Rightarrow> state_id option \<Rightarrow> string \<Rightarrow> path list \<Rightarrow>
    ('g, 'm, string option) cio" where
  "commit e cls img sid msg files = commit_as e cls img (sid_text sid) msg files"

text \<open>\<open>copy_unpacked\<close>, then \<open>unpack_init\<close>, which is an argument here\<close>

definition copy_unpacked :: "(node \<Rightarrow> node res) \<Rightarrow> image_id \<Rightarrow> image_id \<Rightarrow> ('g, 'm, unit) cio" where
  "copy_unpacked unpack_init img other =
     bindio (get_image (im_dir other)) (\<lambda>n.
     bindio (unpack_exist_p img) (\<lambda>there.
     bindio (check (\<not> there) (Os_Error ''file exists'')) (\<lambda>_.
     bindio (liftr (if node_at n git_dir_parts = None then Inr n
                    else node_alter (Fatal ''can't unlink: %s'') (\<lambda>_. None) n git_dir_parts)) (\<lambda>n.
     bindio (liftr (unpack_init n)) (put_image (im_dir img))))))"

definition standard_dirs_all :: "string list list" where
  "standard_dirs_all =
     map (\<lambda>d. [d]) [''bin'', ''dev'', ''etc'', ''mnt'', ''proc'', ''sys'', ''tmp'', ''usr'']
     @ map (\<lambda>i. [''mnt'', str_of_nat i]) [0..<10]"

definition ensure_file :: "string list \<Rightarrow> node \<Rightarrow> node res" where
  "ensure_file p n = (if node_at n p \<noteq> None then Inr n else file_write [] n p)"

definition ensure_dir :: "string list \<Rightarrow> node \<Rightarrow> node res" where
  "ensure_dir p n = (if node_at n p \<noteq> None then Inr n else mkdirs n p)"

definition unpack_init :: "node \<Rightarrow> node res" where
  "unpack_init n =
     bindr (mkdirs n [''ch'']) (\<lambda>n.
     bindr (ensure_file [''ch'', ''environment''] n) (\<lambda>n.
     bindr (foldr_res ensure_dir standard_dirs_all n) (\<lambda>n.
     bindr (ensure_file [''etc'', ''hosts''] n) (ensure_file [''etc'', ''resolv.conf'']))))"

definition disabled_checkout :: "image_id \<Rightarrow> image_id option \<Rightarrow> ('g, 'm, unit) cio" where
  "disabled_checkout img base =
     thenio (unpack_clear img)
       (bindio (liftr (of_opt Attribute_Error base)) (copy_unpacked unpack_init img))"

definition checkout :: "('g, 'm) cache_env \<Rightarrow> cache_class \<Rightarrow> image_id \<Rightarrow> string option \<Rightarrow> image_id option \<Rightarrow> ('g, 'm, unit) cio" where
  "checkout e cls img git_hash base =
     (if cls = Disabled_Cache then disabled_checkout img base
      else
        bindio (liftr (of_opt (Unmodelled ''checkout of no commit'') git_hash)) (\<lambda>h.
          thenio (worktree_add e cls img h) (cache_git_restore e (im_dir img) [] False)))"

definition ready :: "('g, 'm) cache_env \<Rightarrow> cache_class \<Rightarrow> image_id \<Rightarrow> ('g, 'm, unit) cio" where
  "ready e cls img =
     (if cls = Disabled_Cache then ret ()
      else bindio (find_deleted_image e img) (\<lambda>(_, h).
        thenio (whenio (h \<noteq> None) (tag_delete e (im_dir img) False))
        (thenio (git0 e [''checkout'', ''-B'', branch_name_ready (im_dir img)] (Some (im_dir img)))
          (branch_delete e (branch_name_unready (im_dir img))))))"

definition checkout_ready :: "('g, 'm) cache_env \<Rightarrow> cache_class \<Rightarrow> image_id \<Rightarrow> string option \<Rightarrow> image_id option \<Rightarrow> ('g, 'm, unit) cio" where
  "checkout_ready e cls img git_hash base = thenio (checkout e cls img git_hash base) (ready e cls img)"

definition rollback :: "('g, 'm) cache_env \<Rightarrow> cache_class \<Rightarrow> image_id \<Rightarrow> ('g, 'm, unit) cio" where
  "rollback e cls img =
     (let d = im_dir img in
      if cls = Disabled_Cache then bindio (get_image d) (\<lambda>n. put_image d (permissions_fix n))
      else seqio [cache_git_prepare e d [] False,
                  git0 e [''reset'', ''--hard'', ''HEAD''] (Some d),
                  git0 e [''clean'', ''-fdq''] (Some d),
                  cache_git_restore e d [] False])"

text \<open>
  \<open>adopt\<close>; loading and saving the image's metadata is an argument. It is not overridden
  in the disabled mode, where its state ID and commit are \<open>None\<close>.
\<close>

definition adopt :: "('g, 'm) cache_env \<Rightarrow> cache_class \<Rightarrow> (image_id \<Rightarrow> ('g, 'm, unit) cio) \<Rightarrow> image_id \<Rightarrow>
    ('g, 'm, state_id option \<times> string option) cio" where
  "adopt e cls load_save img =
     (let log = ''IMPORT '' @ im_str img in
      thenio (worktree_adopt e cls img ''root'')
      (thenio (load_save img)
      (bindio (liftr (sid_from_parent e cls (Some root_id) (Str_Input log))) (\<lambda>sid.
       bindio (commit e cls img sid log []) (\<lambda>gh.
       thenio (ready e cls img) (ret (sid, gh)))))))"

text \<open>\<open>pull_lazy\<close>: the last argument is the puller's \<open>sid_input\<close> if it has downloaded already.\<close>

definition disabled_pull_lazy :: "('g, 'm) cache_env \<Rightarrow> image_id \<Rightarrow> image_id \<Rightarrow> int option \<Rightarrow> bytes option \<Rightarrow>
    ('g, 'm, state_id option \<times> string option) cio" where
  "disabled_pull_lazy e img src last_layer pullet =
     bindio (unpack_exist_p img) (\<lambda>there.
       if pullet = None \<and> there then ret (None, None)
       else bindio (case pullet of None \<Rightarrow> ce_download e img src | Some i \<Rightarrow> ret i) (\<lambda>_.
         thenio (unpack_clear img) (thenio (ce_unpack e img last_layer) (thenio (ce_pull_done e) (ret (None, None))))))"

definition pull_lazy :: "('g, 'm) cache_env \<Rightarrow> cache_class \<Rightarrow> image_id \<Rightarrow> image_id \<Rightarrow> int option \<Rightarrow> bytes option \<Rightarrow>
    ('g, 'm, state_id option \<times> string option) cio" where
  "pull_lazy e cls img src last_layer pullet =
     (if cls = Disabled_Cache then disabled_pull_lazy e img src last_layer pullet
      else
        bindio (case pullet of None \<Rightarrow> ce_download e img src | Some i \<Rightarrow> ret i) (\<lambda>sid_input.
        thenio (ce_unpack e img last_layer)
        (bindio (liftr (sid_from_parent e cls (Some root_id) (Bytes_Input sid_input))) (\<lambda>sid.
        thenio (ce_pull_done e)
        (thenio (worktree_adopt e cls img ''root'')
        (bindio (commit e cls img sid (''PULL '' @ im_str src) []) (\<lambda>c.
        thenio (ready e cls img)
        (thenio (whenio (img \<noteq> src) (branch_nocheckout e cls src (Dest_Ref img)))
          (ret (sid, c))))))))))"

definition pull_eager :: "('g, 'm) cache_env \<Rightarrow> cache_class \<Rightarrow> image_id \<Rightarrow> image_id \<Rightarrow> int option \<Rightarrow> ('g, 'm, unit) cio" where
  "pull_eager e cls img src last_layer =
     bindio (ce_download e img src) (\<lambda>sid_input.
     bindio (liftr (sid_from_parent e cls (Some root_id) (Bytes_Input sid_input))) (\<lambda>dl_sid.
     bindio (find_sid e cls dl_sid (im_dir img)) (\<lambda>h.
       case h of
         Some h \<Rightarrow> thenio (tag_delete e (im_dir img) True) (checkout_ready e cls img (Some h) None)
       | None \<Rightarrow> bindio (pull_lazy e cls img src last_layer (Some sid_input)) (\<lambda>_. ret ()))))"

definition status_char :: "bool option \<Rightarrow> char" where
  "status_char miss = (case miss of None \<Rightarrow> CHR '' '' | Some True \<Rightarrow> CHR ''.'' | Some False \<Rightarrow> CHR ''*'')"

section \<open>Initialisation\<close>

text \<open>\<open>init\<close>: the mode asked for, and whether Git is there and new enough.\<close>

definition cache_init :: "build_mode option \<Rightarrow> bool \<Rightarrow> cache_class res" where
  "cache_init bucache have_deps =
     (let mode = (case bucache of None \<Rightarrow> if have_deps then Cache_Enabled else Cache_Disabled | Some m \<Rightarrow> m) in
      bindr (guard (mode = Cache_Disabled \<or> have_deps) (Fatal ''insufficient Git for build cache mode: %s'')) (\<lambda>_.
        Inr (case mode of Cache_Enabled \<Rightarrow> Enabled_Cache | Cache_Rebuild \<Rightarrow> Rebuild_Cache
             | Cache_Disabled \<Rightarrow> Disabled_Cache)))"

definition cache_str :: "cache_class \<Rightarrow> string \<Rightarrow> string" where
  "cache_str cls large =
     (case cls of Enabled_Cache \<Rightarrow> ''enabled (large='' @ large @ '')''
      | Rebuild_Cache \<Rightarrow> ''rebuild (large='' @ large @ '')'' | Disabled_Cache \<Rightarrow> ''disabled'')"

definition git_min :: "int list" where "git_min = [2, 28, 1]"

definition have_deps :: "runner \<Rightarrow> log_level \<Rightarrow> string option \<Rightarrow> bool \<Rightarrow> bool res" where
  \<comment> \<open>the third argument is what \<open>shutil.which("git")\<close> finds\<close>
  "have_deps run lvl which required =
     (case which of
        None \<Rightarrow> if required then Inl (Fatal ''no git(1) found'') else Inr False
      | Some g \<Rightarrow> version_check run lvl [g, ''--version''] git_min required)"

end
