(* ===== verification/Cache_Facts.thy ===== *)
theory Cache_Facts
  imports Cache
begin

text \<open>
  Facts on the build cache: initializing an image directory, reading state IDs back from
  the log, and finding what was committed.
\<close>

section \<open>Initialization of an image directory\<close>

text \<open>A tree that has everything of another as it is there; directories may have gained entries.\<close>

fun kept_as :: "node \<Rightarrow> node \<Rightarrow> bool" where
  "kept_as (Dir m es) y \<longleftrightarrow> (\<exists>es'. y = Dir m es')"
| "kept_as x y \<longleftrightarrow> y = x"

lemma kept_as_refl [simp]: "kept_as x x"
  by (cases x) auto

lemma kept_as_trans: "kept_as x y \<Longrightarrow> kept_as y z \<Longrightarrow> kept_as x z"
  by (cases x) auto

definition extends :: "node \<Rightarrow> node \<Rightarrow> bool" where
  "extends n n' \<longleftrightarrow> (\<forall>p x. node_at n p = Some x \<longrightarrow> (\<exists>y. node_at n' p = Some y \<and> kept_as x y))"

lemma extendsI: "(\<And>p x. node_at n p = Some x \<Longrightarrow> \<exists>y. node_at n' p = Some y \<and> kept_as x y) \<Longrightarrow> extends n n'"
  by (simp add: extends_def)

lemma extendsD: "extends n n' \<Longrightarrow> node_at n p = Some x \<Longrightarrow> \<exists>y. node_at n' p = Some y \<and> kept_as x y"
  by (simp add: extends_def)

lemma extends_refl [simp]: "extends n n"
  by (simp add: extends_def)

lemma extends_trans: "extends n n' \<Longrightarrow> extends n' n'' \<Longrightarrow> extends n n''"
  unfolding extends_def by (meson kept_as_trans)

lemma extends_there: "extends n n' \<Longrightarrow> node_at n p \<noteq> None \<Longrightarrow> node_at n' p \<noteq> None"
  using extendsD by fastforce

lemma extends_entry:
  assumes "\<And>x. map_of es c = Some x \<Longrightarrow> extends x n'"
  shows "extends (Dir m es) (Dir m (AList.update c n' es))"
proof (rule extendsI)
  fix p x assume x: "node_at (Dir m es) p = Some x"
  show "\<exists>y. node_at (Dir m (AList.update c n' es)) p = Some y \<and> kept_as x y"
  proof (cases p)
    case (Cons d q)
    with x obtain z where z: "map_of es d = Some z" "node_at z q = Some x" by (auto split: option.splits)
    show ?thesis
    proof (cases "d = c")
      case True
      with assms z extendsD [of z n' q x] Cons show ?thesis by (auto simp: dict_simps)
    next
      case False
      with z Cons show ?thesis by (auto simp: dict_simps)
    qed
  qed (use x in auto)
qed

lemma mkdirs_extends: "mkdirs n p = Inr n' \<Longrightarrow> extends n n' \<and> (\<exists>m es. node_at n' p = Some (Dir m es))"
proof (induction n p arbitrary: n' rule: mkdirs.induct)
  case (2 m es c cs)
  from "2.prems" obtain x where x: "mkdirs (case map_of es c of None \<Rightarrow> new_dir | Some n \<Rightarrow> n) cs = Inr x"
    and n': "n' = Dir m (AList.update c x es)" by (auto simp: res_simps)
  from "2.IH" [OF x] have "extends (Dir m es) (Dir m (AList.update c x es))" by (intro extends_entry) auto
  with "2.IH" [OF x] show ?case by (auto simp: n' dict_simps)
qed (auto split: node.splits)

lemma node_alter_new_extends:
  "node_alter e (\<lambda>_. Some y) n p = Inr n' \<Longrightarrow> node_at n p = None \<Longrightarrow> extends n n' \<and> node_at n' p = Some y"
proof (induction e "\<lambda>_ :: node option. Some y" n p arbitrary: n' rule: node_alter.induct)
  case (2 x m es c)
  then have "map_of es c = None" by (auto split: option.splits)
  with 2 show ?case using extends_entry [of es c y m] by (auto simp: dict_simps)
next
  case (3 x m es c d ds)
  then obtain z z' where z: "map_of es c = Some z"
      "node_alter x (\<lambda>_. Some y) z (d # ds) = Inr z'" "n' = Dir m (AList.update c z' es)"
    by (auto simp: res_simps split: option.splits)
  with 3 have "extends z z' \<and> node_at z' (d # ds) = Some y" by simp
  with extends_entry [of es c z' m] z show ?case by (auto simp: dict_simps)
qed auto

lemma ensure_file_extends: "ensure_file p n = Inr n' \<Longrightarrow> extends n n' \<and> node_at n' p \<noteq> None"
  using node_alter_new_extends [of _ "new_file []" n p n']
  by (cases "node_at n p") (auto simp: ensure_file_def file_write_def)

lemma ensure_dir_extends: "ensure_dir p n = Inr n' \<Longrightarrow> extends n n' \<and> node_at n' p \<noteq> None"
  using mkdirs_extends [of n p n'] by (cases "node_at n p") (auto simp: ensure_dir_def)

lemma ensure_dirs_extends:
  "foldr_res ensure_dir ps n = Inr n' \<Longrightarrow> extends n n' \<and> (\<forall>p \<in> set ps. node_at n' p \<noteq> None)"
proof (induction ps arbitrary: n)
  case (Cons p ps)
  then obtain n1 where n1: "ensure_dir p n = Inr n1" "foldr_res ensure_dir ps n1 = Inr n'" by (auto simp: res_simps)
  from ensure_dir_extends [OF n1(1)] Cons.IH [OF n1(2)] show ?case
    using extends_trans extends_there by (metis set_ConsD)
qed simp

lemma ensure_dirs_there: "\<forall>p \<in> set ps. node_at n p \<noteq> None \<Longrightarrow> foldr_res ensure_dir ps n = Inr n"
  by (induction ps) (auto simp: ensure_dir_def)

lemma update_same: "map_of es c = Some x \<Longrightarrow> AList.update c x es = es"
  by (induction es) auto

lemma mkdirs_there: "node_at n p = Some (Dir m es) \<Longrightarrow> mkdirs n p = Inr n"
proof (induction p arbitrary: n)
  case (Cons c p)
  then obtain m' es' x where "n = Dir m' es'" "map_of es' c = Some x" "node_at x p = Some (Dir m es)"
    by (cases n) (auto split: option.splits)
  with Cons.IH show ?case by (simp add: update_same)
qed simp

definition image_files :: "string list list" where
  "image_files = [''ch'', ''environment''] # [''etc'', ''hosts''] # [''etc'', ''resolv.conf''] # standard_dirs_all"

text \<open>
  C39: Initializing an image directory leaves everything that is there as it is, adds what
  every Charliecloud image has, and does nothing to a directory it has initialized.
\<close>

theorem unpack_init_idempotent:
  assumes "unpack_init n = Inr n'"
  shows "extends n n' \<and> (\<forall>p \<in> set image_files. node_at n' p \<noteq> None) \<and> unpack_init n' = Inr n'"
proof -
  from assms obtain n1 n2 n3 n4 where s: "mkdirs n [''ch''] = Inr n1" "ensure_file [''ch'', ''environment''] n1 = Inr n2"
    "foldr_res ensure_dir standard_dirs_all n2 = Inr n3" "ensure_file [''etc'', ''hosts''] n3 = Inr n4"
    "ensure_file [''etc'', ''resolv.conf''] n4 = Inr n'"
    by (auto simp: unpack_init_def res_simps)
  note e = mkdirs_extends [OF s(1)] ensure_file_extends [OF s(2)] ensure_dirs_extends [OF s(3)]
    ensure_file_extends [OF s(4)] ensure_file_extends [OF s(5)]
  have x: "extends n3 n'" "extends n2 n'" "extends n1 n'" "extends n4 n'" using e extends_trans by blast+
  with e(1) extends_trans have 1: "extends n n'" by blast
  from e(1) x(3) obtain m es where ch: "node_at n' [''ch''] = Some (Dir m es)"
    using extendsD [OF x(3), of "[''ch'']"] by fastforce
  have files: "\<forall>p \<in> set image_files. node_at n' p \<noteq> None"
    using e x extends_there [of _ n'] by (simp only: image_files_def list.set ball_simps) blast
  then have "unpack_init n' = Inr n'"
    using mkdirs_there [OF ch] ensure_dirs_there [of standard_dirs_all n']
    by (simp add: unpack_init_def image_files_def ensure_file_def)
  with 1 files show ?thesis by blast
qed

lemma unpack_init_idempotent_witness:
  "let n = (case unpack_init new_dir of Inr n \<Rightarrow> n | Inl _ \<Rightarrow> new_dir) in unpack_init n = Inr n"
proof -
  have "is_ok (unpack_init new_dir)" by code_simp
  then obtain n where "unpack_init new_dir = Inr n" by (cases "unpack_init new_dir") auto
  from unpack_init_idempotent [OF this] this show ?thesis by simp
qed

section \<open>State IDs in commits\<close>

text \<open>
  C38: The state ID and the hash that the cache reads from \<open>git log --format=%h%n%B\<close> are those
  of the commit, whatever the message says: the message of a commit ends with the state ID.
\<close>

theorem log_parse_commit:
  assumes "newline \<notin> set h" "length sid = 16" "list_all (\<lambda>c. \<not> is_hex c) post"
  shows "log_parse (h @ [newline] @ commit_message msg (Some sid) @ post) = Inr (Some sid, Some h)"
proof -
  let ?out = "h @ [newline] @ commit_message msg (Some sid) @ post"
  have "from_text ?out = Inr sid"
    using from_text_str [OF assms(2,3), of "h @ newline # msg @ [newline, newline]"]
    by (simp add: commit_message_def commit_text_def sid_text_def)
  moreover have "hd (split_on newline ?out) = h" using assms(1) by (simp add: split_on_append)
  ultimately show ?thesis by (simp add: log_parse_def)
qed

lemma log_parse_commit_witness:
  "log_parse (''1a2b3c4'' @ [newline] @ commit_message ''RUN true'' (Some root_id) @ [newline]) = Inr (Some root_id, Some ''1a2b3c4'')"
proof (rule log_parse_commit)
  show "length root_id = 16" by code_simp
  show "list_all (\<lambda>c. \<not> is_hex c) [newline]" by code_simp
qed simp

section \<open>Finding what was committed\<close>

text \<open>
  What the cache relies on in Git: \<open>git log --grep -F -n 1\<close> gives the newest commit of a
  branch, or of all, whose message has the text; a commit that succeeds is one of all
  commits, and its message still has the last line when that is one word; \<open>rev-parse\<close>
  changes nothing. The arguments tell the hash and message of the commits.
\<close>

definition grep_commits :: "string \<Rightarrow> (string \<times> string) list \<Rightarrow> string option" where
  "grep_commits s cs = map_option fst (find (\<lambda>(h, m). sublist s m) cs)"

definition grep_output :: "string \<Rightarrow> (string \<times> string) list \<Rightarrow> string" where
  "grep_output s cs = (case grep_commits s cs of None \<Rightarrow> [] | Some h \<Rightarrow> h @ [newline])"

definition git_log_spec :: "('g, 'm) cache_env \<Rightarrow> ('g \<Rightarrow> string \<Rightarrow> (string \<times> string) list option) \<Rightarrow>
    ('g \<Rightarrow> (string \<times> string) list) \<Rightarrow> bool" where
  "git_log_spec e branch all \<longleftrightarrow> (\<forall>w s.
     (\<forall>b. case branch (cw_git w) b of
         None \<Rightarrow> \<exists>code out. code \<noteq> 0 \<and>
           ce_git e None [''log'', ''--grep'', s, ''-F'', ''--format=%h'', ''-n'', ''1'', b] None w = ((code, out), w)
       | Some cs \<Rightarrow> set cs \<subseteq> set (all (cw_git w)) \<and>
           ce_git e None [''log'', ''--grep'', s, ''-F'', ''--format=%h'', ''-n'', ''1'', b] None w = ((0, grep_output s cs), w)) \<and>
     ce_git e None [''log'', ''--grep'', s, ''-F'', ''--format=%h'', ''-n'', ''1'', ''--all'', ''--reflog''] None w
       = ((0, grep_output s (all (cw_git w))), w) \<and>
     (\<forall>(h, m) \<in> set (all (cw_git w)). h \<noteq> [] \<and> list_all (\<lambda>c. \<not> is_space c) h))"

definition git_commit_spec :: "('g, 'm) cache_env \<Rightarrow> ('g \<Rightarrow> (string \<times> string) list) \<Rightarrow> bool" where
  "git_commit_spec e all \<longleftrightarrow> (\<forall>d w x t out w'. t \<noteq> [] \<longrightarrow> list_all (\<lambda>c. \<not> is_space c) t \<longrightarrow>
       ce_git e (Some d) [''commit'', ''-q'', ''--allow-empty'', ''-m'', x @ [newline, newline] @ t] None w = ((0, out), w') \<longrightarrow>
       (\<exists>(h, m) \<in> set (all (cw_git w')). sublist t m)) \<and>
     (\<forall>d w. cw_git (snd (ce_git e (Some d) [''rev-parse'', ''--short'', ''HEAD''] None w)) = cw_git w)"

lemma split_ws_acc_word:
  "list_all (\<lambda>c. \<not> is_space c) h \<Longrightarrow> split_ws_acc w (h @ [newline]) = (if rev w @ h = [] then [] else [rev w @ h])"
  by (induction h arbitrary: w) (auto simp: is_space_def)

lemma split_ws_word: "h \<noteq> [] \<Longrightarrow> list_all (\<lambda>c. \<not> is_space c) h \<Longrightarrow> split_ws (h @ [newline]) = [h]"
  by (simp add: split_ws_def split_ws_acc_word)

lemma grep_commits_in: "grep_commits s cs = Some h \<Longrightarrow> \<exists>m. (h, m) \<in> set cs \<and> sublist s m"
  by (auto simp: grep_commits_def find_Some_iff) (metis nth_mem)

lemma grep_commits_None: "grep_commits s cs = None \<longleftrightarrow> (\<forall>(h, m) \<in> set cs. \<not> sublist s m)"
  by (auto simp: grep_commits_def find_None_iff)

lemma git_log_specD:
  assumes "git_log_spec e branch all"
  shows "ce_git e None [''log'', ''--grep'', s, ''-F'', ''--format=%h'', ''-n'', ''1'', ''--all'', ''--reflog''] None w
       = ((0, grep_output s (all (cw_git w))), w)"
    and "branch (cw_git w) b = None \<Longrightarrow> \<exists>code out. code \<noteq> 0 \<and>
           ce_git e None [''log'', ''--grep'', s, ''-F'', ''--format=%h'', ''-n'', ''1'', b] None w = ((code, out), w)"
    and "branch (cw_git w) b = Some cs \<Longrightarrow> set cs \<subseteq> set (all (cw_git w)) \<and>
           ce_git e None [''log'', ''--grep'', s, ''-F'', ''--format=%h'', ''-n'', ''1'', b] None w = ((0, grep_output s cs), w)"
    and "(h, m) \<in> set (all (cw_git w)) \<Longrightarrow> h \<noteq> [] \<and> list_all (\<lambda>c. \<not> is_space c) h"
proof -
  note a = assms [unfolded git_log_spec_def, THEN spec [where x = w], THEN spec]
  show "branch (cw_git w) b = None \<Longrightarrow> \<exists>code out. code \<noteq> 0 \<and>
           ce_git e None [''log'', ''--grep'', s, ''-F'', ''--format=%h'', ''-n'', ''1'', b] None w = ((code, out), w)"
    using a [of s, THEN conjunct1, THEN spec, of b] by simp
  show "branch (cw_git w) b = Some cs \<Longrightarrow> set cs \<subseteq> set (all (cw_git w)) \<and>
           ce_git e None [''log'', ''--grep'', s, ''-F'', ''--format=%h'', ''-n'', ''1'', b] None w = ((0, grep_output s cs), w)"
    using a [of s, THEN conjunct1, THEN spec, of b] by simp
  show "ce_git e None [''log'', ''--grep'', s, ''-F'', ''--format=%h'', ''-n'', ''1'', ''--all'', ''--reflog''] None w
       = ((0, grep_output s (all (cw_git w))), w)"
    using a [of s] by blast
  show "(h, m) \<in> set (all (cw_git w)) \<Longrightarrow> h \<noteq> [] \<and> list_all (\<lambda>c. \<not> is_space c) h"
    using a [of s] by blast
qed

lemma find_sid_in_all:
  assumes "git_log_spec e branch all"
  shows "find_sid_in e sid None w = (Inr (grep_commits (sid_str sid) (all (cw_git w))), w)"
proof -
  let ?r = "grep_commits (sid_str sid) (all (cw_git w))"
  note g = git_log_specD(1) [OF assms, where s = "sid_str sid" and w = w]
  show ?thesis
  proof (cases ?r)
    case None
    with g show ?thesis by (simp add: find_sid_in_def io_run git_def grep_output_def)
  next
    case (Some h)
    with grep_commits_in git_log_specD(4) [OF assms] have "h \<noteq> []" "list_all (\<lambda>c. \<not> is_space c) h"
      by blast+
    with g Some show ?thesis by (simp add: find_sid_in_def io_run git_def grep_output_def split_ws_word)
  qed
qed

lemma find_sid_in_branch:
  assumes "git_log_spec e branch all"
  shows "find_sid_in e sid (Some b) w = (Inr (case branch (cw_git w) b of None \<Rightarrow> None | Some cs \<Rightarrow> grep_commits (sid_str sid) cs), w)"
proof (cases "branch (cw_git w) b")
  case None
  from git_log_specD(2) [OF assms this, where s = "sid_str sid"] obtain code out where "code \<noteq> 0"
    "ce_git e None [''log'', ''--grep'', sid_str sid, ''-F'', ''--format=%h'', ''-n'', ''1'', b] None w = ((code, out), w)"
    by blast
  with None show ?thesis by (simp add: find_sid_in_def io_run git_def)
next
  case (Some cs)
  from git_log_specD(3) [OF assms this, where s = "sid_str sid"]
  have g: "ce_git e None [''log'', ''--grep'', sid_str sid, ''-F'', ''--format=%h'', ''-n'', ''1'', b] None w
      = ((0, grep_output (sid_str sid) cs), w)" and sub: "set cs \<subseteq> set (all (cw_git w))"
    by blast+
  show ?thesis
  proof (cases "grep_commits (sid_str sid) cs")
    case None
    with g Some show ?thesis by (simp add: find_sid_in_def io_run git_def grep_output_def)
  next
    case (Some h)
    with grep_commits_in sub git_log_specD(4) [OF assms] have "h \<noteq> []" "list_all (\<lambda>c. \<not> is_space c) h"
      by blast+
    with g Some \<open>branch _ _ = _\<close> show ?thesis by (simp add: find_sid_in_def io_run git_def grep_output_def split_ws_word)
  qed
qed

lemma find_sid_run:
  assumes "git_log_spec e branch all"
  shows "find_sid e Enabled_Cache (Some sid) b w =
      (Inr (case (case branch (cw_git w) b of None \<Rightarrow> None | Some cs \<Rightarrow> grep_commits (sid_str sid) cs) of
              Some h \<Rightarrow> Some h | None \<Rightarrow> grep_commits (sid_str sid) (all (cw_git w))), w)"
  by (simp add: find_sid_def io_run find_sid_in_all [OF assms] find_sid_in_branch [OF assms] split: option.splits)

text \<open>
  C40: The cache finds a state ID in the branch first, then in all commits, reachable from a
  branch or not; it misses only if no commit at all has the state ID.
\<close>

theorem find_sid_newest:
  assumes "git_log_spec e branch all"
  shows "find_sid e Enabled_Cache (Some sid) b w =
      (Inr (case (case branch (cw_git w) b of None \<Rightarrow> None | Some cs \<Rightarrow> grep_commits (sid_str sid) cs) of
              Some h \<Rightarrow> Some h | None \<Rightarrow> grep_commits (sid_str sid) (all (cw_git w))), w)"
  by (rule find_sid_run [OF assms])

lemma git_commit_specD:
  assumes "git_commit_spec e all"
  shows "t \<noteq> [] \<Longrightarrow> list_all (\<lambda>c. \<not> is_space c) t \<Longrightarrow>
      ce_git e (Some d) [''commit'', ''-q'', ''--allow-empty'', ''-m'', x @ [newline, newline] @ t] None w = ((0, out), w') \<Longrightarrow>
      \<exists>h m. (h, m) \<in> set (all (cw_git w')) \<and> sublist t m"
    and "cw_git (snd (ce_git e (Some d') [''rev-parse'', ''--short'', ''HEAD''] None v)) = cw_git v"
  using assms unfolding git_commit_spec_def by (blast, blast)

lemma git_Inr [io_simps]:
  "git e argv cwd fail_ok w = (Inr r, w') \<longleftrightarrow>
     ce_git e cwd argv None w = (r, w') \<and> (fail_ok \<or> fst r = 0)"
  by (auto simp: git_def split: prod.splits)

lemma git0_Inr [io_simps]:
  "git0 e argv cwd w = (Inr u, w') \<longleftrightarrow> (\<exists>out. ce_git e cwd argv None w = ((0, out), w'))"
  by (auto simp: git0_def io_simps)

text \<open>Restoring metadata does not run Git.\<close>

lemma keeps_git: 
  "keeps (\<lambda>w. cw_git w = g) (put_image d n)" "keeps (\<lambda>w. cw_git w = g) (get_image d)"
  "keeps (\<lambda>w. cw_git w = g) (unpickle e d)" "keeps (\<lambda>w. cw_git w = g) (cache_git_restore e d files quick)"
proof -
  show p: "keeps (\<lambda>w. cw_git w = g) (put_image d n)" for d n
    by (simp add: put_image_def keeps_def io_run)
  show gi: "keeps (\<lambda>w. cw_git w = g) (get_image d)" for d
    by (simp add: get_image_def keeps_bindio)
  show u: "keeps (\<lambda>w. cw_git w = g) (unpickle e d)"
    unfolding unpickle_def by (intro keeps_bindio gi keeps_pure) (simp add: keeps_def io_run)
  show "keeps (\<lambda>w. cw_git w = g) (cache_git_restore e d files quick)"
    unfolding cache_git_restore_def
    by (intro keeps_thenio keeps_whenio u keeps_bindio keeps_pure gi)
      (auto simp: Let_def split: prod.split option.split intro!: keeps_bindio p)
qed

lemma sid_str_word: "sid_str sid \<noteq> [] \<and> list_all (\<lambda>c. \<not> is_space c) (sid_str sid)"
proof -
  let ?s = "map to_upper (bytes_hex sid)"
  have "\<not> is_space c" if "is_hex c" for c
    using that by (auto simp: is_hex_def is_space_def is_digit_def in_range_def)
  with bytes_hex_all [of sid] have "list_all (\<lambda>c. \<not> is_space c) (State_Ids.slice a b ?s)" for a b
    unfolding State_Ids.slice_def list_all_iff by (meson in_set_takeD in_set_dropD)
  moreover have "\<not> is_space CHR '':''" by code_simp
  ultimately show ?thesis unfolding sid_str_def Let_def by simp
qed

text \<open>The state IDs that are in the message of a commit\<close>

definition known :: "('g \<Rightarrow> (string \<times> string) list) \<Rightarrow> 'g \<Rightarrow> state_id set" where
  "known all g = {sid. \<exists>(h, m) \<in> set (all g). sublist (sid_str sid) m}"

lemma known_grep: "sid \<in> known all g \<longleftrightarrow> grep_commits (sid_str sid) (all g) \<noteq> None"
  by (auto simp: known_def grep_commits_None)

lemma find_sid_known:
  assumes "git_log_spec e branch all" "find_sid e Enabled_Cache (Some sid) b w = (Inr r, w')"
  shows "w' = w \<and> (r = None \<longleftrightarrow> sid \<notin> known all (cw_git w)) \<and> (\<forall>h. r = Some h \<longrightarrow> (\<exists>m. (h, m) \<in> set (all (cw_git w)) \<and> sublist (sid_str sid) m))"
proof -
  let ?s = "sid_str sid"
  have r: "w' = w" "r = (case (case branch (cw_git w) b of None \<Rightarrow> None | Some cs \<Rightarrow> grep_commits ?s cs) of
              Some h \<Rightarrow> Some h | None \<Rightarrow> grep_commits ?s (all (cw_git w)))"
    using assms(2) unfolding find_sid_run [OF assms(1)] by blast+
  have "\<exists>m. (h, m) \<in> set (all (cw_git w)) \<and> sublist ?s m" if "r = Some h" for h
  proof (cases "case branch (cw_git w) b of None \<Rightarrow> None | Some cs \<Rightarrow> grep_commits ?s cs")
    case None
    with r(2) that grep_commits_in show ?thesis by auto
  next
    case (Some h')
    then obtain cs where cs: "branch (cw_git w) b = Some cs" "grep_commits ?s cs = Some h'" by (auto split: option.splits)
    with git_log_specD(3) [OF assms(1) cs(1)] grep_commits_in [OF cs(2)] Some r(2) that show ?thesis by auto
  qed
  moreover have "r = None \<Longrightarrow> grep_commits ?s (all (cw_git w)) = None" using r(2) by (auto split: option.splits)
  ultimately show ?thesis using r(1) by (cases r) (auto simp: known_def grep_commits_None)
qed

lemma commit_known:
  assumes "git_commit_spec e all" "cls \<noteq> Disabled_Cache" "commit e cls img (Some sid) msg files w = (Inr r, w')"
  shows "sid \<in> known all (cw_git w')"
proof -
  let ?d = "im_dir img"
  from assms(2,3) obtain w1 w2 out w3 w4 code h where
    c: "ce_git e (Some ?d) [''commit'', ''-q'', ''--allow-empty'', ''-m'', commit_message msg (Some sid)] None w1 = ((0, out), w2)"
    and r: "ce_git e (Some ?d) [''rev-parse'', ''--short'', ''HEAD''] None w2 = ((code, h), w3)"
    and x: "cache_git_restore e ?d files True w3 = (Inr (), w4)" and w4: "w4 = w'"
    unfolding commit_def commit_as_def commit_message_def [symmetric] Let_def
    by (simp only: if_False thenio_Inr bindio_Inr git0_Inr git_Inr ret_Inr split_paired_Ex prod.case fst_conv simp_thms)
      (elim exE conjE, rule that, assumption+)
  from c have "ce_git e (Some ?d) [''commit'', ''-q'', ''--allow-empty'', ''-m'', msg @ [newline, newline] @ sid_str sid] None w1
      = ((0, out), w2)" by (simp add: commit_message_def commit_text_def sid_text_def)
  from git_commit_specD(1) [OF assms(1) _ _ this] sid_str_word [of sid]
  obtain h1 m1 where "(h1, m1) \<in> set (all (cw_git w2))" "sublist (sid_str sid) m1" by blast
  moreover have "cw_git w3 = cw_git w2" using git_commit_specD(2) [OF assms(1), of "?d" w2] r by simp
  moreover have "cw_git w' = cw_git w3" using keeps_git(4) [of "cw_git w3" e ?d files True] x w4 by (auto simp: keeps_def)
  ultimately show ?thesis by (auto simp: known_def)
qed

text \<open>
  C37: What was committed under a state ID is found again: after a commit, looking for its
  state ID is a hit, on a commit whose message has that state ID.
\<close>

theorem commit_then_hit:
  assumes "git_log_spec e branch all" "git_commit_spec e all" "cls \<noteq> Disabled_Cache"
    and "commit e cls img (Some sid) msg files w = (Inr r, w')"
  shows "\<exists>h m. find_sid e Enabled_Cache (Some sid) b w' = (Inr (Some h), w') \<and>
      (h, m) \<in> set (all (cw_git w')) \<and> sublist (sid_str sid) m"
proof -
  have "sid \<in> known all (cw_git w')" by (rule commit_known [OF assms(2-4)])
  moreover obtain r2 where f: "find_sid e Enabled_Cache (Some sid) b w' = (Inr r2, w')"
    using find_sid_run [OF assms(1)] by blast
  ultimately show ?thesis using find_sid_known [OF assms(1) f] by (cases r2) auto
qed


text \<open>A Git that only knows messages: the specifications can hold.\<close>

definition example_commits :: "(string \<times> string) list \<Rightarrow> (string \<times> string) list" where
  "example_commits = filter (\<lambda>(h, m). h = ''1a2b3c4'')"

definition example_git :: "string option \<Rightarrow> string list \<Rightarrow> string option \<Rightarrow> (string \<times> string) list cworld \<Rightarrow>
    (int \<times> string) \<times> (string \<times> string) list cworld" where
  "example_git cwd argv inp w =
     (if take 1 argv = [''commit''] then ((0, []), w\<lparr>cw_git := (''1a2b3c4'', last argv @ [newline]) # cw_git w\<rparr>)
      else if take 1 argv = [''log''] then ((0, grep_output (argv ! 2) (example_commits (cw_git w))), w)
      else ((0, ''1a2b3c4''), w))"

definition example_cache_env :: "((string \<times> string) list, unit) cache_env" where
  "example_cache_env = \<lparr>ce_git = example_git, ce_md5 = \<lambda>b. b, ce_fm = example_fm_env, ce_dumps = \<lambda>_. [],
     ce_loads = \<lambda>_. Inl Value_Error, ce_inode = \<lambda>w. 0, ce_unpack_path = \<lambda>d. d, ce_download = \<lambda>a b. ret [],
     ce_unpack = \<lambda>a b. ret (), ce_pull_done = ret ()\<rparr>"

definition example_cworld :: "(string \<times> string) list cworld" where
  "example_cworld = \<lparr>cw_git = [],
     cw_images = [(''img'', Dir (example_meta 0x1ED 1 2 0)
        [(''ch'', Dir (example_meta 0x1ED 2 2 0) [(''x'', Reg (example_meta 0x1A4 3 1 0) [])])])],
     cw_image_tmp = None, cw_large = [], cw_fm = None, cw_bootstrap_ct = 0\<rparr>"

lemma example_log_spec: "git_log_spec example_cache_env (\<lambda>g b. Some (example_commits g)) example_commits"
  by (auto simp: git_log_spec_def example_cache_env_def example_git_def example_commits_def is_space_def)

lemma example_commit_spec: "git_commit_spec example_cache_env example_commits"
proof -
  have "sublist t (x @ newline # newline # t @ [newline])" for t x
    using sublist_appendI [of t "x @ [newline, newline]" "[newline]"] by simp
  then show ?thesis
    unfolding git_commit_spec_def by (auto simp: example_cache_env_def example_git_def example_commits_def)
qed

lemma find_sid_newest_witness:
  "find_sid example_cache_env Enabled_Cache (Some root_id) ''img'' example_cworld = (Inr None, example_cworld)"
  by (simp add: find_sid_newest [OF example_log_spec] example_cworld_def example_commits_def grep_commits_def)

lemma commit_then_hit_witness:
  "let e = example_cache_env; img = \<lparr>im_dir = ''img'', im_str = ''img''\<rparr>;
       (r, w) = commit e Enabled_Cache img (Some root_id) ''RUN true'' [] example_cworld
   in r = Inr (Some ''1a2b3c4'') \<and> (\<exists>h. find_sid e Enabled_Cache (Some root_id) ''img'' w = (Inr (Some h), w))"
proof -
  let ?img = "\<lparr>im_dir = ''img'', im_str = ''img''\<rparr>"
  let ?c = "commit example_cache_env Enabled_Cache ?img (Some root_id) ''RUN true'' [] example_cworld"
  have "(case fst ?c of Inr h \<Rightarrow> h | Inl x \<Rightarrow> None) = Some ''1a2b3c4''" by code_simp
  then obtain w' where w': "?c = (Inr (Some ''1a2b3c4''), w')"
    by (cases ?c) (simp split: sum.splits)
  from commit_then_hit [OF example_log_spec example_commit_spec _ w', of "''img''"] w' show ?thesis
    by (auto simp: Let_def)
qed

end
