(* ===== verification/Force.thy ===== *)
theory Force
  imports Utils Variables Io
begin

text \<open>
  Root emulation (\<open>lib/force.py\<close>): the configurations for fakeroot, \<open>--force-cmd\<close>, and the
  classes that modify the commands of RUN instructions. Running a command in a container is
  an argument that changes the state; so is what the configuration files contain.
\<close>

section \<open>Fakeroot configurations\<close>

record fr_config =
  c_tag :: string
  c_name :: string
  c_file :: string                      \<comment> \<open>first item of \<open>match\<close>\<close>
  c_match :: re                         \<comment> \<open>second item\<close>
  c_init :: "(string \<times> string) list"
  c_cmds :: "string list"
  c_each :: "string list"

definition fedora_config :: fr_config where
  "fedora_config = \<lparr>c_tag = ''fedora'', c_name = ''Fedora 24+'', c_file = ''/etc/fedora-release'',
     c_match = Seqs [Lit ''release '', Not_Ahead (Alt (Seqs [Opt (Lit ''1''), Cls is_digit, Lit '' ''])
       (Seqs [Lit ''2'', Cls (in_range CHR ''0'' CHR ''3''), Lit '' '']))],
     c_init = [(''command -v fakeroot > /dev/null'',
       ''dnf install -y fakeroot'')],
     c_cmds = [''dnf'', ''rpm'', ''yum''], c_each = [''fakeroot'']\<rparr>"

definition rhel7_config :: fr_config where
  "rhel7_config = \<lparr>c_tag = ''rhel7'', c_name = ''RHEL 7 and derivatives'', c_file = ''/etc/redhat-release'',
     c_match = Lit ''release 7.'',
     c_init = [(''command -v fakeroot > /dev/null'',
       ''set -e; '' @
        ''if ! grep -Eq '' @ [squote] @ [backslash] @ ''[epel'' @ [backslash] @ '']'' @ [squote] @ '' /etc/yum.conf /etc/yum.repos.d/*; '' @
        ''then yum install -y https://dl.fedoraproject.org/pub/epel/epel-release-latest-7.noarch.rpm; '' @
        ''yum install -y fakeroot; '' @
        ''yum remove -y epel-release; '' @
        ''else yum install -y fakeroot; '' @
        ''fi; '')],
     c_cmds = [''dnf'', ''rpm'', ''yum''], c_each = [''fakeroot'']\<rparr>"

definition rhel8_config :: fr_config where
  "rhel8_config = \<lparr>c_tag = ''rhel8'', c_name = ''RHEL 8+ and derivatives'', c_file = ''/etc/redhat-release'',
     c_match = Seqs [Lit ''release '', Not_Ahead (Seq (Cls (in_range CHR ''0'' CHR ''7'')) (Lit ''.''))],
     c_init = [(''command -v fakeroot > /dev/null'',
       ''set -e; '' @
        ''if ! grep -Eq '' @ [squote] @ [backslash] @ ''[epel'' @ [backslash] @ '']'' @ [squote] @ '' /etc/yum.conf /etc/yum.repos.d/*; '' @
        ''then dnf install -y https://dl.fedoraproject.org/pub/epel/epel-release-latest-$(rpm -E %rhel).noarch.rpm; '' @
        ''dnf install -y fakeroot; '' @
        ''dnf remove -y epel-release; '' @
        ''else dnf install -y fakeroot; '' @
        ''fi; '')],
     c_cmds = [''dnf'', ''rpm'', ''yum''], c_each = [''fakeroot'']\<rparr>"

definition debderiv_config :: fr_config where
  "debderiv_config = \<lparr>c_tag = ''debderiv'', c_name = ''Debian 9+, Ubuntu 14+, or other derivative'', c_file = ''/etc/os-release'',
     c_match = Alt (Seqs [Lit ''Debian GNU/Linux '', Not_Ahead (Seq (Cls (in_range CHR ''0'' CHR ''8'')) (Lit '' ''))])
       (Alt (Seqs [Lit ''Ubuntu '', Not_Ahead (Alt (Seq (Cls is_digit) (Lit ''.''))
                (Seqs [Lit ''1'', Cls (in_range CHR ''0'' CHR ''3''), Lit ''.'']))])
          (Lit ''ID_LIKE=debian'')),
     c_init = [(''apt-config dump | fgrep -q '' @ [squote] @ ''APT::Sandbox::User '' @ [dquote] @ ''root'' @ [dquote] @ [squote] @ '' || ! fgrep -q _apt /etc/passwd'',
       ''echo '' @ [squote] @ ''APT::Sandbox::User '' @ [dquote] @ ''root'' @ [dquote] @ '';'' @ [squote] @ '' > /etc/apt/apt.conf.d/no-sandbox''),
      (''command -v fakeroot > /dev/null'',
       ''apt-get update && apt-get install -y fakeroot'')],
     c_cmds = [''apt'', ''apt-get'', ''dpkg''], c_each = [''fakeroot'']\<rparr>"

definition suse_config :: fr_config where
  "suse_config = \<lparr>c_tag = ''suse'', c_name = ''(Open)SUSE 42.2+'', c_file = ''/etc/os-release'',
     c_match = Seqs [Lit ''ID_LIKE='', Many Any, Lit ''suse''],
     c_init = [(''command -v fakeroot > /dev/null'',
       ''zypper refresh; zypper install -y fakeroot /usr/bin/getopt'')],
     c_cmds = [''zypper'', ''rpm''], c_each = [''fakeroot'']\<rparr>"

definition arch_config :: fr_config where
  "arch_config = \<lparr>c_tag = ''arch'', c_name = ''Arch Linux'', c_file = ''/etc/os-release'',
     c_match = Lit ''ID=arch'',
     c_init = [(''command -v fakeroot > /dev/null'',
       ''pacman -Syq --noconfirm fakeroot'')],
     c_cmds = [''pacman''], c_each = [''fakeroot'']\<rparr>"

definition alpine_config :: fr_config where
  "alpine_config = \<lparr>c_tag = ''alpine'', c_name = ''Alpine, any version'', c_file = ''/etc/alpine-release'',
     c_match = Seqs [Cls is_digit, Lit ''.'', Many1 (Cls is_digit), Lit ''.'', Many1 (Cls is_digit)],
     c_init = [(''command -v fakeroot > /dev/null'',
       ''apk update; apk add fakeroot'')],
     c_cmds = [''apk''], c_each = [''fakeroot'']\<rparr>"

definition fakeroot_default_configs :: "fr_config list" where
  "fakeroot_default_configs =
     [fedora_config, rhel7_config, rhel8_config, debderiv_config, suse_config, arch_config, alpine_config]"

text \<open>
  \<open>grep_p\<close> on the lines of a file: the argument tells for a path if it is a regular file
  and, then, what reading it gives.
\<close>

definition grep_p :: "re \<Rightarrow> string list res \<Rightarrow> bool res" where
  "grep_p r lines = bindr lines (\<lambda>ls. Inr (list_ex (search_p r) ls))"

fun find_config :: "(string \<Rightarrow> string list res option) \<Rightarrow> string \<Rightarrow> fr_config list \<Rightarrow> fr_config res" where
  "find_config files image_path [] = Inl (Fatal ''--force=fakeroot not available (no suitable config found)'')"
| "find_config files image_path (c # cs) =
     (case files (image_path @ ''/'' @ c_file c) of
        None \<Rightarrow> find_config files image_path cs
      | Some lines \<Rightarrow> bindr (grep_p (c_match c) lines) (\<lambda>b. if b then Inr c else find_config files image_path cs))"

section \<open>The option --force-cmd\<close>

definition force_cmd_default :: "(string, string list) dict" where
  "force_cmd_default =
     [(''apt'', [''-o'', ''APT::Sandbox::User=root'']), (''apt-get'', [''-o'', ''APT::Sandbox::User=root''])]"

definition comma_re :: re where \<comment> \<open>\<open>r"(?<!\\)(?:\\\\)*,"\<close>\<close>
  "comma_re = Seqs [Not_Behind (\<lambda>c. c = backslash), Many (Lit [backslash, backslash]), Lit '','']"

definition escape_re :: re where \<comment> \<open>\<open>r"\\(.)"\<close>, to be replaced by \<open>r"\1"\<close>\<close>
  "escape_re = Seq (Lit [backslash]) (Grp 1 Any)"

definition unescape_arg :: "string \<Rightarrow> string" where
  "unescape_arg a = re_sub escape_re (\<lambda>m. re_group a m 1) a"

definition force_cmd_parse :: "string \<Rightarrow> (string \<times> string list) res" where
  "force_cmd_parse text =
     (let args = re_split comma_re text in
      bindr (guard (length args \<ge> 2) (Fatal ''--force-cmd: need at least one ARG'')) (\<lambda>_.
      bindr (guard (hd args \<noteq> []) (Fatal ''--force-cmd: CMD can't be empty'')) (\<lambda>_.
        let args = map unescape_arg args in Inr (hd args, tl args))))"

section \<open>Forcer objects\<close>

record fakeroot =
  fr_image_path :: string
  fr_config :: fr_config
  fr_install_done :: bool

datatype forcer_kind = Nope | Fakeroot fakeroot | Seccomp "(string, string list) dict"

record forcer =
  fc_kind :: forcer_kind
  fc_run_modified_ct :: nat

definition forcer_of :: "forcer_kind \<Rightarrow> forcer" where
  "forcer_of k = \<lparr>fc_kind = k, fc_run_modified_ct = 0\<rparr>"

definition fakeroot_init :: "(string \<Rightarrow> string list res option) \<Rightarrow> string \<Rightarrow> fakeroot res" where
  "fakeroot_init files image_path =
     bindr (find_config files image_path fakeroot_default_configs) (\<lambda>c.
       Inr \<lparr>fr_image_path = image_path, fr_config = c, fr_install_done = False\<rparr>)"

definition new :: "(string \<Rightarrow> string list res option) \<Rightarrow> string \<Rightarrow> force_mode \<Rightarrow> (string, string list) dict \<Rightarrow> forcer res" where
  "new files image_path mode force_cmds =
     (case mode of
        Force_None \<Rightarrow> Inr (forcer_of Nope)
      | Force_Fakeroot \<Rightarrow> bindr (fakeroot_init files image_path) (\<lambda>f. Inr (forcer_of (Fakeroot f)))
      | Force_Seccomp \<Rightarrow> Inr (forcer_of (Seccomp force_cmds)))"

fun forcer_ch_run_args :: "forcer_kind \<Rightarrow> string list" where
  "forcer_ch_run_args (Seccomp cmds) = [''--seccomp'']"
| "forcer_ch_run_args k = []"

section \<open>Running commands in the container\<close>

text \<open>A program with its environment, run on the state: exit code and new state\<close>

type_synonym 'w container = "string list \<Rightarrow> (string, string) dict \<Rightarrow> 'w \<Rightarrow> int \<times> 'w"

definition run_in :: "'w container \<Rightarrow> string \<Rightarrow> string \<Rightarrow> string list \<Rightarrow> (string, string) dict \<Rightarrow> string \<Rightarrow>
    string list \<Rightarrow> string list \<Rightarrow> bool \<Rightarrow> ('w, int) io" where
  "run_in run ch_bin img args env workdir binds ch_run_args fail_ok = (\<lambda>w.
     case run (ch_run_argv ch_bin img args workdir binds ch_run_args) env w of
       (code, w') \<Rightarrow> if \<not> fail_ok \<and> code \<noteq> 0 then (Inl (Fatal ''command failed with code %d: %s''), w')
                     else (Inr code, w'))"

definition install_step :: "'w container \<Rightarrow> string \<Rightarrow> string \<Rightarrow> (string, string) dict \<Rightarrow> string \<times> string \<Rightarrow> ('w, unit) io" where
  "install_step run ch_bin img env step =
     bindio (run_in run ch_bin img [''/bin/sh'', ''-c'', fst step] env ''/'' [] [] True) (\<lambda>code.
       if code = 0 then ret ()
       else bindio (run_in run ch_bin img [''/bin/sh'', ''-c'', snd step] env ''/'' [] [] False) (\<lambda>_. ret ()))"

definition install :: "'w container \<Rightarrow> string \<Rightarrow> fakeroot \<Rightarrow> (string, string) dict \<Rightarrow> ('w, unit) io" where
  "install run ch_bin f env =
     seqio (map (install_step run ch_bin (fr_image_path f) env) (c_init (fr_config f)))"

section \<open>Modifying RUN\<close>

definition needs_inject :: "fakeroot \<Rightarrow> string list \<Rightarrow> bool" where
  "needs_inject f args \<longleftrightarrow> list_ex (\<lambda>word. list_ex (\<lambda>arg. word \<in> set (split_ws arg)) args) (c_cmds (fr_config f))"

definition fakeroot_modified :: "'w container \<Rightarrow> string \<Rightarrow> fakeroot \<Rightarrow> string list \<Rightarrow> (string, string) dict \<Rightarrow>
    ('w, fakeroot \<times> string list) io" where
  "fakeroot_modified run ch_bin f args env =
     (if \<not> needs_inject f args then ret (f, args)
      else thenio (whenio (\<not> fr_install_done f) (install run ch_bin f env))
        (ret (f\<lparr>fr_install_done := True\<rparr>, c_each (fr_config f) @ args)))"

text \<open>
  The command is put into the pattern as it is, the arguments into the template. The model
  stops where characters of either would mean something there.
\<close>

definition plain_cmd :: "string \<Rightarrow> bool" where
  "plain_cmd s \<longleftrightarrow> s \<noteq> [] \<and> list_all (\<lambda>c. is_word c \<or> c \<in> set ''-/,:=@%_'') s"

definition cmd_re :: "string \<Rightarrow> re" where \<comment> \<open>\<open>r"\b(%s)(\s)" % cmd\<close>\<close>
  "cmd_re c = Seqs [Word_Boundary, Grp 1 (Lit c), Grp 2 (Cls is_space)]"

definition inject_shell :: "string \<Rightarrow> string \<Rightarrow> string \<Rightarrow> string" where
  "inject_shell c str_inject word =
     re_sub (cmd_re c) (\<lambda>m. re_group word m 1 @ '' '' @ str_inject @ re_group word m 2) word"

definition inject_word :: "string \<Rightarrow> string list \<Rightarrow> string \<Rightarrow> string list" where
  "inject_word c args_inject word =
     (if word = c then word # args_inject else [inject_shell c (argv_to_string args_inject) word])"

definition cmd_ok :: "string \<times> string list \<Rightarrow> bool" where
  "cmd_ok c \<longleftrightarrow> plain_cmd (fst c) \<and> backslash \<notin> set (argv_to_string (snd c))"

fun seccomp_args :: "(string, string list) dict \<Rightarrow> string list \<Rightarrow> string list res" where
  "seccomp_args [] args = Inr args"
| "seccomp_args ((c, args_inject) # cmds) args =
     (if cmd_ok (c, args_inject) then seccomp_args cmds (concat (map (inject_word c args_inject) args))
      else Inl (Unmodelled ''--force-cmd with special characters''))"

definition run_modified_in :: "'w container \<Rightarrow> string \<Rightarrow> forcer_kind \<Rightarrow> string list \<Rightarrow> (string, string) dict \<Rightarrow>
    ('w, forcer_kind \<times> string list) io" where
  "run_modified_in run ch_bin k args env =
     (case k of
        Nope \<Rightarrow> ret (k, args)
      | Fakeroot f \<Rightarrow> bindio (fakeroot_modified run ch_bin f args env) (\<lambda>(f, args). ret (Fakeroot f, args))
      | Seccomp cmds \<Rightarrow> bindio (liftr (seccomp_args cmds args)) (\<lambda>args. ret (k, args)))"

definition run_modified :: "'w container \<Rightarrow> string \<Rightarrow> forcer \<Rightarrow> string list \<Rightarrow> (string, string) dict \<Rightarrow>
    ('w, forcer \<times> string list) io" where
  "run_modified run ch_bin f args env =
     bindio (run_modified_in run ch_bin (fc_kind f) args env) (\<lambda>(k, args_new).
       ret (\<lparr>fc_kind = k, fc_run_modified_ct = fc_run_modified_ct f + (if args_new \<noteq> args then 1 else 0)\<rparr>, args_new))"

end
