(* ===== verification/Force_Facts.thy ===== *)
theory Force_Facts
  imports Force
begin

text \<open>
  Facts on root emulation: \<open>--force-cmd\<close> arguments are parsed back as written; which RUN
  instructions are modified, how they are counted, and when fakeroot is installed.
\<close>

section \<open>--force-cmd: writing and parsing\<close>

text \<open>The documented way to write a component: a backslash before commas and backslashes.\<close>

definition escape_arg :: "string \<Rightarrow> string" where
  "escape_arg a = concat (map (\<lambda>c. if c = CHR '','' \<or> c = backslash then [backslash, c] else [c]) a)"

lemma escape_arg_simps [simp]:
  "escape_arg [] = []"
  "escape_arg (c # a) = (if c = CHR '','' \<or> c = backslash then [backslash, c] else [c]) @ escape_arg a"
  by (simp_all add: escape_arg_def)

abbreviation backslashes_comma :: re where
  "backslashes_comma \<equiv> Seq (Many (Lit [backslash, backslash])) (Lit '','')"

lemma matches_comma_re:
  "matches comma_re s st =
     (if fst st > 0 \<and> char_at s (fst st - 1) = Some backslash then [] else matches backslashes_comma s st)"
  by (auto simp: comma_re_def char_at_def split: option.splits)

text \<open>Inside a component that does not end in a backslash, no comma is found.\<close>

lemma no_comma_in:
  assumes "rest = [] \<or> (b \<noteq> [] \<and> last b \<noteq> backslash)"
  shows "concat (map (matches (Lit '','') (pre @ escape_arg b @ rest))
           (rep True k (matches (Lit [backslash, backslash]) (pre @ escape_arg b @ rest)) (length pre, cs))) = []"
  using assms
proof (induction k arbitrary: pre b)
  case 0
  then show ?case by (cases b) (auto simp: matches_Lit simp del: Lit.simps)
next
  case (Suc k)
  let ?s = "pre @ escape_arg b @ rest"
  have two: "matches (Lit [backslash, backslash]) ?s (length pre, cs)
      = (if \<exists>b'. b = backslash # b' then [(length pre + 2, cs)] else [])"
    using Suc.prems by (cases b) (auto simp: matches_Lit simp del: Lit.simps)
  show ?case
  proof (cases "\<exists>b'. b = backslash # b'")
    case True
    then obtain b' where b: "b = backslash # b'" by blast
    with Suc.prems have "rest = [] \<or> (b' \<noteq> [] \<and> last b' \<noteq> backslash)" by (auto split: if_splits)
    from Suc.IH [OF this, of "pre @ [backslash, backslash]"] b
    show ?thesis by (simp add: two matches_Lit del: Lit.simps)
  next
    case False
    then show ?thesis using Suc.prems by (cases b) (auto simp: two matches_Lit simp del: Lit.simps)
  qed
qed

lemma comma_re_inside:
  assumes "rest = [] \<or> (b \<noteq> [] \<and> last b \<noteq> backslash)"
  shows "matches comma_re (pre @ escape_arg b @ rest) (length pre, []) = []"
  using no_comma_in [OF assms, of pre] by (simp add: matches_comma_re)

lemma comma_re_after_backslash:
  "matches comma_re (pre @ backslash # rest) (Suc (length pre), []) = []"
  by (simp add: matches_comma_re char_at_def)

lemma comma_re_at:
  assumes "pre = [] \<or> last pre \<noteq> backslash"
  shows "matches comma_re (pre @ '','' @ rest) (length pre, []) = [(Suc (length pre), [])]"
proof -
  have "\<not> (length pre > 0 \<and> char_at (pre @ '','' @ rest) (length pre - 1) = Some backslash)"
    using assms by (auto simp: char_at_def nth_append last_conv_nth)
  then show ?thesis by (simp add: matches_comma_re matches_Lit del: Lit.simps) 
qed

lemma split_from_escaped:
  assumes "rest = [] \<or> b = [] \<or> last b \<noteq> backslash"
  shows "split_from n comma_re (pre @ escape_arg b @ rest) (length pre) =
     (case split_from n comma_re (pre @ escape_arg b @ rest) (length pre + length (escape_arg b)) of
        x # xs \<Rightarrow> (escape_arg b @ x) # xs | [] \<Rightarrow> [])"
  using assms
proof (induction b arbitrary: pre)
  case Nil
  then show ?case by (simp split: list.splits)
next
  case (Cons c b)
  let ?s = "pre @ escape_arg (c # b) @ rest"
  from Cons.prems have ok: "rest = [] \<or> (c # b \<noteq> [] \<and> last (c # b) \<noteq> backslash)" "rest = [] \<or> b = [] \<or> last b \<noteq> backslash"
    by auto
  have first: "split_from n comma_re ?s (length pre) =
      (case split_from n comma_re ?s (Suc (length pre)) of x # xs \<Rightarrow> (?s ! length pre # x) # xs | [] \<Rightarrow> [])"
    by (rule split_from_skip [OF _ comma_re_inside [OF ok(1)]]) simp
  show ?case
  proof (cases "c = CHR '','' \<or> c = backslash")
    case True
    have second: "split_from n comma_re ?s (Suc (length pre)) =
        (case split_from n comma_re ?s (Suc (Suc (length pre))) of x # xs \<Rightarrow> (?s ! Suc (length pre) # x) # xs | [] \<Rightarrow> [])"
      by (rule split_from_skip) (use True comma_re_after_backslash [of pre "c # escape_arg b @ rest"] in auto)
    from Cons.IH [OF ok(2), of "pre @ [backslash, c]"] True
    show ?thesis by (simp only: first second) (auto simp: nth_append split: list.splits)
  next
    case False
    from Cons.IH [OF ok(2), of "pre @ [c]"] False
    show ?thesis by (simp only: first) (auto simp: nth_append split: list.splits)
  qed
qed

lemma escape_arg_Nil_iff [simp]: "escape_arg b = [] \<longleftrightarrow> b = []"
  by (cases b) auto

lemma last_escape_arg: "b \<noteq> [] \<Longrightarrow> last (escape_arg b) = last b"
  by (induction b) auto

text \<open>Splitting the components, joined with commas\<close>

lemma split_from_join:
  assumes "as \<noteq> []" "list_all (\<lambda>a. a = [] \<or> last a \<noteq> backslash) (butlast as)"
    and "pre = [] \<or> last pre \<noteq> backslash" "n \<ge> length as"
  shows "split_from n comma_re (pre @ join '','' (map escape_arg as)) (length pre) = map escape_arg as"
  using assms
proof (induction as arbitrary: pre n)
  case (Cons a as)
  show ?case
  proof (cases "as = []")
    case True
    let ?s = "pre @ escape_arg a @ []"
    have "matches comma_re ?s (length ?s, []) = []"
      using comma_re_inside [of "[]" "[]" ?s] by simp
    from split_from_end [OF this] split_from_escaped [of "[]" a n pre] True show ?thesis by simp
  next
    case False
    let ?rest = "'','' @ join '','' (map escape_arg as)"
    let ?s = "pre @ escape_arg a @ ?rest"
    let ?p = "pre @ escape_arg a"
    from Cons.prems(2) False have a: "a = [] \<or> last a \<noteq> backslash"
      and rest: "list_all (\<lambda>a. a = [] \<or> last a \<noteq> backslash) (butlast as)"
      by auto
    obtain m where m: "n = Suc m" "m \<ge> length as" using Cons.prems(4) by (cases n) auto
    have p: "?p = [] \<or> last ?p \<noteq> backslash" using a Cons.prems(3) last_escape_arg [of a] by (cases "a = []") auto
    from comma_re_at [OF p, of "join '','' (map escape_arg as)"]
    have "matches comma_re ?s (length ?p, []) = [(Suc (length ?p), [])]" by simp
    from split_from_hit [OF this, of m] m(1)
    have "split_from n comma_re ?s (length ?p) = [] # split_from m comma_re ?s (Suc (length ?p))" by simp
    moreover from Cons.IH [OF False rest _ m(2), of "?p @ '',''"]
    have "split_from m comma_re ?s (Suc (length ?p)) = map escape_arg as" by simp
    moreover from split_from_escaped [of ?rest a n pre] a
    have "split_from n comma_re ?s (length pre) = (case split_from n comma_re ?s (length ?p) of
        x # xs \<Rightarrow> (escape_arg a @ x) # xs | [] \<Rightarrow> [])" by simp
    moreover have "join '','' (map escape_arg (a # as)) = escape_arg a @ ?rest"
      using False by (simp add: join_Cons)
    ultimately show ?thesis by simp
  qed
qed simp

lemma length_join_ge: "length as \<le> Suc (length (join '','' as))"
  by (induction as rule: induct_list012) (auto simp: join_Cons)

lemma sub_from_escaped:
  assumes "n \<ge> length b"
  shows "sub_from n escape_re (\<lambda>m. re_group (pre @ escape_arg b) m 1) (pre @ escape_arg b) (length pre) = b"
  using assms
proof (induction b arbitrary: pre n)
  case Nil
  have "matches escape_re pre (length pre, []) = []" by (simp add: escape_re_def char_at_def)
  from sub_from_end [OF this] show ?case by simp
next
  case (Cons c b)
  let ?s = "pre @ escape_arg (c # b)"
  obtain m where m: "n = Suc m" "m \<ge> length b" using Cons.prems by (cases n) auto
  show ?case
  proof (cases "c = CHR '','' \<or> c = backslash")
    case True
    then have "matches escape_re ?s (length pre, []) = [(length pre + 2, [(1, Suc (length pre), length pre + 2)])]"
      by (auto simp: escape_re_def Any_def char_at_def nth_append)
    from sub_from_hit [OF this, of m] Cons.IH [OF m(2), of "pre @ [backslash, c]"] True m(1)
    show ?thesis by (auto simp: re_group_def Regex.slice_def)
  next
    case False
    then have "matches escape_re ?s (length pre, []) = []" by (simp add: escape_re_def char_at_def)
    from sub_from_skip [OF _ this] Cons.IH [of n "pre @ [c]"] Cons.prems False
    show ?thesis by (simp add: nth_append)
  qed
qed

lemma unescape_escape_arg: "unescape_arg (escape_arg a) = a"
proof -
  have "length a \<le> Suc (length (escape_arg a))" by (induction a) auto
  from sub_from_escaped [OF this, of "[]"] show ?thesis by (simp add: unescape_arg_def re_sub_from)
qed

text \<open>
  C35: A command and its arguments, written with escaped commas and backslashes as the
  manual says, are parsed back, unless a component other than the last ends in a
  backslash (a limit that a comment in the code names).
\<close>

theorem force_cmd_roundtrip:
  assumes "c \<noteq> []" "args \<noteq> []" "list_all (\<lambda>a. a = [] \<or> last a \<noteq> backslash) (butlast (c # args))"
  shows "force_cmd_parse (join '','' (map escape_arg (c # args))) = Inr (c, args)"
proof -
  let ?t = "join '','' (map escape_arg (c # args))"
  have "length (c # args) \<le> Suc (length ?t)"
    using length_join_ge [of "map escape_arg (c # args)"] by simp
  from split_from_join [OF _ assms(3) _ this, of "[]"]
  have "re_split comma_re ?t = map escape_arg (c # args)" by (simp add: re_split_from del: join.simps)
  with assms show ?thesis by (cases args) (simp_all add: force_cmd_parse_def unescape_escape_arg comp_def)
qed

lemma force_cmd_roundtrip_witness:
  "force_cmd_parse (''foo,a'' @ [backslash] @ '',b,c'') = Inr (''foo'', [''a,b'', ''c''])"
  using force_cmd_roundtrip [of "''foo''" "[''a,b'', ''c'']"] by simp

section \<open>What --force-cmd changes\<close>

lemma matches_cmd_re:
  assumes "i \<le> length s"
  shows "matches (cmd_re c) s (i, []) =
     (if (i > 0 \<and> word_at s (i - 1)) \<noteq> word_at s i \<and> prefix c (drop i s)
         \<and> i + length c < length s \<and> is_space (s ! (i + length c))
      then [(Suc (i + length c), [(1, i, i + length c), (2, i + length c, Suc (i + length c))])] else [])"
  using assms by (auto simp: cmd_re_def matches_Lit char_at_def numeral_2_eq_2)

lemma match_at_cmd_re:
  assumes "i \<le> length s" "match_at (cmd_re c) s i = Some m"
  shows "m = (i, Suc (i + length c), [(1, i, i + length c), (2, i + length c, Suc (i + length c))])
      \<and> i + length c < length s"
proof (cases "(i > 0 \<and> word_at s (i - 1)) \<noteq> word_at s i \<and> prefix c (drop i s)
         \<and> i + length c < length s \<and> is_space (s ! (i + length c))")
  case True
  then have "matches (cmd_re c) s (i, []) =
      [(Suc (i + length c), [(1, i, i + length c), (2, i + length c, Suc (i + length c))])]"
    using matches_cmd_re [OF assms(1), of c] by metis
  with assms(2) True show ?thesis by (simp add: match_at_def)
next
  case False
  then have "matches (cmd_re c) s (i, []) = []" using matches_cmd_re [OF assms(1), of c] by metis
  with assms(2) show ?thesis by (simp add: match_at_def)
qed

lemma first_match_at: "first_match r s is = Some m \<Longrightarrow> match_at r s (fst m) = Some m"
  by (induction "is") (auto simp: match_at_def split: option.splits list.splits)

lemma search_from_at: "search_from r s i = Some m \<Longrightarrow> match_at r s (fst m) = Some m"
  unfolding search_from_def by (rule first_match_at)

lemma finditer_fuel_match_at: "m \<in> set (finditer_fuel n r s i) \<Longrightarrow> match_at r s (fst m) = Some m"
proof (induction n arbitrary: i)
  case (Suc n)
  then show ?case
    by (cases "search_from r s i") (auto split: prod.splits if_splits dest!: search_from_at)
qed simp

text \<open>A substitution that makes every match longer makes the text longer, if there is a match.\<close>

lemma sub_longer:
  assumes "\<And>m. m \<in> set (finditer_fuel n r s i) \<Longrightarrow>
      fst m < fst (snd m) \<and> fst (snd m) - fst m < length (f m)" "i \<le> length s"
  shows "length (sub_matches s f i (finditer_fuel n r s i)) \<ge> length s - i + length (finditer_fuel n r s i)"
  using assms
proof (induction n arbitrary: i)
  case (Suc n)
  show ?case
  proof (cases "search_from r s i")
    case (Some m)
    then obtain a b cs where m: "search_from r s i = Some (a, b, cs)" by (cases m) auto
    from search_from_bounds [OF m] have ab: "i \<le> a" "a \<le> b" "b \<le> length s" by auto
    have next': "finditer_fuel (Suc n) r s i = (a, b, cs) # finditer_fuel n r s b" and lt: "a < b" and f: "b - a < length (f (a, b, cs))"
      using Suc.prems(1) [of "(a, b, cs)"] m by auto
    have "length s - b + length (finditer_fuel n r s b) \<le> length (sub_matches s f b (finditer_fuel n r s b))"
    proof (rule Suc.IH)
      fix m assume "m \<in> set (finditer_fuel n r s b)"
      then have "m \<in> set (finditer_fuel (Suc n) r s i)" unfolding next' by simp
      then show "fst m < fst (snd m) \<and> fst (snd m) - fst m < length (f m)" by (rule Suc.prems(1))
    qed (use ab in simp)
    moreover have "length (Regex.slice s i a) = a - i" using ab by (simp add: Regex.slice_def)
    ultimately show ?thesis unfolding next' using ab f lt by simp
  qed (use Suc.prems in auto)
qed simp

lemma length_re_group: "a \<le> b \<Longrightarrow> b \<le> length s \<Longrightarrow> length (Regex.slice s a b) = b - a"
  by (simp add: Regex.slice_def)

lemma inject_shell_longer:
  assumes "c \<noteq> []" "search_p (cmd_re c) word"
  shows "length (inject_shell c str word) > length word"
proof -
  let ?ms = "finditer_fuel (Suc (length word)) (cmd_re c) word 0"
  let ?f = "\<lambda>m. re_group word m 1 @ '' '' @ str @ re_group word m 2"
  have m: "fst m < fst (snd m) \<and> fst (snd m) - fst m < length (?f m)" if "m \<in> set ?ms" for m
  proof -
    from finditer_fuel_match_at [OF that] have at: "match_at (cmd_re c) word (fst m) = Some m" .
    have "fst m \<le> length word"
    proof (rule ccontr)
      assume "\<not> fst m \<le> length word"
      then have "matches (cmd_re c) word (fst m, []) = []"
        by (cases c rule: Lit.cases) (auto simp: cmd_re_def char_at_def word_at_def split: option.splits)
      with at show False by (simp add: match_at_def)
    qed
    from match_at_cmd_re [OF this at] obtain i where
      "m = (i, Suc (i + length c), [(1, i, i + length c), (2, i + length c, Suc (i + length c))])"
      "Suc (i + length c) \<le> length word"
      by auto
    then show ?thesis by (simp add: re_group_def length_re_group)
  qed
  have "?ms \<noteq> []" using assms(2) by (auto simp: search_p_def re_search_def)
  then have "length ?ms > 0" by blast
  moreover have "length word + length ?ms \<le> length (inject_shell c str word)"
    using sub_longer [of "Suc (length word)" "cmd_re c" word 0 ?f, OF m] 
    unfolding inject_shell_def re_sub_def finditer_def by simp
  ultimately show ?thesis by linarith
qed

definition cmd_hit :: "string \<times> string list \<Rightarrow> string \<Rightarrow> bool" where
  "cmd_hit c word \<longleftrightarrow> (if word = fst c then snd c \<noteq> [] else search_p (cmd_re (fst c)) word)"

definition args_size :: "string list \<Rightarrow> nat" where
  "args_size args = (\<Sum>a \<leftarrow> args. Suc (length a))"

lemma inject_word_unhit: "\<not> cmd_hit (c, ij) word \<Longrightarrow> inject_word c ij word = [word]"
  using sub_no_match [of "cmd_re c" word]
  by (cases "re_search (cmd_re c) word") (auto simp: cmd_hit_def inject_word_def inject_shell_def search_p_def split: if_splits)

lemma inject_unhit: "\<not> list_ex (cmd_hit (c, ij)) args \<Longrightarrow> concat (map (inject_word c ij) args) = args"
  by (induction args) (auto simp: inject_word_unhit)

lemma inject_word_size:
  assumes "c \<noteq> []"
  shows "args_size (inject_word c ij word) \<ge> Suc (length word)"
    and "cmd_hit (c, ij) word \<Longrightarrow> args_size (inject_word c ij word) > Suc (length word)"
proof -
  show hit: "args_size (inject_word c ij word) > Suc (length word)" if "cmd_hit (c, ij) word"
  proof (cases "word = c")
    case True
    with that have "ij \<noteq> []" by (simp add: cmd_hit_def)
    with True show ?thesis by (cases ij) (auto simp: inject_word_def args_size_def)
  next
    case False
    with that inject_shell_longer [OF assms] show ?thesis by (simp add: cmd_hit_def inject_word_def args_size_def)
  qed
  show "args_size (inject_word c ij word) \<ge> Suc (length word)"
  proof (cases "cmd_hit (c, ij) word")
    case True
    from hit [OF this] show ?thesis by simp
  next
    case False
    then show ?thesis by (simp add: inject_word_unhit args_size_def)
  qed
qed

lemma args_size_append [simp]: "args_size (xs @ ys) = args_size xs + args_size ys"
  by (simp add: args_size_def)

lemma inject_size:
  assumes "c \<noteq> []"
  shows "args_size (concat (map (inject_word c ij) args)) \<ge> args_size args"
    and "list_ex (cmd_hit (c, ij)) args \<Longrightarrow> args_size (concat (map (inject_word c ij) args)) > args_size args"
proof -
  have s: "args_size (a # args) = Suc (length a) + args_size args" for a args by (simp add: args_size_def)
  show ge: "args_size (concat (map (inject_word c ij) args)) \<ge> args_size args" for args
  proof (induction args)
    case (Cons a args)
    with inject_word_size(1) [OF assms, of a ij] show ?case by (simp add: s)
  qed simp
  show "args_size (concat (map (inject_word c ij) args)) > args_size args" if "list_ex (cmd_hit (c, ij)) args"
    using that
  proof (induction args)
    case (Cons a args)
    show ?case
    proof (cases "cmd_hit (c, ij) a")
      case True
      from inject_word_size(2) [OF assms True] ge [of args] show ?thesis by (simp add: s)
    next
      case False
      with Cons inject_word_size(1) [OF assms, of a ij] show ?thesis by (simp add: s)
    qed
  qed simp
qed

definition seccomp_needs :: "(string, string list) dict \<Rightarrow> string list \<Rightarrow> bool" where
  "seccomp_needs cmds args \<longleftrightarrow> list_ex (\<lambda>c. \<not> cmd_ok c \<or> list_ex (cmd_hit c) args) cmds"

lemma seccomp_size: "seccomp_args cmds args = Inr args' \<Longrightarrow> args_size args' \<ge> args_size args"
proof (induction cmds args rule: seccomp_args.induct)
  case (2 c ij cmds args)
  then have ok: "cmd_ok (c, ij)" and "args_size (concat (map (inject_word c ij) args)) \<le> args_size args'"
    by (auto split: if_splits)
  moreover have "c \<noteq> []" using ok by (simp add: cmd_ok_def plain_cmd_def)
  ultimately show ?case using inject_size(1) order_trans by blast
qed simp

lemma seccomp_unneeded: "\<not> seccomp_needs cmds args \<Longrightarrow> seccomp_args cmds args = Inr args"
proof (induction cmds)
  case (Cons p cmds)
  obtain c ij where p: "p = (c, ij)" by (cases p)
  with Cons.prems have "\<not> list_ex (cmd_hit (c, ij)) args" by (auto simp: seccomp_needs_def)
  then have "concat (map (inject_word c ij) args) = args" by (rule inject_unhit)
  with Cons p show ?case by (simp add: seccomp_needs_def)
qed simp

lemma seccomp_needed:
  assumes "seccomp_needs cmds args" "seccomp_args cmds args = Inr args'"
  shows "args_size args' > args_size args"
  using assms
proof (induction cmds)
  case (Cons p cmds)
  obtain c ij where p: "p = (c, ij)" by (cases p)
  with Cons.prems have ok: "cmd_ok (c, ij)" and r: "seccomp_args cmds (concat (map (inject_word c ij) args)) = Inr args'"
    by (auto split: if_splits)
  have c: "c \<noteq> []" using ok by (simp add: cmd_ok_def plain_cmd_def)
  show ?case
  proof (cases "list_ex (cmd_hit (c, ij)) args")
    case True
    from inject_size(2) [OF c True] seccomp_size [OF r] show ?thesis by simp
  next
    case False
    then have "concat (map (inject_word c ij) args) = args" by (rule inject_unhit)
    with Cons p ok False r show ?thesis by (simp add: seccomp_needs_def)
  qed
qed (simp add: seccomp_needs_def)

section \<open>Counting modified instructions\<close>

text \<open>
  What a build relies on: an instruction that does not need help is left alone, at no cost,
  one that does is changed, and modifying does not change which ones need it.
\<close>

fun modify_all :: "('f \<Rightarrow> string list \<Rightarrow> (string, string) dict \<Rightarrow> ('w, 'f \<times> string list) io) \<Rightarrow> 'f \<Rightarrow> nat \<Rightarrow>
    (string list \<times> (string, string) dict) list \<Rightarrow> ('w, 'f \<times> nat) io" where
  "modify_all m f ct [] = ret (f, ct)"
| "modify_all m f ct ((args, env) # runs) =
     bindio (m f args env) (\<lambda>(f', args'). modify_all m f' (ct + (if args' \<noteq> args then 1 else 0)) runs)"

locale run_modifier =
  fixes modify_run :: "'f \<Rightarrow> string list \<Rightarrow> (string, string) dict \<Rightarrow> ('w, 'f \<times> string list) io"
    and needs :: "'f \<Rightarrow> string list \<Rightarrow> bool"
    and valid :: "'f \<Rightarrow> bool"
  assumes unneeded: "valid f \<Longrightarrow> \<not> needs f args \<Longrightarrow> modify_run f args env w = (Inr (f, args), w)"
    and needed: "valid f \<Longrightarrow> needs f args \<Longrightarrow> modify_run f args env w = (Inr (f', args'), w') \<Longrightarrow> args' \<noteq> args"
    and same_needs: "modify_run f args env w = (Inr (f', args'), w') \<Longrightarrow> needs f' = needs f"
    and same_valid: "modify_run f args env w = (Inr (f', args'), w') \<Longrightarrow> valid f' = valid f"
begin

lemma changed_iff:
  "valid f \<Longrightarrow> modify_run f args env w = (Inr (f', args'), w') \<Longrightarrow> args' \<noteq> args \<longleftrightarrow> needs f args"
  using unneeded needed by (metis Pair_inject sum.inject(2))

lemma count:
  "valid f \<Longrightarrow> modify_all modify_run f ct runs w = (Inr (f', ct'), w') \<Longrightarrow>
     ct' = ct + length (filter (\<lambda>(args, env). needs f args) runs)"
proof (induction runs arbitrary: f ct w)
  case (Cons run runs)
  obtain args env where run: "run = (args, env)" by (cases run)
  with Cons.prems obtain f1 args1 w1 where step: "modify_run f args env w = (Inr (f1, args1), w1)"
    and rest: "modify_all modify_run f1 (ct + (if args1 \<noteq> args then 1 else 0)) runs w1 = (Inr (f', ct'), w')"
    by (auto simp: io_simps)
  have "valid f1" using same_valid [OF step] Cons.prems(1) by simp
  from Cons.IH [OF this rest] changed_iff [OF Cons.prems(1) step] same_needs [OF step] run show ?case by auto
qed (simp add: io_simps)

text \<open>Only instructions that need it touch the state.\<close>

lemma untouched:
  "valid f \<Longrightarrow> list_all (\<lambda>(args, env). \<not> needs f args) runs \<Longrightarrow> modify_all modify_run f ct runs w = (Inr (f, ct), w)"
  by (induction runs) (auto simp: io_run unneeded)

end

definition needs_modify :: "forcer_kind \<Rightarrow> string list \<Rightarrow> bool" where
  "needs_modify k args =
     (case k of Nope \<Rightarrow> False | Fakeroot f \<Rightarrow> needs_inject f args | Seccomp cmds \<Rightarrow> seccomp_needs cmds args)"

definition forcer_valid :: "forcer_kind \<Rightarrow> bool" where
  "forcer_valid k = (case k of Fakeroot f \<Rightarrow> c_each (fr_config f) \<noteq> [] | _ \<Rightarrow> True)"

lemma needs_inject_install_done [simp]: "needs_inject (f\<lparr>fr_install_done := b\<rparr>) = needs_inject f"
  by (simp add: needs_inject_def fun_eq_iff)

lemma run_modified_in_cases:
  assumes "run_modified_in run ch_bin k args env w = (Inr (k', args'), w')"
  obtains "k = Nope" "k' = Nope" "args' = args" "w' = w"
  | cmds where "k = Seccomp cmds" "k' = k" "seccomp_args cmds args = Inr args'" "w' = w"
  | f where "k = Fakeroot f" "k' = k" "\<not> needs_inject f args" "args' = args" "w' = w"
  | f where "k = Fakeroot f" "k' = Fakeroot (f\<lparr>fr_install_done := True\<rparr>)" "needs_inject f args"
      "args' = c_each (fr_config f) @ args"
      "if fr_install_done f then w' = w else install run ch_bin f env w = (Inr (), w')"
  using assms
  by (cases k) (auto simp: run_modified_in_def fakeroot_modified_def io_simps split: if_splits)

interpretation forcing: run_modifier "run_modified_in run ch_bin" needs_modify forcer_valid
  for run :: "'w container" and ch_bin
proof
  fix f args env w
  assume v: "forcer_valid f" and n: "\<not> needs_modify f args"
  show "run_modified_in run ch_bin f args env w = (Inr (f, args), w)"
    by (cases f) (use n in \<open>auto simp: needs_modify_def run_modified_in_def fakeroot_modified_def seccomp_unneeded io_run\<close>)
next
  fix f args env f' args' and w w' :: 'w
  assume v: "forcer_valid f" and n: "needs_modify f args"
    and r: "run_modified_in run ch_bin f args env w = (Inr (f', args'), w')"
  from r show "args' \<noteq> args"
    by (rule run_modified_in_cases)
      (use v n seccomp_needed in \<open>fastforce simp: needs_modify_def forcer_valid_def\<close>)+
next
  fix f args env f' args' and w w' :: 'w
  assume r: "run_modified_in run ch_bin f args env w = (Inr (f', args'), w')"
  from r show "needs_modify f' = needs_modify f"
    by (rule run_modified_in_cases) (simp_all add: needs_modify_def fun_eq_iff)
  from r show "forcer_valid f' = forcer_valid f"
    by (rule run_modified_in_cases) (simp_all add: forcer_valid_def)
qed

lemma new_valid: "new files image_path mode force_cmds = Inr f \<Longrightarrow> forcer_valid (fc_kind f) \<and> fc_run_modified_ct f = 0"
proof (cases mode)
  case Force_Fakeroot
  have "c \<in> set cs" if "find_config files image_path cs = Inr c" for cs c
    using that by (induction cs) (auto simp: res_simps split: option.splits if_splits)
  moreover have "list_all (\<lambda>c. c_each c \<noteq> []) fakeroot_default_configs"
    by (simp add: fakeroot_default_configs_def fedora_config_def rhel7_config_def rhel8_config_def
        debderiv_config_def suse_config_def arch_config_def alpine_config_def)
  moreover assume "new files image_path mode force_cmds = Inr f"
  ultimately show ?thesis using Force_Fakeroot
    by (fastforce simp: new_def fakeroot_init_def forcer_of_def forcer_valid_def list_all_iff res_simps)
qed (auto simp: new_def forcer_of_def forcer_valid_def)

fun run_modified_all :: "'w container \<Rightarrow> string \<Rightarrow> forcer \<Rightarrow> (string list \<times> (string, string) dict) list \<Rightarrow> ('w, forcer) io" where
  "run_modified_all run ch_bin f [] = ret f"
| "run_modified_all run ch_bin f ((args, env) # runs) =
     bindio (run_modified run ch_bin f args env) (\<lambda>(f, _). run_modified_all run ch_bin f runs)"

lemma run_modified_all_modify_all:
  "run_modified_all run ch_bin f runs w = (Inr f', w') \<longleftrightarrow>
   modify_all (run_modified_in run ch_bin) (fc_kind f) (fc_run_modified_ct f) runs w
     = (Inr (fc_kind f', fc_run_modified_ct f'), w')"
proof (induction runs arbitrary: f w)
  case Nil
  then show ?case by (auto simp: io_simps)
next
  case (Cons run runs)
  then show ?case by (cases run) (auto simp: io_simps run_modified_def, (force+)?)
qed

text \<open>
  C36: The number of RUN instructions reported as modified by \<open>--force\<close> is the number of
  those that need help: for fakeroot, the ones with a word of the configuration's command
  list; for seccomp, the ones where some command is an argument or comes before a space.
\<close>

theorem run_modified_count:
  assumes "new files image_path mode force_cmds = Inr f"
    and "run_modified_all run ch_bin f runs w = (Inr f', w')"
  shows "fc_run_modified_ct f' = length (filter (\<lambda>(args, env). needs_modify (fc_kind f) args) runs)"
  using forcing.count [OF _ assms(2) [unfolded run_modified_all_modify_all]] new_valid [OF assms(1)]
  by simp

text \<open>
  With fakeroot, the initialization commands run at most once in a build, in the
  environment of the first instruction that needs them, and nothing else runs in the image
  on behalf of \<open>--force\<close>.
\<close>

theorem fakeroot_install_once:
  assumes "run_modified_all run ch_bin f runs w = (Inr f', w')"
    and "fc_kind f = Fakeroot fr" "\<not> fr_install_done fr"
  shows "case filter (\<lambda>(args, env). needs_inject fr args) runs of
      [] \<Rightarrow> w' = w
    | (args, env) # _ \<Rightarrow> install run ch_bin fr env w = (Inr (), w')"
proof -
  have idle: "w' = w" if "modify_all (run_modified_in run ch_bin) (Fakeroot fr) ct runs w = (Inr (k', ct'), w')"
    "fr_install_done fr" for fr ct runs w k' ct'
    using that
  proof (induction runs arbitrary: fr ct w)
    case (Cons r runs)
    then show ?case
      by (cases r) (fastforce simp: io_simps elim!: run_modified_in_cases)
  qed (simp add: io_simps)
  have "case filter (\<lambda>(args, env). needs_inject fr args) runs of
      [] \<Rightarrow> w' = w | (args, env) # _ \<Rightarrow> install run ch_bin fr env w = (Inr (), w')"
    if "modify_all (run_modified_in run ch_bin) (Fakeroot fr) ct runs w = (Inr (k', ct'), w')" for ct k' ct'
    using that
  proof (induction runs arbitrary: ct)
    case (Cons r runs)
    obtain args env where r: "r = (args, env)" by (cases r)
    with Cons.prems obtain k1 args1 w1 ct1 where
      step: "run_modified_in run ch_bin (Fakeroot fr) args env w = (Inr (k1, args1), w1)" and
      rest: "modify_all (run_modified_in run ch_bin) k1 ct1 runs w1 = (Inr (k', ct'), w')"
      by (auto simp: io_simps)
    from step show ?case
    proof (rule run_modified_in_cases)
      fix f assume "Fakeroot fr = Fakeroot f" "k1 = Fakeroot fr" "\<not> needs_inject f args" "w1 = w"
      with Cons.IH rest r show ?thesis by simp
    next
      fix f assume f: "Fakeroot fr = Fakeroot f" "k1 = Fakeroot (f\<lparr>fr_install_done := True\<rparr>)" "needs_inject f args"
        "if fr_install_done f then w1 = w else install run ch_bin f env w = (Inr (), w1)"
      from rest have "w' = w1" using idle f(2) by fastforce
      with f assms(3) r show ?thesis by simp
    qed simp_all
  qed (simp add: io_simps)
  with assms show ?thesis unfolding run_modified_all_modify_all by simp
qed

text \<open>
  The names of two configurations overlap: an old Fedora, which the Fedora configuration
  rejects, is taken for a RHEL 8 derivative.
\<close>

lemma fedora_as_rhel8:
  "let files = (\<lambda>p. if p \<in> {''img//etc/fedora-release'', ''img//etc/redhat-release''}
                    then Some (Inr [''Fedora release 23 (Twenty Three)'']) else None)
   in map_sum id c_tag (find_config files ''img'' fakeroot_default_configs) = Inr ''rhel8''"
  by code_simp

lemma run_modified_count_witness:
  "fc_run_modified_ct (case run_modified_all (\<lambda>a e w. (0, w)) [] (forcer_of (Seccomp [(''apt'', [''-y''])]))
      [([''/bin/sh'', ''-c'', ''x&&apt up''], []), ([''ls''], [])] () of
        (Inr f, _) \<Rightarrow> f | _ \<Rightarrow> forcer_of Nope) = 1"
proof -
  let ?runs = "[([''/bin/sh'', ''-c'', ''x&&apt up''], []), ([''ls''], [])] :: (string list \<times> (string, string) dict) list"
  let ?f = "forcer_of (Seccomp [(''apt'', [''-y''])])"
  obtain f' w' where r: "run_modified_all (\<lambda>a e w. (0, w)) [] ?f ?runs () = (Inr f', w')"
  proof -
    have "is_ok (fst (run_modified_all (\<lambda>a e w. (0, w)) [] ?f ?runs ()))" by code_simp
    then show ?thesis using that by (cases "run_modified_all (\<lambda>a e w. (0, w)) [] ?f ?runs ()") (metis fst_conv is_ok.elims(2))
  qed
  have "new (\<lambda>p. None) [] Force_Seccomp [(''apt'', [''-y''])] = Inr ?f" by (simp add: new_def)
  from run_modified_count [OF this r]
  have "fc_run_modified_ct f' = length (filter (\<lambda>(args, env). needs_modify (fc_kind ?f) args) ?runs)" .
  also have "\<dots> = 1" by code_simp
  finally show ?thesis using r by simp
qed

lemma fakeroot_install_once_witness:
  "let fr = \<lparr>fr_image_path = [], fr_config = alpine_config, fr_install_done = False\<rparr>;
       run = (\<lambda>a e w. (if a \<noteq> [] \<and> last a = ''apk update; apk add fakeroot'' then 0 else 1, w @ [last a])) in
   install run [] fr [] [] = (Inr (), snd (run_modified_all run [] (forcer_of (Fakeroot fr)) [([''apk add foo''], []), ([''apk add bar''], [])] []))"
proof -
  let ?fr = "\<lparr>fr_image_path = [], fr_config = alpine_config, fr_install_done = False\<rparr>"
  let ?run = "\<lambda>a e w. (if a \<noteq> [] \<and> last a = ''apk update; apk add fakeroot'' then 0 else 1, w @ [last a])"
  let ?runs = "[([''apk add foo''], []), ([''apk add bar''], [])] :: (string list \<times> (string, string) dict) list"
  obtain f' w' where r: "run_modified_all ?run [] (forcer_of (Fakeroot ?fr)) ?runs [] = (Inr f', w')"
  proof -
    have "is_ok (fst (run_modified_all ?run [] (forcer_of (Fakeroot ?fr)) ?runs []))" by code_simp
    then show ?thesis using that
      by (cases "run_modified_all ?run [] (forcer_of (Fakeroot ?fr)) ?runs []") (metis fst_conv is_ok.elims(2))
  qed
  have "needs_inject ?fr [''apk add foo'']" "needs_inject ?fr [''apk add bar'']" by code_simp+
  then have f: "filter (\<lambda>(args, env). needs_inject ?fr args) ?runs = ?runs" by (simp only: filter.simps prod.case if_True)
  have "install ?run [] ?fr [] [] = (Inr (), w')"
    using fakeroot_install_once [OF r, of ?fr] unfolding f by (simp only: forcer_of_def forcer.simps fakeroot.simps list.case prod.case simp_thms)
  with r show ?thesis by (simp only: Let_def snd_conv)
qed

end
