(* ===== verification/Build_Cli.thy ===== *)
theory Build_Cli
  imports Force State_Ids Paths
begin

text \<open>
  The command line of \<open>ch-image build\<close> (\<open>lib/build.py\<close>): inferring the file and the image's
  name, the options that \<open>modify\<close> shares, build arguments, and the string escapes of
  Dockerfiles. The file system is given by arguments.
\<close>

record build_cli =
  bc_context :: string
  bc_file :: "string option"
  bc_tag :: "string option"
  bc_force :: force_mode
  bc_force_cmd :: "string list"              \<comment> \<open>as given\<close>
  bc_build_arg :: "string list"              \<comment> \<open>as given\<close>
  bc_bind :: "string list"

text \<open>What the build goes on with\<close>

record build_opts =
  bo_tag :: string
  bo_context :: string
  bo_file :: string
  bo_force :: force_mode
  bo_force_cmd :: "(string, string list) dict"
  bo_bind :: "string list"

section \<open>Inferring the name\<close>

definition abspath :: "string \<Rightarrow> string \<Rightarrow> string" where \<comment> \<open>\<open>os.path.abspath\<close>, the current directory first\<close>
  "abspath cwd p = normpath (if prefix ''/'' p then p else cwd @ ''/'' @ p)"

definition infer_file :: "build_cli \<Rightarrow> string" where
  "infer_file c = (case bc_file c of None \<Rightarrow> bc_context c @ ''/Dockerfile'' | Some f \<Rightarrow> f)"

definition clean_tag :: "string \<Rightarrow> string" where \<comment> \<open>\<open>re.sub(r"[^a-z0-9_.-]", "", tag.lower())\<close>\<close>
  "clean_tag t = filter (\<lambda>c. is_lower c \<or> is_digit c \<or> c \<in> set ''_.-'') (map to_lower t)"

definition infer_tag :: "string \<Rightarrow> build_cli \<Rightarrow> string" where
  "infer_tag cwd c =
     (case bc_tag c of
        Some t \<Rightarrow> t
      | None \<Rightarrow>
          let path = basename (infer_file c);
              (base, ext_all) = (case split1 CHR ''.'' path of [b, x] \<Rightarrow> (Some b, x) | _ \<Rightarrow> (None, []));
              (base_all, ext_last) = (case rsplit1 CHR ''.'' path of [b, x] \<Rightarrow> (b, Some x) | _ \<Rightarrow> ([], None));
              dir = abspath cwd (bc_context c) in
          clean_tag
            (if base = Some ''Dockerfile'' then ext_all
             else if ext_last \<in> {Some ''df'', Some ''dockerfile''} then base_all
             else if dir \<noteq> ''/'' then basename dir
             else ''root''))"

text \<open>
  The pattern for URL contexts, in verbose mode:
  \<open>^((git|git+ssh|http|https|ssh)://|^[\w.~%!$&'\(\)\*\+,;=-]+@[\w.~%!$&'\(\)\*\+,;=-]+:)\<close>
\<close>

definition url_char :: re where
  "url_char = Cls (\<lambda>c. is_word c \<or> c = squote \<or> c \<in> set ''.~%!$&()*+,;=-'')"

definition url_re :: re where
  "url_re = Seqs [Bol, Grp 1 (Alt
      (Seq (Grp 2 (Alt (Lit ''git'') (Alt (Seqs [Lit ''gi'', Many1 (Lit ''t''), Lit ''ssh''])
              (Alt (Lit ''http'') (Alt (Lit ''https'') (Lit ''ssh'')))))) (Lit ''://''))
      (Seqs [Bol, Many1 url_char, Lit ''@'', Many1 url_char, Lit '':'']))]"

text \<open>\<open>cli_process\<close>: file, tag and the text of the Dockerfile\<close>

definition cli_process :: "string \<Rightarrow> (string \<Rightarrow> bool) \<Rightarrow> (string \<Rightarrow> string res) \<Rightarrow> string res \<Rightarrow> build_cli \<Rightarrow>
    (string \<times> string \<times> string) res" where
  "cli_process cwd is_dir read_file stdin c =
     (let file = infer_file c; tag = infer_tag cwd c in
      bindr (guard (\<not> search_p url_re (bc_context c)) (Fatal ''not yet supported: issue #773: URL context: %s'')) (\<lambda>_.
      bindr (if file = ''-'' \<or> bc_context c = ''-'' then stdin
             else bindr (guard (is_dir (bc_context c)) (Fatal ''context must be a directory: %s'')) (\<lambda>_.
                    read_file file)) (\<lambda>text.
        Inr (file, tag, text))))"

section \<open>Options shared with modify\<close>

fun parse_force_cmds :: "string list \<Rightarrow> (string, string list) dict \<Rightarrow> (string, string list) dict res" where
  "parse_force_cmds [] d = Inr d"
| "parse_force_cmds (l # ls) d = bindr (force_cmd_parse l) (\<lambda>(c, args). parse_force_cmds ls (AList.update c args d))"

definition build_arg_get :: "environ \<Rightarrow> string \<Rightarrow> (string \<times> string) res" where
  "build_arg_get env arg =
     (let kv = split_on CHR ''='' arg in
      case kv of
        [k, v] \<Rightarrow> Inr (k, v)
      | _ \<Rightarrow> bindr (of_opt (Fatal ''--build-arg: %s: no value and not in environment'') (map_of env (hd kv)))
               (\<lambda>v. Inr (hd kv, v)))"

text \<open>The force mode, the commands for it, and the build arguments; \<open>feature\<close> is the exit code of \<open>ch-run --feature=seccomp\<close>.\<close>

definition cli_process_common :: "environ \<Rightarrow> int \<Rightarrow> build_cli \<Rightarrow>
    (force_mode \<times> (string, string list) dict \<times> (string, string) dict) res" where
  "cli_process_common env feature c =
     bindr (guard (bc_force_cmd c = [] \<or> bc_force c \<noteq> Force_Fakeroot)
              (Fatal ''--force-cmd and --force=fakeroot are incompatible'')) (\<lambda>_.
     bindr (if bc_force_cmd c = [] then Inr (bc_force c, force_cmd_default)
            else bindr (parse_force_cmds (bc_force_cmd c) []) (\<lambda>d. Inr (Force_Seccomp, d))) (\<lambda>(mode, cmds).
     bindr (guard (mode \<noteq> Force_Seccomp \<or> feature = 0) (Fatal ''ch-run was not built with seccomp(2) support'')) (\<lambda>_.
     bindr (mapr (build_arg_get env) (bc_build_arg c)) (\<lambda>kvs.
       Inr (mode, cmds, dict_update [] kvs)))))"

section \<open>Strings of Dockerfiles\<close>

text \<open>
  \<open>ast.literal_eval\<close> on what stands between double quotes. Escapes by a character's number
  or name, quotes and newlines are not modelled.
\<close>

fun literal_body :: "string \<Rightarrow> string res" where
  "literal_body [] = Inr []"
| "literal_body (c # s) =
     (if c = dquote \<or> c = newline then Inl (Unmodelled ''quote or newline in a string'')
      else if c \<noteq> backslash then bindr (literal_body s) (\<lambda>t. Inr (c # t))
      else case s of
             [] \<Rightarrow> Inl (Unmodelled ''backslash at the end'')
           | d # s' \<Rightarrow>
               if is_digit d \<or> d \<in> set ''xNuU'' then Inl (Unmodelled ''escape by number'')
               else bindr (literal_body s') (\<lambda>t. Inr (
                 (case map_of [(newline, []), (backslash, [backslash]), (squote, [squote]), (dquote, [dquote]),
                               (CHR ''a'', [CHR 0x07]), (CHR ''b'', [CHR 0x08]), (CHR ''f'', [CHR 0x0C]),
                               (CHR ''n'', [newline]), (CHR ''r'', [CHR 0x0D]), (CHR ''t'', [CHR 0x09]),
                               (CHR ''v'', [CHR 0x0B])] d of
                    Some e \<Rightarrow> e | None \<Rightarrow> [backslash, d]) @ t)))"

definition unescape :: "string \<Rightarrow> string res" where
  "unescape sl =
     (let sl = (if \<not> prefix [dquote] sl \<and> (\<not> suffix [dquote] sl \<or> suffix [backslash, dquote] sl)
                then dquote # sl @ [dquote] else sl) in
      bindr (guard (length sl \<ge> 2 \<and> hd sl = dquote \<and> last sl = dquote \<and> \<not> suffix [backslash, dquote] sl) Assertion_Error) (\<lambda>_.
        literal_body (butlast (tl sl))))"

text \<open>\<open>repr\<close> of a list of strings, and \<open>json.dumps\<close> of one\<close>

definition repr_list :: "(string \<Rightarrow> string) \<Rightarrow> string list \<Rightarrow> string" where
  "repr_list r xs = ''['' @ join '', '' (map r xs) @ '']''"

definition hex4 :: "char \<Rightarrow> string" where
  "hex4 c = ''00'' @ hex_byte c"

definition json_char :: "char \<Rightarrow> string" where
  "json_char c =
     (case map_of [(dquote, dquote), (backslash, backslash), (newline, CHR ''n''), (CHR 0x0D, CHR ''r''),
                   (CHR 0x09, CHR ''t''), (CHR 0x08, CHR ''b''), (CHR 0x0C, CHR ''f'')] c of
        Some e \<Rightarrow> [backslash, e]
      | None \<Rightarrow> if in_range CHR '' '' CHR ''~'' c then [c] else [backslash, CHR ''u''] @ hex4 c)"

definition json_string :: "string \<Rightarrow> string" where
  "json_string s = dquote # concat (map json_char s) @ [dquote]"

end
