(* ===== verification/Copying.thy ===== *)
theory Copying
  imports Files
begin

text \<open>
  What \<open>COPY\<close> does to an image, class \<open>Copy_G\<close> of \<open>lib/build.py\<close>: finding the destination
  without following links out of the image, copying files, and merging directories. The
  image is a tree, a path in it the list of its components; sources come with the node they
  stand for, links followed.
\<close>

section \<open>Finding the destination\<close>

datatype lookup = Outside | Absent | Found node

text \<open>What the system finds at a path without links, \<open>..\<close> included; the directories on the way are a stack.\<close>

fun lookup_from :: "node list \<Rightarrow> node \<Rightarrow> string list \<Rightarrow> lookup" where
  "lookup_from up n [] = Found n"
| "lookup_from up n (c # cs) =
     (if node_kind n \<noteq> K_Dir then Absent
      else if c = ''..'' then (case up of [] \<Rightarrow> Outside | p # ps \<Rightarrow> lookup_from ps p cs)
      else case map_of (node_entries n) c of None \<Rightarrow> Absent | Some m \<Rightarrow> lookup_from (n # up) m cs)"

definition lookup :: "node \<Rightarrow> string list \<Rightarrow> lookup" where
  "lookup img cs = lookup_from [] img cs"

text \<open>
  \<open>dest_realpath\<close>: components still to do and, as fuel, how many the loop may yet take. The
  result is relative to the image. The code stops after 100 components, so no more is needed.
\<close>

fun dest_loop :: "node \<Rightarrow> nat \<Rightarrow> string list \<Rightarrow> string list \<Rightarrow> string list res" where
  "dest_loop img n canon [] = Inr canon"
| "dest_loop img 0 canon (part # rest) = Inl (Fatal ''can't COPY: too many path components'')"
| "dest_loop img (Suc n) canon (part # rest) =
     (if part = ''/'' \<or> part = ''//'' then dest_loop img n canon rest
      else case lookup img (canon @ [part]) of
          Outside \<Rightarrow> Inl (Unmodelled ''files outside the image'')
        | Found (Lnk m t) \<Rightarrow>
            bindr (guard (path_parts (Path [t]) \<noteq> []) Assertion_Error) (\<lambda>_.
              dest_loop img n (if is_abs t then [] else canon) (path_parts (Path [t]) @ rest))
        | _ \<Rightarrow> dest_loop img n (canon @ [part]) rest)"

definition dest_realpath :: "node \<Rightarrow> path \<Rightarrow> string list res" where
  "dest_realpath img dst = dest_loop img 100 [] (path_parts dst)"

text \<open>
  The check that the destination is in the image: the common path of the destination and
  the image's canonical directory must start with the name of that directory.
\<close>

definition dest_in_image_p :: "path \<Rightarrow> string list \<Rightarrow> bool res" where
  "dest_in_image_p unpack canon =
     bindr (commonpath (foldl floordiv unpack canon) unpack) (\<lambda>c. Inr (prefix unpack c))"

section \<open>Copying\<close>

text \<open>A copy has the content and metadata of its source; inode and link count are its own.\<close>

definition copied :: "node \<Rightarrow> node" where
  "copied n = node_meta_update (\<lambda>m. m\<lparr>mt_ino := 0, mt_nlink := 1\<rparr>) n"

text \<open>\<open>copystat\<close> to a directory\<close>

definition copystat_dir :: "meta \<Rightarrow> meta \<Rightarrow> meta" where
  "copystat_dir src dst = dst\<lparr>mt_mode := mt_mode src, mt_atime := mt_atime src, mt_mtime := mt_mtime src,
     mt_xattrs := mt_xattrs src\<rparr>"

text \<open>
  \<open>copy_src_dir\<close>, below the top level: the entries of a source directory go into one of the
  destination. \<open>alive\<close> tells of a link if what it points to exists. Directories that are not
  merged are new.
\<close>

definition replace_file :: "(node \<Rightarrow> bool) \<Rightarrow> string \<Rightarrow> node \<Rightarrow> (string \<times> node) list \<Rightarrow> (string \<times> node) list res" where
  "replace_file alive i x ed =
     (if node_kind x \<notin> {K_Reg, K_Lnk} then Inl (Fatal ''can't COPY: unknown file type: %s'')
      else case map_of ed i of
          Some (Lnk m t) \<Rightarrow> if alive (Lnk m t) then Inr (AList.update i (copied x) (AList.delete i ed))
                             else Inl (Unmodelled ''dangling link at the destination'')
        | Some y \<Rightarrow> Inr (AList.update i (copied x) (AList.delete i ed))
        | None \<Rightarrow> Inr (AList.update i (copied x) ed))"

fun merge_entry :: "(node \<Rightarrow> bool) \<Rightarrow> string \<Rightarrow> node \<Rightarrow> (string \<times> node) list \<Rightarrow> (string \<times> node) list res"
  and merge_entries :: "(node \<Rightarrow> bool) \<Rightarrow> (string \<times> node) list \<Rightarrow> (string \<times> node) list \<Rightarrow> (string \<times> node) list res" where
  "merge_entry alive i x ed =
     (case x of
        Dir m es \<Rightarrow>
          (case map_of ed i of
             Some (Dir m' es') \<Rightarrow>
               bindr (merge_entries alive es es') (\<lambda>es''. Inr (AList.update i (Dir (copystat_dir m m') es'') ed))
           | Some (Lnk m' t) \<Rightarrow>
               if alive (Lnk m' t)
               then bindr (merge_entries alive es []) (\<lambda>es''.
                      Inr (AList.update i (Dir (copystat_dir m (node_meta new_dir)) es'') (AList.delete i ed)))
               else Inl (Fatal ''can't mkdir: %s: %s'')
           | Some _ \<Rightarrow>
               bindr (merge_entries alive es []) (\<lambda>es''.
                 Inr (AList.update i (Dir (copystat_dir m (node_meta new_dir)) es'') (AList.delete i ed)))
           | None \<Rightarrow>
               bindr (merge_entries alive es []) (\<lambda>es''.
                 Inr (AList.update i (Dir (copystat_dir m (node_meta new_dir)) es'') ed)))
      | _ \<Rightarrow> replace_file alive i x ed)"
| "merge_entries alive [] ed = Inr ed"
| "merge_entries alive ((i, x) # es) ed = bindr (merge_entry alive i x ed) (merge_entries alive es)"

definition copy_src_dir :: "(node \<Rightarrow> bool) \<Rightarrow> node \<Rightarrow> node \<Rightarrow> node res" where
  "copy_src_dir alive src dst =
     (case (src, dst) of
        (Dir m es, Dir m' es') \<Rightarrow> bindr (merge_entries alive es es') (\<lambda>es''. Inr (Dir m' es''))
      | _ \<Rightarrow> Inl Assertion_Error)"

text \<open>Changing the directory at a path, which may be the image itself\<close>

definition alter_dir :: "(node \<Rightarrow> node res) \<Rightarrow> node \<Rightarrow> string list \<Rightarrow> node res" where
  "alter_dir f img p =
     (if p = [] then f img
      else bindr (of_opt (Os_Error ''no such file or directory'') (node_at img p)) (\<lambda>d.
           bindr (f d) (\<lambda>d'. node_alter (Os_Error ''no such file or directory'') (\<lambda>_. Some d') img p)))"

text \<open>\<open>copy_src_file\<close>: \<open>name\<close> is the name of the source as given\<close>

definition copy_src_file :: "string \<Rightarrow> node \<Rightarrow> string list \<Rightarrow> node \<Rightarrow> node res" where
  "copy_src_file name src p img =
     (let there = node_at img p; ok = (\<lambda>n. node_kind n \<in> {K_Dir, K_Reg}) in
      bindr (guard (case there of Some n \<Rightarrow> ok n
                    | None \<Rightarrow> (case node_at img (butlast p) of Some d \<Rightarrow> node_kind d = K_Dir | None \<Rightarrow> False))
               Assertion_Error) (\<lambda>_.
      let p = (case there of Some (Dir m es) \<Rightarrow> p @ [name] | _ \<Rightarrow> p) in
      case node_at img p of
        Some (Dir m es) \<Rightarrow> Inl (Fatal ''can't copy data'')
      | Some (Lnk m t) \<Rightarrow> Inl (Unmodelled ''link at the destination'')
      | _ \<Rightarrow> node_alter (Fatal ''can't copy data'') (\<lambda>_. Some (copied src)) img p))"

text \<open>A source: the path as given and the node, links followed, if there is one\<close>

type_synonym source = "path \<times> node option"

definition source_dir_p :: "source \<Rightarrow> bool" where
  "source_dir_p s = (case snd s of Some (Dir m es) \<Rightarrow> True | _ \<Rightarrow> False)"

definition copy_one :: "(node \<Rightarrow> bool) \<Rightarrow> string list \<Rightarrow> source \<Rightarrow> node \<Rightarrow> node res" where
  "copy_one alive p s img =
     (case snd s of
        Some (Reg m c) \<Rightarrow> copy_src_file (path_name (fst s)) (Reg m c) p img
      | Some (Dir m es) \<Rightarrow> alter_dir (copy_src_dir alive (Dir m es)) img p
      | _ \<Rightarrow> Inl (Fatal ''can't COPY: unknown file type: %s''))"

text \<open>
  \<open>Copy_G.execute\<close> on an image's tree. \<open>unpack\<close> is the image's canonical directory.
\<close>

definition ensure_dest :: "bool \<Rightarrow> string list \<Rightarrow> node \<Rightarrow> node res" where
  "ensure_dest dir_wanted p img =
     bindr (if \<not> dir_wanted then Inr img
            else case node_at img p of
                None \<Rightarrow> mkdirs img p
              | Some n \<Rightarrow> if node_kind n = K_Dir then Inr img else Inl (Fatal ''can't COPY: not a directory: %s'')) (\<lambda>img.
     if p = [] then Inr img
     else case node_at img (butlast p) of
         Some n \<Rightarrow> if node_kind n = K_Dir then Inr img else Inl (Fatal ''can't COPY: not a directory: %s'')
       | None \<Rightarrow> mkdirs img (butlast p))"

definition copy_execute :: "(node \<Rightarrow> bool) \<Rightarrow> path \<Rightarrow> path \<Rightarrow> string \<Rightarrow> source list \<Rightarrow> node \<Rightarrow> node res" where
  "copy_execute alive unpack workdir dst srcs img =
     (let dst_path = (if prefix ''/'' dst then Path [dst] else floordiv workdir dst) in
      bindr (dest_realpath img dst_path) (\<lambda>p.
      bindr (dest_in_image_p unpack p) (\<lambda>inside.
      bindr (guard inside (Fatal ''can't COPY: destination not in image: %s'')) (\<lambda>_.
      bindr (guard (''..'' \<notin> set p) (Unmodelled ''up-level in the destination'')) (\<lambda>_.
      bindr (of_opt Index_Error (case srcs of [] \<Rightarrow> None | s # _ \<Rightarrow> Some s)) (\<lambda>s0.
      bindr (ensure_dest (suffix ''/'' dst \<or> length srcs > 1 \<or> source_dir_p s0) p img) (\<lambda>img.
        foldr_res (copy_one alive p) srcs img)))))))"

end
