(* ===== verification/Build.thy ===== *)
theory Build
  imports Cache Force Build_Cli Copying Metadata References
begin

text \<open>
  Building images (\<open>lib/build.py\<close>): instructions, their classes and methods, the main loop
  that visits the nodes of a parse tree, and what follows it. An instruction object is a
  record with what all have and a constructor of its class with the rest. The global
  variables of the module, the object being processed and the attributes of the main loop
  extend the state of the build cache.
\<close>

section \<open>State\<close>

datatype stage_key = Stage int | Stage_Name string

datatype git_hash = Hash_Unknown | Hash "string option"

text \<open>What an instruction knows of its place: \<open>sid\<close>, \<open>git_hash\<close>, \<open>image\<close>, \<open>image_alias\<close>, \<open>image_i\<close>\<close>

record place =
  pl_sid :: "state_id option"
  pl_hash :: git_hash
  pl_image :: "image_id option"
  pl_alias :: "string option"
  pl_image_i :: int

datatype opt_value = Opt string | Opt_Pairs "(string, string) dict"

record copying =
  cy_from :: "stage_key option"
  cy_srcs_raw :: "string list"
  cy_dst_raw :: string
  cy_dst :: "string option"
  cy_srcs :: "path list"
  cy_srcs_base :: string
  cy_metadata :: bytes

record from_slots =
  fs_text :: string                    \<comment> \<open>\<open>base_text\<close>\<close>
  fs_alias :: "string option"
  fs_base_alias :: "string option"
  fs_base :: "image_id option"         \<comment> \<open>\<open>base_image\<close>\<close>

text \<open>The classes, with their slots; slots that \<open>prepare\<close> sets are options.\<close>

datatype inst_class =
    Arg string "string option"
  | Arg_First string "string option"
  | Copy copying
  | Directive string
  | Env string string
  | From from_slots
  | Label string string
  | Rsync copying string "string list"
  | Run_Exec "string list" "string list option"
  | Run_Shell string "string list option"
  | Shell "string list"
  | Uns_Forever string
  | Uns_Yet string
  | Workdir string "path option"

record inst =
  in_class :: inst_class
  in_lineno :: int
  in_announced :: bool
  in_commit_files :: "path list"
  in_options :: "(string, opt_value) dict"
  in_options_str :: string
  in_place :: place
  in_parent :: "place option"
  in_own_parent :: bool                \<comment> \<open>\<open>FROM\<close> acts as its own parent\<close>

record announcement =
  an_lineno :: int
  an_status :: char
  an_text :: string

record 'g bworld = "'g cworld" +
  bw_argfrom :: "(string, string) dict"
  bw_build_arg :: "(string, string) dict"         \<comment> \<open>\<open>cli.build_arg\<close>, those not consumed\<close>
  bw_forcer :: "forcer option"
  bw_stages :: "(stage_key, image_id) dict"       \<comment> \<open>\<open>images\<close>\<close>
  bw_md :: metadata                               \<comment> \<open>of the current stage's image object\<close>
  bw_self :: inst                                 \<comment> \<open>the instruction being processed\<close>
  bw_inst_prev :: "inst option"
  bw_miss_ct :: int
  bw_total_ct :: nat
  bw_log :: "announcement list"

text \<open>
  The environment: the cache's, the options, and what is not in the sources or outside of
  the storage directory (parsers, the JSON format, ch-run, the files to copy from).
\<close>

record 'g build_env =
  be_cache :: "('g, unit bworld_ext) cache_env"
  be_cls :: cache_class
  be_opts :: build_opts
  be_image_ct :: int
  be_environ :: environ
  be_arch_host :: string
  be_now :: string
  be_parser :: "string \<Rightarrow> tree option"
  be_walk :: walk
  be_line :: "tree \<Rightarrow> int"
  be_run :: "'g bworld container"
  be_ch_bin :: string
  be_force_files :: "'g bworld \<Rightarrow> string \<Rightarrow> string list res option"
  be_md_dumps :: "metadata_file \<Rightarrow> string"
  be_md_loads :: "string \<Rightarrow> metadata_file res"
  be_glob :: "'g bworld \<Rightarrow> string \<Rightarrow> path list"
  be_realpath :: "'g bworld \<Rightarrow> string \<Rightarrow> string"
  be_node :: "'g bworld \<Rightarrow> path \<Rightarrow> node option"          \<comment> \<open>links followed\<close>
  be_stat_bytes :: "'g bworld \<Rightarrow> path list \<Rightarrow> bytes res"
  be_link_alive :: "node \<Rightarrow> bool"
  be_cmd :: "string list \<Rightarrow> 'g bworld \<Rightarrow> int \<times> 'g bworld"
  be_tty :: bool

type_synonym ('g, 'a) bio = "('g bworld, 'a) io"

section \<open>Creating instructions\<close>

definition empty_place :: place where
  "empty_place = \<lparr>pl_sid = None, pl_hash = Hash_Unknown, pl_image = None, pl_alias = None, pl_image_i = -1\<rparr>"

definition term_of :: "string \<Rightarrow> nat \<Rightarrow> tree \<Rightarrow> string res" where
  \<comment> \<open>a terminal that the grammar guarantees\<close>
  "term_of t i x = of_opt Type_Error (terminal t i x)"

fun options_single :: "tree list \<Rightarrow> (string, opt_value) dict \<Rightarrow> (string, opt_value) dict res" where
  "options_single [] d = Inr d"
| "options_single (st # sts) d =
     bindr (term_of ''OPTION_KEY'' 0 st) (\<lambda>k.
     bindr (term_of ''OPTION_VALUE'' 0 st) (\<lambda>v.
     bindr (guard (map_of d k = None) (Fatal ''%3d %s: repeated option --%s'')) (\<lambda>_.
       options_single sts (AList.update k (Opt v) d))))"

fun options_pairs :: "tree list \<Rightarrow> (string, opt_value) dict \<Rightarrow> (string, opt_value) dict res" where
  "options_pairs [] d = Inr d"
| "options_pairs (st # sts) d =
     bindr (term_of ''OPTION_KEY'' 0 st) (\<lambda>k.
     bindr (term_of ''OPTION_VAR'' 0 st) (\<lambda>s.
     bindr (term_of ''OPTION_VALUE'' 0 st) (\<lambda>v.
       case map_of d k of
         Some (Opt _) \<Rightarrow> Inl Attribute_Error
       | Some (Opt_Pairs p) \<Rightarrow> options_pairs sts (AList.update k (Opt_Pairs (AList.update s v p)) d)
       | None \<Rightarrow> options_pairs sts (AList.update k (Opt_Pairs [(s, v)]) d))))"

definition options_text :: "(string, opt_value) dict \<Rightarrow> string" where
  "options_text d = join '' '' (concat (map (\<lambda>(k, v).
     case v of Opt v \<Rightarrow> [''--'' @ k @ ''='' @ v]
     | Opt_Pairs p \<Rightarrow> map (\<lambda>(k2, v). ''--'' @ k @ ''='' @ k2 @ ''='' @ v) p) d))"

text \<open>\<open>Instruction.__init__\<close>\<close>

definition inst_init :: "'g build_env \<Rightarrow> tree \<Rightarrow> inst_class \<Rightarrow> path list \<Rightarrow> inst res" where
  "inst_init e t c files =
     bindr (options_single (children_named (be_walk e) ''option'' t) []) (\<lambda>d.
     bindr (options_pairs (children_named (be_walk e) ''option_keypair'' t) d) (\<lambda>d.
       Inr \<lparr>in_class = c, in_lineno = be_line e t, in_announced = False, in_commit_files = files,
            in_options = d, in_options_str = options_text d, in_place = empty_place, in_parent = None,
            in_own_parent = False\<rparr>))"

definition metadata_json :: path where "metadata_json = Path [''ch/metadata.json'']"

definition env_file :: path where "env_file = Path [''ch/environment'']"

text \<open>The value of ARG: from the command line, which consumes it, or the default\<close>

definition arg_value :: "string \<Rightarrow> string option res \<Rightarrow> ('g, string option) bio" where
  "arg_value key dflt =
     bindio (gets (\<lambda>w. map_of (bw_build_arg w) key)) (\<lambda>v.
       case v of
         Some v \<Rightarrow> thenio (modify (\<lambda>w. w\<lparr>bw_build_arg := AList.delete key (bw_build_arg w)\<rparr>)) (ret (Some v))
       | None \<Rightarrow> liftr dflt)"

definition equals_default :: "tree \<Rightarrow> string option res" where
  "equals_default t =
     (case terminal ''WORD'' 1 t of
        Some v \<Rightarrow> Inr (Some v)
      | None \<Rightarrow> bindr (bindr (term_of ''STRING_QUOTED'' 0 t) unescape) (\<lambda>v. Inr (Some v)))"

definition key_equals :: "tree \<Rightarrow> (string \<times> string) res" where \<comment> \<open>\<open>Env_Equals_G\<close>, \<open>Label_Equals_G\<close>\<close>
  "key_equals t =
     bindr (term_of ''WORD'' 0 t) (\<lambda>k.
     bindr (case terminal ''WORD'' 1 t of Some v \<Rightarrow> Inr v | None \<Rightarrow> term_of ''STRING_QUOTED'' 0 t) (\<lambda>v. Inr (k, v)))"

definition key_space :: "tree \<Rightarrow> (string \<times> string) res" where \<comment> \<open>\<open>Env_Space_G\<close>, \<open>Label_Space_G\<close>\<close>
  "key_space t = bindr (term_of ''WORD'' 0 t) (\<lambda>k. Inr (k, terminals_cat ''LINE_CHUNK'' t))"

definition empty_copying :: copying where
  "empty_copying = \<lparr>cy_from = None, cy_srcs_raw = [], cy_dst_raw = [], cy_dst = None, cy_srcs = [],
     cy_srcs_base = [], cy_metadata = []\<rparr>"

text \<open>\<open>Copy_G.__init__\<close>: the option \<open>--from\<close> and the operands\<close>

definition stage_key_of :: "string \<Rightarrow> stage_key" where
  "stage_key_of s = (case py_int s of Some i \<Rightarrow> Stage i | None \<Rightarrow> Stage_Name s)"

definition copy_init :: "'g build_env \<Rightarrow> tree \<Rightarrow> inst \<Rightarrow> inst res" where
  "copy_init e t i =
     bindr (case map_of (in_options i) ''from'' of
              None \<Rightarrow> Inr None
            | Some (Opt s) \<Rightarrow> Inr (Some (stage_key_of s))
            | Some (Opt_Pairs p) \<Rightarrow> Inl Type_Error) (\<lambda>from.
     bindr (if child (be_walk e) ''copy_shell'' t \<noteq> None then Inr (child_terminals (be_walk e) ''copy_shell'' ''WORD'' t)
            else if child (be_walk e) ''copy_list'' t \<noteq> None
            then Inr (map (\<lambda>a. butlast (drop 1 a)) (child_terminals (be_walk e) ''copy_list'' ''STRING_QUOTED'' t))
            else Inl Assertion_Error) (\<lambda>args.
     bindr (guard (args \<noteq> []) Index_Error) (\<lambda>_.
       Inr (i\<lparr>in_options := AList.delete ''from'' (in_options i),
              in_class := Copy (empty_copying\<lparr>cy_from := from, cy_srcs_raw := butlast args, cy_dst_raw := last args\<rparr>)\<rparr>))))"

text \<open>\<open>Rsync_G.__init__\<close>: options, split up, and operands. The pattern is \<open>r"[^=]=.*$|[^=]"\<close>.\<close>

definition short_opt_re :: re where
  "short_opt_re = (let c = Cls (\<lambda>c. c \<noteq> CHR ''='') in Alt (Seqs [c, Lit ''='', Many Any, Eol]) c)"

fun rsync_words :: "bool \<Rightarrow> string list \<Rightarrow> (string list \<times> string list) res" where
  "rsync_words stop [] = Inr ([], [])"
| "rsync_words stop (w # ws) =
     (if \<not> stop \<and> prefix ''-'' w
      then if w = ''--'' then rsync_words True ws
           else if prefix ''--'' w then bindr (rsync_words stop ws) (\<lambda>(os, ps). Inr (w # os, ps))
           else bindr (guard (length w \<noteq> 1) (Fatal ''RSYNC: %d: invalid argument: %s'')) (\<lambda>_.
                bindr (rsync_words stop ws) (\<lambda>(os, ps).
                  Inr (map (\<lambda>m. ''-'' @ re_group (tl w) m 0) (finditer short_opt_re (tl w)) @ os, ps)))
      else bindr (rsync_words stop ws) (\<lambda>(os, ps). Inr (os, w # ps)))"

definition rsync_init :: "'g build_env \<Rightarrow> tree \<Rightarrow> inst_class res" where
  "rsync_init e t =
     bindr (case child (be_walk e) ''option_plus'' t of
              None \<Rightarrow> Inr ''l'' | Some st \<Rightarrow> term_of ''OPTION_LETTER'' 0 st) (\<lambda>plus.
     bindr (rsync_words False (terminals ''WORDE'' t)) (\<lambda>(os, ps).
     bindr (guard (ps \<noteq> []) (Fatal ''RSYNC: %d: source and destination missing'')) (\<lambda>_.
       Inr (Rsync (empty_copying\<lparr>cy_srcs_raw := butlast ps, cy_dst_raw := last ps\<rparr>) plus os))))"

text \<open>
  The class of a node by its name, and its constructor. \<open>None\<close> for nodes that are no
  instructions.
\<close>

definition make_inst :: "'g build_env \<Rightarrow> tree \<Rightarrow> ('g, inst option) bio" where
  "make_inst e t =
     (let d = tree_data t;
          plain = (\<lambda>c files. bindio (liftr (inst_init e t c files)) (\<lambda>i. ret (Some i)));
          arg = (\<lambda>mk dflt files.
            letr (inst_init e t (Shell []) files) (\<lambda>i.
            letr (term_of ''WORD'' 0 t) (\<lambda>k.
            bindio (arg_value k dflt) (\<lambda>v. ret (Some (i\<lparr>in_class := mk k v\<rparr>))))))
      in
      if d = ''arg_bare'' then arg Arg (Inr None) [metadata_json]
      else if d = ''arg_equals'' then arg Arg (equals_default t) [metadata_json]
      else if d = ''arg_first_bare'' then arg Arg_First (Inr None) []
      else if d = ''arg_first_equals'' then arg Arg_First (equals_default t) []
      else if d = ''copy'' then
        letr (inst_init e t (Copy empty_copying) []) (\<lambda>i. letr (copy_init e t i) (\<lambda>i. ret (Some i)))
      else if d = ''directive'' then letr (term_of ''DIRECTIVE_NAME'' 0 t) (\<lambda>n. plain (Directive n) [])
      else if d = ''env_equals'' then letr (key_equals t) (\<lambda>(k, v). plain (Env k v) [env_file, metadata_json])
      else if d = ''env_space'' then letr (key_space t) (\<lambda>(k, v). plain (Env k v) [env_file, metadata_json])
      else if d = ''from_'' then
        letr (inst_init e t (From \<lparr>fs_text = [], fs_alias = None, fs_base_alias = None, fs_base = None\<rparr>) []) (\<lambda>i.
          thenio (case map_of (in_options i) ''arg'' of
                    Some (Opt_Pairs p) \<Rightarrow> modify (\<lambda>w. w\<lparr>bw_argfrom := dict_update (bw_argfrom w) p\<rparr>)
                  | Some (Opt s) \<Rightarrow> raise Value_Error
                  | None \<Rightarrow> ret ())
            (ret (Some (i\<lparr>in_options := AList.delete ''arg'' (in_options i)\<rparr>))))
      else if d = ''label_equals'' then letr (key_equals t) (\<lambda>(k, v). plain (Label k v) [metadata_json])
      else if d = ''label_space'' then letr (key_space t) (\<lambda>(k, v). plain (Label k v) [metadata_json])
      else if d = ''rsync'' then letr (rsync_init e t) (\<lambda>c. plain c [])
      else if d = ''run_exec'' then plain (Run_Exec (terminals ''STRING_QUOTED'' t) None) []
      else if d = ''run_shell'' then plain (Run_Shell (terminals_cat ''LINE_CHUNK'' t) None) []
      else if d = ''shell'' then plain (Shell (terminals ''STRING_QUOTED'' t)) [metadata_json]
      else if d = ''uns_forever'' then letr (term_of ''UNS_FOREVER'' 0 t) (\<lambda>n. plain (Uns_Forever n) [])
      else if d = ''uns_yet'' then
        letr (term_of ''UNS_YET'' 0 t) (\<lambda>n.
          if n \<in> {''ADD'', ''CMD'', ''ENTRYPOINT'', ''ONBUILD''} then plain (Uns_Yet n) [] else raise Key_Error)
      else if d = ''workdir'' then plain (Workdir (terminals_cat ''LINE_CHUNK'' t) None) []
      else ret None)"

section \<open>Instructions as text\<close>

definition str_name :: "force_mode \<Rightarrow> inst_class \<Rightarrow> string" where
  "str_name mode c =
     (case c of
        Arg k v \<Rightarrow> ''ARG'' | Arg_First k v \<Rightarrow> ''ARG'' | Copy s \<Rightarrow> ''COPY'' | Directive n \<Rightarrow> ''#'' @ n
      | Env k v \<Rightarrow> ''ENV'' | From s \<Rightarrow> ''FROM'' | Label k v \<Rightarrow> ''LABEL'' | Rsync s p os \<Rightarrow> ''RSYNC''
      | Run_Exec ws c \<Rightarrow> ''RUN'' @ (case mode of Force_None \<Rightarrow> ''.N'' | Force_Fakeroot \<Rightarrow> ''.F'' | Force_Seccomp \<Rightarrow> ''.S'')
      | Run_Shell s c \<Rightarrow> ''RUN'' @ (case mode of Force_None \<Rightarrow> ''.N'' | Force_Fakeroot \<Rightarrow> ''.F'' | Force_Seccomp \<Rightarrow> ''.S'')
      | Shell ws \<Rightarrow> ''SHELL'' | Uns_Forever n \<Rightarrow> n | Uns_Yet n \<Rightarrow> n | Workdir s p \<Rightarrow> ''WORKDIR'')"

definition arg_text :: "string \<Rightarrow> string option \<Rightarrow> string" where
  "arg_text k v = k @ ''='' @ (case v of None \<Rightarrow> [] | Some v \<Rightarrow> [squote] @ v @ [squote])
     @ (if k \<in> set args_magic then '' [special]'' else [])"

definition key_value_text :: "string \<Rightarrow> string \<Rightarrow> string" where
  "key_value_text k v = k @ ''='' @ [squote] @ v @ [squote]"

text \<open>\<open>rsync_options_concise\<close>: the group of short options being collected is the first argument.\<close>

fun rsync_concise :: "string \<Rightarrow> string list \<Rightarrow> string list" where
  "rsync_concise grp [] = (if grp = [] then [] else [grp])"
| "rsync_concise grp (o' # os) =
     (if prefix ''--'' o' \<or> length o' > 2
      then (if grp = [] then [] else [grp]) @ o' # rsync_concise [] os
      else rsync_concise ((if grp = [] then ''-'' else grp) @ tl o') os)"

definition json_strs :: "json \<Rightarrow> string list res" where \<comment> \<open>a list of strings\<close>
  "json_strs j = bindr (json_iter j) (mapr json_str)"

definition copy_text :: "copying \<Rightarrow> string" where
  "copy_text c = repr_list py_repr (cy_srcs_raw c) @ '' -> ''
     @ (case cy_dst c of Some d \<Rightarrow> py_repr d | None \<Rightarrow> cy_dst_raw c)"

definition from_slots_text :: "from_slots \<Rightarrow> string" where
  "from_slots_text f =
     (case fs_base_alias f of Some a \<Rightarrow> a
      | None \<Rightarrow> (case fs_base f of Some b \<Rightarrow> im_str b | None \<Rightarrow> fs_text f))
     @ (case fs_alias f of None \<Rightarrow> [] | Some a \<Rightarrow> if a = [] then [] else '' AS '' @ a)"

definition rsync_text :: "copying \<Rightarrow> string \<Rightarrow> string list \<Rightarrow> string" where
  "rsync_text c pl os = join '' '' ((''+'' @ pl) # rsync_concise [] os @ cy_srcs_raw c @ [cy_dst_raw c])"

definition inst_text :: "metadata \<Rightarrow> inst \<Rightarrow> string res" where \<comment> \<open>\<open>str_\<close>\<close>
  "inst_text md i =
     (case in_class i of
        Arg k v \<Rightarrow> Inr (arg_text k v)
      | Arg_First k v \<Rightarrow> Inr (arg_text k v)
      | Copy c \<Rightarrow> Inr (copy_text c)
      | Directive n \<Rightarrow> Inr ''(unsupported)''
      | Env k v \<Rightarrow> Inr (key_value_text k v)
      | From f \<Rightarrow> Inr (from_slots_text f)
      | Label k v \<Rightarrow> Inr (key_value_text k v)
      | Rsync c pl os \<Rightarrow> Inr (rsync_text c pl os)
      | Run_Exec ws c \<Rightarrow> bindr (of_opt Attribute_Error c) (\<lambda>c. Inr (repr_list json_string c))
      | Run_Shell s c \<Rightarrow> bindr (of_opt Attribute_Error c) (\<lambda>_. Inr s)
      | Shell ws \<Rightarrow> bindr (guard (pl_image (in_place i) \<noteq> None) Assertion_Error) (\<lambda>_.
                   bindr (json_strs (md_shell md)) (\<lambda>s. Inr (repr_list py_repr s)))
      | Uns_Forever n \<Rightarrow> Inr ''(unsupported)''
      | Uns_Yet n \<Rightarrow> Inr ''(unsupported)''
      | Workdir s p \<Rightarrow> of_opt Attribute_Error p)"

definition inst_str :: "force_mode \<Rightarrow> metadata \<Rightarrow> inst \<Rightarrow> string res" where \<comment> \<open>\<open>__str__\<close>\<close>
  "inst_str mode md i =
     bindr (inst_text md i) (\<lambda>s.
       Inr (str_name mode (in_class i)
          @ (if in_options_str i \<noteq> [] then '' '' @ in_options_str i else []) @ '' '' @ s))"

definition inst_miss :: "inst \<Rightarrow> bool option" where
  "inst_miss i =
     (case in_class i of
        Arg_First k v \<Rightarrow> Some True | Directive n \<Rightarrow> None | Uns_Forever n \<Rightarrow> None | Uns_Yet n \<Rightarrow> None
      | _ \<Rightarrow> (case pl_hash (in_place i) of Hash_Unknown \<Rightarrow> None | Hash h \<Rightarrow> Some (h = None)))"

definition inst_status :: "inst \<Rightarrow> char" where
  "inst_status i = status_char (case in_class i of Arg_First k v \<Rightarrow> None | _ \<Rightarrow> inst_miss i)"

section \<open>Attributes\<close>

definition me :: "('g, inst) bio" where "me = gets bw_self"

definition upd_me :: "(inst \<Rightarrow> inst) \<Rightarrow> ('g, unit) bio" where
  "upd_me f = modify (\<lambda>w. w\<lparr>bw_self := f (bw_self w)\<rparr>)"

definition set_class :: "inst_class \<Rightarrow> ('g, unit) bio" where
  "set_class c = upd_me (\<lambda>i. i\<lparr>in_class := c\<rparr>)"

definition upd_place :: "(place \<Rightarrow> place) \<Rightarrow> ('g, unit) bio" where
  "upd_place f = upd_me (\<lambda>i. i\<lparr>in_place := f (in_place i)\<rparr>)"

definition upd_md :: "(metadata \<Rightarrow> metadata) \<Rightarrow> ('g, unit) bio" where
  "upd_md f = modify (\<lambda>w. w\<lparr>bw_md := f (bw_md w)\<rparr>)"

text \<open>The image, which there is after the first FROM\<close>

definition my_image :: "exn \<Rightarrow> ('g, image_id) bio" where
  "my_image x = bindio me (\<lambda>i. liftr (of_opt x (pl_image (in_place i))))"

definition parent_of :: "inst \<Rightarrow> place option" where
  "parent_of i = (if in_own_parent i then Some (in_place i) else in_parent i)"

definition env_build :: "('g, (string, string) dict) bio" where
  "env_build = bindio (my_image Assertion_Error) (\<lambda>_. gets (\<lambda>w. dict_update (md_arg (bw_md w)) (md_env (bw_md w))))"

definition vsub :: "string \<Rightarrow> ('g, string) bio" where \<comment> \<open>\<open>ch.variables_sub(s, self.env_build)\<close>\<close>
  "vsub s = bindio env_build (\<lambda>env. liftr (variables_sub s env))"

definition my_str :: "'g build_env \<Rightarrow> ('g, string) bio" where
  "my_str e = bindio (gets (\<lambda>w. inst_str (bo_force (be_opts e)) (bw_md w) (bw_self w))) liftr"

definition workdir :: "('g, path) bio" where
  "workdir = bindio (gets (\<lambda>w. md_cwd (bw_md w))) (\<lambda>j. case j of Str s \<Rightarrow> ret (Path [s]) | _ \<Rightarrow> raise Type_Error)"

definition announce_maybe :: "'g build_env \<Rightarrow> ('g, unit) bio" where
  "announce_maybe e =
     bindio me (\<lambda>i.
       if in_announced i then ret ()
       else bindio (my_str e) (\<lambda>s.
         thenio (modify (\<lambda>w. w\<lparr>bw_log := bw_log w @ [\<lparr>an_lineno = in_lineno i, an_status = inst_status i, an_text = s\<rparr>]\<rparr>))
           (upd_me (\<lambda>i. i\<lparr>in_announced := True\<rparr>))))"

definition chdir :: "path \<Rightarrow> ('g, unit) bio" where
  "chdir p =
     letr (is_absolute p) (\<lambda>absolute.
     bindio (if absolute then ret p else bindio workdir (\<lambda>d. ret (floordiv d p))) (\<lambda>p.
       upd_md (\<lambda>m. m\<lparr>md_cwd := Str p\<rparr>)))"

definition options_assert_empty :: "('g, unit) bio" where
  "options_assert_empty = bindio me (\<lambda>i. check (in_options i = []) (Fatal ''%s: invalid option --%s''))"

text \<open>\<open>options.pop(k, False)\<close>: is the option there and not empty?\<close>

definition option_pop :: "string \<Rightarrow> ('g, bool) bio" where
  "option_pop k =
     bindio me (\<lambda>i. thenio (upd_me (\<lambda>i. i\<lparr>in_options := AList.delete k (in_options i)\<rparr>))
       (ret (case map_of (in_options i) k of None \<Rightarrow> False | Some (Opt v) \<Rightarrow> v \<noteq> [] | Some (Opt_Pairs p) \<Rightarrow> p \<noteq> [])))"

section \<open>Checking out, committing\<close>

definition hash_arg :: "git_hash \<Rightarrow> string option" where
  "hash_arg h = (case h of Hash_Unknown \<Rightarrow> Some ''-1'' | Hash h \<Rightarrow> h)"

definition place_checkout :: "'g build_env \<Rightarrow> place \<Rightarrow> image_id option \<Rightarrow> ('g, unit) bio" where
  "place_checkout e p base =
     letr (of_opt Attribute_Error (pl_image p)) (\<lambda>img.
       Cache.checkout (be_cache e) (be_cls e) img (hash_arg (pl_hash p)) base)"

definition place_ready :: "'g build_env \<Rightarrow> place \<Rightarrow> ('g, unit) bio" where
  "place_ready e p = letr (of_opt Attribute_Error (pl_image p)) (\<lambda>img. Cache.ready (be_cache e) (be_cls e) img)"

definition unpack_path_of :: "'g build_env \<Rightarrow> image_id \<Rightarrow> string" where
  "unpack_path_of e img = ce_unpack_path (be_cache e) (im_dir img)"

text \<open>\<open>checkout_for_build\<close>: what was built so far is put in place, and a forcer is made for it.\<close>

definition checkout_base :: "'g build_env \<Rightarrow> image_id option \<Rightarrow> ('g, unit) bio" where
  "checkout_base e base =
     bindio me (\<lambda>i.
     letr (of_opt Attribute_Error (parent_of i)) (\<lambda>p.
     thenio (place_checkout e p base)
       (bindio (my_image Attribute_Error) (\<lambda>img.
        bindio (gets (\<lambda>w. new (be_force_files e w) (unpack_path_of e img) (bo_force (be_opts e)) (bo_force_cmd (be_opts e)))) (\<lambda>f.
        letr f (\<lambda>f. modify (\<lambda>w. w\<lparr>bw_forcer := Some f\<rparr>)))))))"

definition checkout_for_build :: "'g build_env \<Rightarrow> ('g, unit) bio" where
  "checkout_for_build e =
     bindio me (\<lambda>i. case in_class i of
       Arg_First k v \<Rightarrow> ret ()
     | From f \<Rightarrow> bindio (check (be_cls e = Disabled_Cache) Assertion_Error) (\<lambda>_. checkout_base e (fs_base f))
     | _ \<Rightarrow> checkout_base e None)"

definition inst_commit :: "'g build_env \<Rightarrow> ('g, unit) bio" where
  "inst_commit e =
     bindio me (\<lambda>i. case in_class i of
       Arg_First k v \<Rightarrow> ret ()
     | _ \<Rightarrow> bindio (my_image Attribute_Error) (\<lambda>img.
            bindio (my_str e) (\<lambda>s.
            bindio (Cache.commit (be_cache e) (be_cls e) img (pl_sid (in_place i)) s (in_commit_files i)) (\<lambda>h.
              upd_place (\<lambda>p. p\<lparr>pl_hash := Hash h\<rparr>)))))"

definition inst_rollback :: "'g build_env \<Rightarrow> ('g, unit) bio" where
  "inst_rollback e = bindio (my_image Attribute_Error) (Cache.rollback (be_cache e) (be_cls e))"

section \<open>Metadata files\<close>

definition volume_parts :: "string \<Rightarrow> string list" where
  "volume_parts v = filter (\<lambda>c. c \<noteq> ''/'') (path_parts (Path [v]))"

definition save_metadata :: "'g build_env \<Rightarrow> string \<Rightarrow> metadata \<Rightarrow> ('g, unit) bio" where
  "save_metadata e d m =
     (case metadata_save m of (f, text, vols) \<Rightarrow>
       bindio (get_image d) (\<lambda>n.
       letr (file_write (be_md_dumps e f @ [newline]) n [''ch'', ''metadata.json'']) (\<lambda>n.
       letr (file_write text n [''ch'', ''environment'']) (\<lambda>n.
       letr (foldr_res (\<lambda>v n. mkdirs n (volume_parts v)) vols n) (put_image d)))))"

definition load_metadata :: "'g build_env \<Rightarrow> string \<Rightarrow> ('g, metadata) bio" where
  "load_metadata e d =
     bindio (gets (\<lambda>w. map_of (cw_images w) d)) (\<lambda>n.
       case Option.bind n (\<lambda>n. node_at n [''ch'', ''metadata.json'']) of
         None \<Rightarrow> ret (metadata_load (be_environ e) (be_arch_host e) None)
       | Some (Reg m c) \<Rightarrow> letr (be_md_loads e c) (\<lambda>f. ret (metadata_load (be_environ e) (be_arch_host e) (Some f)))
       | Some _ \<Rightarrow> raise (Fatal ''can't read: %s''))"

definition load_save_metadata :: "'g build_env \<Rightarrow> image_id \<Rightarrow> ('g, unit) bio" where
  "load_save_metadata e img = bindio (load_metadata e (im_dir img)) (save_metadata e (im_dir img))"

definition metadata_update :: "'g build_env \<Rightarrow> ('g, unit) bio" where
  "metadata_update e =
     bindio me (\<lambda>i. case in_class i of
       From f \<Rightarrow> ret ()
     | _ \<Rightarrow>
         bindio (gets bw_md) (\<lambda>md.
         letr (inst_text md i) (\<lambda>s.
         letr (case md_history md of
                 Arr h \<Rightarrow> Inr (Arr (h @ [Obj [(''created'', Str (be_now e)),
                   (''created_by'', Str (str_name (bo_force (be_opts e)) (in_class i) @ '' '' @ s))]]))
               | _ \<Rightarrow> Inl Attribute_Error) (\<lambda>h.
         thenio (upd_md (\<lambda>m. m\<lparr>md_history := h\<rparr>))
           (bindio (my_image Attribute_Error) (\<lambda>img.
            bindio (gets bw_md) (save_metadata e (im_dir img))))))))"

section \<open>Preparing\<close>

text \<open>\<open>sid_input\<close>\<close>

definition my_sid_input :: "'g build_env \<Rightarrow> ('g, bytes) bio" where
  "my_sid_input e =
     bindio me (\<lambda>i.
       case in_class i of
         Arg k v \<Rightarrow> if k \<in> set args_magic then ret (encode_utf8 (str_name (bo_force (be_opts e)) (in_class i) @ k))
                   else bindio (my_str e) (\<lambda>s. ret (encode_utf8 s))
       | Copy c \<Rightarrow> bindio (my_str e) (\<lambda>s. ret (encode_utf8 s @ cy_metadata c))
       | Rsync c p os \<Rightarrow> bindio (my_str e) (\<lambda>s. ret (encode_utf8 s @ cy_metadata c))
       | _ \<Rightarrow> bindio (my_str e) (\<lambda>s. ret (encode_utf8 s)))"

text \<open>\<open>Instruction.prepare\<close>\<close>

definition base_prepare :: "'g build_env \<Rightarrow> int \<Rightarrow> ('g, int) bio" where
  "base_prepare e miss_ct =
     bindio me (\<lambda>i.
     letr (of_opt Attribute_Error (parent_of i)) (\<lambda>p.
     thenio (check (pl_image p \<noteq> None) Attribute_Error)
       (bindio (my_sid_input e) (\<lambda>inp.
        letr (sid_from_parent (be_cache e) (be_cls e) (pl_sid p) (Bytes_Input inp)) (\<lambda>sid.
        thenio (upd_place (\<lambda>p. p\<lparr>pl_sid := sid\<rparr>))
          (bindio (my_image Attribute_Error) (\<lambda>img.
           bindio (find_sid (be_cache e) (be_cls e) sid (im_dir img)) (\<lambda>h.
           thenio (upd_place (\<lambda>p. p\<lparr>pl_hash := Hash h\<rparr>))
             (ret (miss_ct + (if h = None then 1 else 0)))))))))))"

subsection \<open>Copying\<close>

definition srcs_base_set :: "'g build_env \<Rightarrow> copying \<Rightarrow> ('g, string) bio" where
  "srcs_base_set e c =
     bindio me (\<lambda>i.
     bindio (case cy_from c of
         None \<Rightarrow> ret (bo_context (be_opts e))
       | Some k \<Rightarrow>
           thenio (check (k \<noteq> Stage (pl_image_i (in_place i)) \<and> Some k \<noteq> map_option Stage_Name (pl_alias (in_place i)))
                    (Fatal ''--from: stage %s is the current stage''))
             (bindio (gets (\<lambda>w. map_of (bw_stages w) k)) (\<lambda>img.
               case img of
                 Some img \<Rightarrow> ret (unpack_path_of e img)
               | None \<Rightarrow> raise (case k of
                     Stage n \<Rightarrow> if n < be_image_ct e
                                then if n < 0 then Fatal ''--from: invalid negative stage index %d''
                                     else Fatal ''--from: stage %d does not exist yet''
                                else Fatal ''--from: stage %s does not exist''
                   | Stage_Name s \<Rightarrow> Fatal ''--from: stage %s does not exist'')))) (\<lambda>base.
       gets (\<lambda>w. be_realpath e w base)))"

definition source_check :: "'g build_env \<Rightarrow> string \<Rightarrow> path \<Rightarrow> ('g, unit) bio" where
  "source_check e base m =
     bindio (gets (\<lambda>w. be_realpath e w m)) (\<lambda>mc.
     letr (commonpath mc base) (\<lambda>c.
       check (prefix base c) (Fatal ''can't copy from outside context: %s'')))"

definition expand_source :: "'g build_env \<Rightarrow> string \<Rightarrow> string \<Rightarrow> ('g, path list) bio" where
  "expand_source e base raw =
     bindio (vsub raw) (\<lambda>src.
     bindio (gets (\<lambda>w. sort (be_glob e w (base @ ''/'' @ src)))) (\<lambda>ms.
     bindio (check (ms \<noteq> []) (Fatal ''source not found: %s'')) (\<lambda>_.
     bindio (mapio (source_check e base) ms) (\<lambda>_. ret ms))))"

definition expand_sources :: "'g build_env \<Rightarrow> copying \<Rightarrow> ('g, copying) bio" where
  "expand_sources e c =
     bindio (check (bo_context (be_opts e) \<noteq> ''-'' \<or> cy_from c \<noteq> None) (Fatal ''no context because '-' given'')) (\<lambda>_.
     bindio (check (cy_srcs_raw c \<noteq> []) (Fatal ''source or destination missing'')) (\<lambda>_.
     bindio (srcs_base_set e c) (\<lambda>base.
     bindio (mapio (expand_source e base) (cy_srcs_raw c)) (\<lambda>mss.
       ret (c\<lparr>cy_srcs_base := base, cy_srcs := concat mss\<rparr>)))))"

definition prepare_copy :: "'g build_env \<Rightarrow> copying \<Rightarrow> int \<Rightarrow> ('g, int) bio" where
  "prepare_copy e c miss_ct =
     bindio (option_pop ''chown'') (\<lambda>_.
     thenio options_assert_empty
       (bindio (expand_sources e c) (\<lambda>c.
        bindio (vsub (cy_dst_raw c)) (\<lambda>dst.
        thenio (set_class (Copy (c\<lparr>cy_dst := Some dst\<rparr>)))
          (bindio (gets (\<lambda>w. be_stat_bytes e w (cy_srcs c))) (\<lambda>bs.
           letr bs (\<lambda>bs.
           thenio (set_class (Copy (c\<lparr>cy_dst := Some dst, cy_metadata := bs\<rparr>)))
             (base_prepare e miss_ct))))))))"

definition expand_dest :: "'g build_env \<Rightarrow> copying \<Rightarrow> ('g, string) bio" where
  "expand_dest e c =
     bindio (vsub (cy_dst_raw c)) (\<lambda>raw.
     bindio (check (raw \<noteq> []) (Fatal ''destination is empty after expansion: %s'')) (\<lambda>_.
     bindio (my_image Attribute_Error) (\<lambda>img.
     bindio (if prefix ''/'' raw then ret (unpack_path_of e img)
             else bindio workdir (\<lambda>d. ret (floordiv (unpack_path_of e img) d))) (\<lambda>base.
       ret (floordiv base raw)))))"

definition rsync_validate :: "string \<Rightarrow> string list \<Rightarrow> copying \<Rightarrow> unit res" where
  "rsync_validate pl os c =
     bindr (guard (sublist pl ''mluz'') (Fatal ''invalid plus option: %s'')) (\<lambda>_.
     bindr (guard (list_all (\<lambda>s. CHR '':'' \<notin> set s) (cy_srcs_raw c)) (Fatal ''SSH and rsync transports not supported: %s'')) (\<lambda>_.
       guard (list_all (\<lambda>x. x \<notin> set [''--daemon'', ''-n'', ''--dry-run'', ''--remove-source-files'']) os)
         (Fatal ''disallowed option: %s'')))"

definition rsync_from_re :: re where \<comment> \<open>\<open>"^--([a-z]+)-from=(.+)$"\<close>\<close>
  "rsync_from_re = Seqs [Bol, Lit ''--'', Grp 1 (Many1 (Cls is_lower)), Lit ''-from='', Grp 2 (Many1 Any), Eol]"

definition expand_rsync_from :: "string \<Rightarrow> string \<Rightarrow> string \<Rightarrow> string res" where
  "expand_rsync_from unpack base opt =
     (case re_search rsync_from_re opt of
        None \<Rightarrow> Inr opt
      | Some m \<Rightarrow>
          let key = re_group opt m 1; arg = re_group opt m 2 in
          bindr (guard (arg \<noteq> ''-'') (Fatal ''--*-from: can't use standard input'')) (\<lambda>_.
          bindr (guard (CHR '':'' \<notin> set arg) (Fatal ''--*-from: can't use remote hosts (colon in path)'')) (\<lambda>_.
          bindr (is_absolute (Path [arg])) (\<lambda>absolute.
            Inr (''--'' @ key @ ''-from='' @ floordiv (if absolute then unpack else base) (Path [arg]))))))"

definition prepare_rsync :: "'g build_env \<Rightarrow> copying \<Rightarrow> string \<Rightarrow> string list \<Rightarrow> int \<Rightarrow> ('g, int) bio" where
  "prepare_rsync e c pl os miss_ct =
     letr (rsync_validate pl os c) (\<lambda>_.
     bindio (expand_sources e c) (\<lambda>c.
     bindio (expand_dest e c) (\<lambda>dst.
     bindio (my_image Attribute_Error) (\<lambda>img.
     letr (mapr (expand_rsync_from (unpack_path_of e img) (cy_srcs_base c)) os) (\<lambda>os.
     bindio (gets (\<lambda>w. be_stat_bytes e w (cy_srcs c))) (\<lambda>bs.
     letr bs (\<lambda>bs.
     thenio (set_class (Rsync (c\<lparr>cy_dst := Some dst, cy_metadata := bs\<rparr>) pl os))
       (base_prepare e miss_ct))))))))"

subsection \<open>FROM\<close>

definition image_of :: "'g build_env \<Rightarrow> string \<Rightarrow> (string, string) dict \<Rightarrow> image_id res" where
  "image_of e text vars =
     bindr (reference_of_string (be_parser e) (be_walk e) text vars) (\<lambda>r.
     bindr (for_path r) (\<lambda>d. bindr (reference_str r) (\<lambda>s. Inr \<lparr>im_dir = d, im_str = s\<rparr>)))"

text \<open>The new stage: base text, alias and image; errors leave what was set so far.\<close>

definition stage_tag :: "'g build_env \<Rightarrow> int \<Rightarrow> string res" where
  "stage_tag e n =
     (if n = be_image_ct e - 1 then Inr (bo_tag (be_opts e))
      else if n > be_image_ct e - 1 then Inl (Fatal ''expected %d stages but found at least %d'')
      else Inr (bo_tag (be_opts e) @ ''_stage'' @ str_of_int n))"

definition upd_from :: "(from_slots \<Rightarrow> from_slots) \<Rightarrow> ('g, unit) bio" where
  "upd_from f = upd_me (\<lambda>i. case in_class i of From s \<Rightarrow> i\<lparr>in_class := From (f s)\<rparr> | _ \<Rightarrow> i)"

definition my_from :: "('g, from_slots) bio" where
  "my_from = bindio me (\<lambda>i. case in_class i of From s \<Rightarrow> ret s | _ \<Rightarrow> raise Type_Error)"

definition from_open_stage :: "'g build_env \<Rightarrow> tree \<Rightarrow> ('g, unit) bio" where
  "from_open_stage e t =
     thenio (upd_from (\<lambda>s. s\<lparr>fs_text := child_terminals_cat (be_walk e) ''image_ref'' ''IMAGE_REF'' t,
         fs_alias := child_terminal (be_walk e) ''from_alias'' ''IR_PATH_COMPONENT'' 0 t\<rparr>))
     (bindio (option_pop ''platform'') (\<lambda>p.
      thenio (check (\<not> p) (Fatal ''not yet supported: issue #%d: %s %s''))
      (thenio options_assert_empty
      (bindio my_from (\<lambda>s.
       thenio (upd_place (\<lambda>p. p\<lparr>pl_image_i := pl_image_i p + 1, pl_alias := fs_alias s\<rparr>))
       (bindio me (\<lambda>i.
        letr (stage_tag e (pl_image_i (in_place i))) (\<lambda>tag.
        bindio (gets (\<lambda>w. map_of (bw_stages w) (Stage_Name (fs_text s)))) (\<lambda>prev.
        thenio (case prev of None \<Rightarrow> ret ()
                | Some img \<Rightarrow> upd_from (\<lambda>s. s\<lparr>fs_base_alias := Some (fs_text s), fs_text := im_str img\<rparr>))
        (bindio my_from (\<lambda>s.
         bindio (gets bw_argfrom) (\<lambda>argfrom.
         letr (image_of e (fs_text s) argfrom) (\<lambda>base.
         thenio (upd_from (\<lambda>s. s\<lparr>fs_base := Some base\<rparr>))
         (letr (image_of e tag []) (\<lambda>img.
          thenio (upd_place (\<lambda>p. p\<lparr>pl_image := Some img\<rparr>))
          (thenio (modify (\<lambda>w. w\<lparr>bw_md := metadata_init (be_environ e) (be_arch_host e),
               bw_stages := (case fs_alias s of None \<Rightarrow> id | Some a \<Rightarrow> AList.update (Stage_Name a) img)
                 (AList.update (Stage (pl_image_i (in_place i))) img (bw_stages w))\<rparr>))
            (check (im_str img \<noteq> im_str base) (Fatal ''output image ref same as FROM: %s''))))))))))))))))))"

definition from_close_previous :: "'g build_env \<Rightarrow> int \<Rightarrow> ('g, unit) bio" where
  "from_close_previous e miss_ct =
     bindio me (\<lambda>i.
       whenio (pl_image_i (in_place i) > 0 \<and> be_cls e \<noteq> Disabled_Cache)
         (letr (of_opt Attribute_Error (in_parent i)) (\<lambda>p.
            thenio (whenio (miss_ct = 0) (place_checkout e p None)) (place_ready e p))))"

text \<open>Pulling the base image, if it is not there; its state ID and commit are those of \<open>FROM\<close>.\<close>

definition from_pull :: "'g build_env \<Rightarrow> ('g, unit) bio" where
  "from_pull e =
     bindio my_from (\<lambda>s.
     letr (of_opt Attribute_Error (fs_base s)) (\<lambda>base.
     bindio (find_image (be_cache e) (be_cls e) base) (\<lambda>(sid, h).
     thenio (upd_place (\<lambda>p. p\<lparr>pl_sid := sid, pl_hash := Hash h\<rparr>))
     (bindio (unpack_exist_p base) (\<lambda>there.
      bindio (unpack_cache_linked base) (\<lambda>linked.
      thenio (announce_maybe e)
        (if h \<noteq> None then ret ()
         else bindio (if there \<and> \<not> linked
                      then adopt (be_cache e) (be_cls e) (load_save_metadata e) base
                      else pull_lazy (be_cache e) (be_cls e) base base None None) (\<lambda>(sid, h).
                upd_place (\<lambda>p. p\<lparr>pl_sid := sid, pl_hash := Hash h\<rparr>)))))))))"

definition prepare_from :: "'g build_env \<Rightarrow> tree \<Rightarrow> int \<Rightarrow> ('g, int) bio" where
  "prepare_from e t miss_ct =
     thenio (from_open_stage e t)
     (thenio (from_close_previous e miss_ct)
     (thenio (upd_me (\<lambda>i. i\<lparr>in_own_parent := True\<rparr>))
     (thenio (from_pull e)
     (bindio my_from (\<lambda>s.
      letr (of_opt Attribute_Error (fs_base s)) (\<lambda>base.
      bindio (load_metadata e (im_dir base)) (\<lambda>md.
      thenio (modify (\<lambda>w. w\<lparr>bw_md := md\<lparr>md_arg := dict_update (md_arg md) (bw_argfrom w)\<rparr>\<rparr>))
        (bindio me (\<lambda>i. ret (if inst_miss i = Some True then 1 else 0))))))))))"

subsection \<open>All classes\<close>

definition unescaped :: "string \<Rightarrow> ('g, string) bio" where
  "unescaped s = letr (unescape s) vsub"

definition prepare_arg :: "'g build_env \<Rightarrow> string \<Rightarrow> string option \<Rightarrow> int \<Rightarrow> ('g, int) bio" where
  "prepare_arg e k v miss_ct =
     (case v of
        None \<Rightarrow> base_prepare e miss_ct
      | Some v \<Rightarrow> bindio (vsub v) (\<lambda>v.
          thenio (set_class (Arg k (Some v)))
          (thenio (upd_md (\<lambda>m. m\<lparr>md_arg := AList.update k v (md_arg m)\<rparr>)) (base_prepare e miss_ct))))"

definition prepare_arg_first :: "string \<Rightarrow> string option \<Rightarrow> int \<Rightarrow> ('g, int) bio" where
  "prepare_arg_first k v miss_ct =
     thenio (case v of None \<Rightarrow> ret () | Some v \<Rightarrow> modify (\<lambda>w. w\<lparr>bw_argfrom := AList.update k v (bw_argfrom w)\<rparr>))
       (ret (miss_ct + 1))"

definition prepare_env :: "'g build_env \<Rightarrow> string \<Rightarrow> string \<Rightarrow> int \<Rightarrow> ('g, int) bio" where
  "prepare_env e k v miss_ct =
     bindio (unescaped v) (\<lambda>v.
       thenio (set_class (Env k v))
       (thenio (upd_md (\<lambda>m. m\<lparr>md_env := AList.update k v (md_env m)\<rparr>)) (base_prepare e miss_ct)))"

definition prepare_label :: "'g build_env \<Rightarrow> string \<Rightarrow> string \<Rightarrow> int \<Rightarrow> ('g, int) bio" where
  "prepare_label e k v miss_ct =
     bindio (unescaped v) (\<lambda>v.
       thenio (set_class (Label k v))
       (bindio (gets bw_md) (\<lambda>md.
          case md_labels md of
            Obj d \<Rightarrow> thenio (upd_md (\<lambda>m. m\<lparr>md_labels := Obj (AList.update k (Str v) d)\<rparr>)) (base_prepare e miss_ct)
          | _ \<Rightarrow> raise Type_Error)))"

definition prepare_run_exec :: "'g build_env \<Rightarrow> string list \<Rightarrow> int \<Rightarrow> ('g, int) bio" where
  "prepare_run_exec e ws miss_ct =
     bindio (mapio unescaped ws) (\<lambda>c.
       thenio (set_class (Run_Exec ws (Some c))) (base_prepare e miss_ct))"

definition prepare_run_shell :: "'g build_env \<Rightarrow> string \<Rightarrow> int \<Rightarrow> ('g, int) bio" where
  "prepare_run_shell e s miss_ct =
     bindio (my_image Assertion_Error) (\<lambda>_.
     bindio (gets (\<lambda>w. json_strs (md_shell (bw_md w)))) (\<lambda>sh.
     letr sh (\<lambda>sh.
       thenio (set_class (Run_Shell s (Some (sh @ [s])))) (base_prepare e miss_ct))))"

definition prepare_shell :: "'g build_env \<Rightarrow> string list \<Rightarrow> int \<Rightarrow> ('g, int) bio" where
  "prepare_shell e ws miss_ct =
     bindio (mapio unescaped ws) (\<lambda>c.
       thenio (upd_md (\<lambda>m. m\<lparr>md_shell := Arr (map Str c)\<rparr>)) (base_prepare e miss_ct))"

definition prepare_workdir :: "'g build_env \<Rightarrow> string \<Rightarrow> int \<Rightarrow> ('g, int) bio" where
  "prepare_workdir e s miss_ct =
     bindio (vsub s) (\<lambda>p. let p = Path [p] in
       thenio (set_class (Workdir s (Some p)))
       (thenio (chdir p) (base_prepare e miss_ct)))"

definition prepare :: "'g build_env \<Rightarrow> tree \<Rightarrow> int \<Rightarrow> ('g, int) bio" where
  "prepare e t miss_ct =
     bindio me (\<lambda>i. case in_class i of
       Arg k v \<Rightarrow> prepare_arg e k v miss_ct
     | Arg_First k v \<Rightarrow> prepare_arg_first k v miss_ct
     | Copy c \<Rightarrow> prepare_copy e c miss_ct
     | Directive n \<Rightarrow> raise Instruction_Ignored
     | Env k v \<Rightarrow> prepare_env e k v miss_ct
     | From s \<Rightarrow> prepare_from e t miss_ct
     | Label k v \<Rightarrow> prepare_label e k v miss_ct
     | Rsync c pl os \<Rightarrow> prepare_rsync e c pl os miss_ct
     | Run_Exec ws c \<Rightarrow> prepare_run_exec e ws miss_ct
     | Run_Shell s c \<Rightarrow> prepare_run_shell e s miss_ct
     | Shell ws \<Rightarrow> prepare_shell e ws miss_ct
     | Uns_Forever n \<Rightarrow> raise Instruction_Ignored
     | Uns_Yet n \<Rightarrow> raise Instruction_Ignored
     | Workdir s p \<Rightarrow> prepare_workdir e s miss_ct)"

text \<open>\<open>prepare_rollback\<close>: only FROM cleans up, its base image and its image.\<close>

definition prepare_rollback :: "'g build_env \<Rightarrow> ('g, unit) bio" where
  "prepare_rollback e =
     bindio me (\<lambda>i. case in_class i of
       From s \<Rightarrow>
         thenio (case fs_base s of None \<Rightarrow> ret () | Some b \<Rightarrow> Cache.unpack_delete (be_cache e) b True)
           (case pl_image (in_place i) of None \<Rightarrow> ret () | Some b \<Rightarrow> Cache.unpack_delete (be_cache e) b True)
     | _ \<Rightarrow> ret ())"

section \<open>Executing\<close>

definition run_host :: "'g build_env \<Rightarrow> string list \<Rightarrow> ('g, unit) bio" where \<comment> \<open>\<open>ch.cmd\<close>\<close>
  "run_host e argv = (\<lambda>w. case be_cmd e argv w of (code, w') \<Rightarrow>
     if code \<noteq> 0 then (Inl (Fatal ''command failed with code %d: %s''), w') else (Inr (), w'))"

definition rsync_argv :: "bool \<Rightarrow> copying \<Rightarrow> string \<Rightarrow> string list \<Rightarrow> string list res" where
  "rsync_argv tty c pl os =
     bindr (of_opt Attribute_Error (cy_dst c)) (\<lambda>dst.
       Inr ([''rsync'']
         @ (if sublist pl ''lmu''
            then [''-@=-1'', ''-AHSXpr''] @ (if tty then [''--info=progress2''] else [])
              @ (if pl = ''l'' then [''-l'', ''--safe-links''] else if pl = ''u'' then [''-l'', ''--copy-unsafe-links''] else [])
            else [])
         @ rsync_concise [] os @ cy_srcs c @ [dst]))"

definition execute_run :: "'g build_env \<Rightarrow> string list option \<Rightarrow> ('g, unit) bio" where
  "execute_run e c =
     bindio (my_image Attribute_Error) (\<lambda>img.
     letr (of_opt Attribute_Error c) (\<lambda>c.
     bindio env_build (\<lambda>env.
     bindio (gets bw_forcer) (\<lambda>f.
     letr (of_opt Attribute_Error f) (\<lambda>f.
     bindio (run_modified (be_run e) (be_ch_bin e) f c env) (\<lambda>(f, args).
     thenio (modify (\<lambda>w. w\<lparr>bw_forcer := Some f\<rparr>))
       (bindio workdir (\<lambda>d.
        bindio (run_in (be_run e) (be_ch_bin e) (unpack_path_of e img) args env d (bo_bind (be_opts e))
                  (forcer_ch_run_args (fc_kind f)) True) (\<lambda>code.
          check (code = 0) (Fatal ''build failed: RUN command exited with %d''))))))))))"

definition execute_copy :: "'g build_env \<Rightarrow> copying \<Rightarrow> ('g, unit) bio" where
  "execute_copy e c =
     bindio (my_image Attribute_Error) (\<lambda>img.
     letr (of_opt Attribute_Error (cy_dst c)) (\<lambda>dst.
     bindio workdir (\<lambda>d.
     bindio (gets (\<lambda>w. map (\<lambda>p. (p, be_node e w p)) (cy_srcs c))) (\<lambda>srcs.
     bindio (gets (\<lambda>w. be_realpath e w (unpack_path_of e img))) (\<lambda>unpack.
     bindio (get_image (im_dir img)) (\<lambda>n.
     letr (copy_execute (be_link_alive e) unpack d dst srcs n) (put_image (im_dir img))))))))"

definition execute_env :: "('g, unit) bio" where
  "execute_env =
     bindio (my_image Attribute_Error) (\<lambda>img.
     bindio (gets bw_md) (\<lambda>md.
     bindio (get_image (im_dir img)) (\<lambda>n.
     letr (file_write (concat (map (\<lambda>kv. env_line kv @ [newline]) (md_env md))) n [''ch'', ''environment''])
       (put_image (im_dir img)))))"

definition execute_workdir :: "('g, unit) bio" where
  "execute_workdir =
     bindio (my_image Attribute_Error) (\<lambda>img.
     bindio workdir (\<lambda>d.
     bindio (get_image (im_dir img)) (\<lambda>n. letr (mkdirs n (volume_parts d)) (put_image (im_dir img)))))"

definition execute :: "'g build_env \<Rightarrow> ('g, unit) bio" where
  "execute e =
     bindio me (\<lambda>i. case in_class i of
       Copy c \<Rightarrow> execute_copy e c
     | Env k v \<Rightarrow> execute_env
     | Rsync c pl os \<Rightarrow> letr (rsync_argv (be_tty e) c pl os) (run_host e)
     | Run_Exec ws c \<Rightarrow> execute_run e c
     | Run_Shell s c \<Rightarrow> execute_run e c
     | Workdir s p \<Rightarrow> execute_workdir
     | _ \<Rightarrow> ret ())"

section \<open>The main loop\<close>

text \<open>\<open>Instruction.init\<close>\<close>

definition init_inst :: "inst option \<Rightarrow> inst \<Rightarrow> inst" where
  "init_inst prev i =
     (case prev of
        None \<Rightarrow> i\<lparr>in_parent := None, in_place := (in_place i)\<lparr>pl_image_i := -1\<rparr>\<rparr>
      | Some p \<Rightarrow> i\<lparr>in_parent := Some (in_place p),
          in_place := (in_place i)\<lparr>pl_image := pl_image (in_place p), pl_alias := pl_alias (in_place p),
                                   pl_image_i := pl_image_i (in_place p)\<rparr>\<rparr>)"

definition first_ok :: "inst_class \<Rightarrow> bool" where
  "first_ok c = (case c of Directive n \<Rightarrow> True | From s \<Rightarrow> True | Arg_First k v \<Rightarrow> True | _ \<Rightarrow> False)"

text \<open>An instruction that missed is executed, on what the ones before it built.\<close>

definition build_inst :: "'g build_env \<Rightarrow> ('g, unit) bio" where
  "build_inst e =
     seqio [bindio (gets bw_miss_ct) (\<lambda>c. whenio (c = 1) (checkout_for_build e)),
            on_fatal (execute e) (inst_rollback e),
            bindio me (\<lambda>i. whenio (pl_image_i (in_place i) \<ge> 0) (metadata_update e)),
            inst_commit e]"

definition proceed :: "'g build_env \<Rightarrow> ('g, unit) bio" where
  "proceed e =
     thenio (bindio me (\<lambda>i. whenio (inst_miss i = Some True) (build_inst e)))
       (modify (\<lambda>w. w\<lparr>bw_inst_prev := Some (bw_self w), bw_total_ct := Suc (bw_total_ct w)\<rparr>))"

definition prepare_announced :: "'g build_env \<Rightarrow> tree \<Rightarrow> ('g, unit) bio" where
  "prepare_announced e t =
     bindio (gets bw_miss_ct) (\<lambda>c.
     bindio (prepare e t c) (\<lambda>c.
     thenio (modify (\<lambda>w. w\<lparr>bw_miss_ct := c\<rparr>)) (announce_maybe e)))"

definition process :: "'g build_env \<Rightarrow> tree \<Rightarrow> ('g, unit) bio" where
  "process e t = (\<lambda>w.
     case prepare_announced e t w of
       (Inr u, w') \<Rightarrow> proceed e w'
     | (Inl x, w') \<Rightarrow>
         if x = Instruction_Ignored then announce_maybe e w'
         else if fatal_p x then seqio [announce_maybe e, prepare_rollback e, raise x] w'
         else (Inl x, w'))"

definition visit :: "'g build_env \<Rightarrow> tree \<Rightarrow> ('g, unit) bio" where \<comment> \<open>\<open>__default__\<close>\<close>
  "visit e t =
     bindio (make_inst e t) (\<lambda>i. case i of
       None \<Rightarrow> ret ()
     | Some i \<Rightarrow>
         thenio (bindio (gets bw_total_ct) (\<lambda>n.
                   check (n \<noteq> 0 \<or> first_ok (in_class i)) (Fatal ''first instruction must be ARG or FROM'')))
         (thenio (modify (\<lambda>w. w\<lparr>bw_self := init_inst (bw_inst_prev w) i\<rparr>)) (process e t)))"

text \<open>\<open>parse_tree_traverse\<close>, with a new main loop\<close>

definition finish :: "'g build_env \<Rightarrow> ('g, unit) bio" where
  "finish e =
     bindio (gets (\<lambda>w. (bw_total_ct w, bw_miss_ct w, bw_inst_prev w))) (\<lambda>(total, misses, prev).
     thenio (whenio (total > 0)
       (letr (of_opt Attribute_Error prev) (\<lambda>p.
          thenio (whenio (misses = 0) (place_checkout e (in_place p) None)) (place_ready e (in_place p)))))
     (bindio (gets bw_build_arg) (\<lambda>args.
      seqio [check (args = []) (Fatal ''--build-arg: not consumed: ''),
             check (total \<noteq> 0) (Fatal ''no instructions found: %s''),
             letr (of_opt Attribute_Error prev) (\<lambda>p.
               check (pl_image_i (in_place p) + 1 = be_image_ct e) Assertion_Error)])))"

definition parse_tree_traverse :: "'g build_env \<Rightarrow> tree \<Rightarrow> ('g, unit) bio" where
  "parse_tree_traverse e t =
     thenio (modify (\<lambda>w. w\<lparr>bw_miss_ct := 0, bw_inst_prev := None, bw_total_ct := 0\<rparr>))
     (thenio (seqio (map (visit e) (be_walk e t))) (finish e))"

text \<open>
  \<open>parse_dockerfile\<close>: the parser is an argument, as are the options that end the program and
  the check of rsync's version.
\<close>

definition parse_dockerfile :: "(string \<Rightarrow> tree option) \<Rightarrow> walk \<Rightarrow> bool \<Rightarrow> unit res \<Rightarrow> string \<Rightarrow> tree res" where
  "parse_dockerfile parser walk parse_only rsync_ok text =
     bindr (of_opt (Fatal ''can't parse: %s:%d,%d'') (parser (text @ [newline]))) (\<lambda>t.
     bindr (guard (\<not> parse_only) (System_Exit 0)) (\<lambda>_.
     bindr (if child walk ''rsync'' t \<noteq> None then rsync_ok else Inr ()) (\<lambda>_. Inr t)))"

definition image_count :: "walk \<Rightarrow> tree \<Rightarrow> int" where
  "image_count walk t = int (length (children_named walk ''from_'' t))"

text \<open>\<open>main\<close>, from the command line to the built image; the environment depends on the options.\<close>

definition build_main :: "(build_opts \<Rightarrow> int \<Rightarrow> 'g build_env) \<Rightarrow> environ \<Rightarrow> int \<Rightarrow> string \<Rightarrow> (string \<Rightarrow> bool) \<Rightarrow>
    (string \<Rightarrow> string res) \<Rightarrow> string res \<Rightarrow> (string \<Rightarrow> tree option) \<Rightarrow> walk \<Rightarrow> bool \<Rightarrow> unit res \<Rightarrow> build_cli \<Rightarrow> ('g, unit) bio" where
  "build_main env_of env feature cwd is_dir read_file stdin parser walk parse_only rsync_ok c =
     letr (cli_process_common env feature c) (\<lambda>(mode, cmds, args).
     thenio (modify (\<lambda>w. w\<lparr>bw_build_arg := args\<rparr>))
     (letr (cli_process cwd is_dir read_file stdin c) (\<lambda>(file, tag, text).
      letr (parse_dockerfile parser walk parse_only rsync_ok text) (\<lambda>t.
        parse_tree_traverse
          (env_of \<lparr>bo_tag = tag, bo_context = bc_context c, bo_file = file, bo_force = mode, bo_force_cmd = cmds,
                   bo_bind = bc_bind c\<rparr> (image_count walk t)) t))))"

end
