(* ===== verification/Build_Frames.thy ===== *)
theory Build_Frames
  imports Build
begin

text \<open>
  What the parts of a build leave alone: the operations of the cache and the programs run
  do not touch the variables of the build (\<open>more_is\<close>), building an instruction does not touch
  the loop's variables (\<open>at_work\<close>), preparing one only touches its place and, if Git's log is
  only read, nothing stored (\<open>at_place\<close>, \<open>at_rest\<close>, \<open>at_store\<close>). The locales \<open>outside_frame\<close> and
  \<open>build_frame\<close> are what these have in common. The rules
  \<open>keeps_intros\<close> compose these; \<open>prepare_plain\<close> and \<open>announce_spec\<close> sum them up.
\<close>

section \<open>What the world outside leaves alone\<close>

text \<open>
  Git, the puller, ch-run and other programs change files, not the variables of the
  program. \<open>cworld.more\<close> is what the build adds to the state of the cache.
\<close>

definition more_is :: "'m \<Rightarrow> ('g, 'm) cworld_scheme \<Rightarrow> bool" where
  "more_is m w \<longleftrightarrow> cworld.more w = m"

definition cache_env_ok :: "('g, 'm) cache_env \<Rightarrow> bool" where
  "cache_env_ok e \<longleftrightarrow> (\<forall>cwd argv inp w. cworld.more (snd (ce_git e cwd argv inp w)) = cworld.more w)"

definition env_ok :: "'g build_env \<Rightarrow> bool" where
  "env_ok e \<longleftrightarrow> cache_env_ok (be_cache e) \<and>
     (\<forall>argv env w. cworld.more (snd (be_run e argv env w)) = cworld.more w) \<and>
     (\<forall>argv w. cworld.more (snd (be_cmd e argv w)) = cworld.more w)"

section \<open>What does not touch the state, and what only the world outside does\<close>

lemma reads_keep [keeps_intros]: "keeps P (my_image y)" "keeps P env_build" "keeps P (vsub s)" "keeps P (unescaped s)"
  "keeps P me" "keeps P workdir" "keeps P options_assert_empty" "keeps P (my_str e)"
  by (auto simp: my_image_def env_build_def vsub_def unescaped_def me_def workdir_def options_assert_empty_def my_str_def
      intro!: keeps_intros split: json.splits)

lemma expand_keep [keeps_intros]: "keeps P (expand_sources e c)" "keeps P (expand_dest e c)"
  by (auto simp: expand_sources_def expand_source_def source_check_def srcs_base_set_def expand_dest_def
      intro!: keeps_intros split: option.splits stage_key.splits)

text \<open>
  What the operations of the cache and the programs run leave alone: it is enough that Git,
  ch-run and other programs do, and that it is not about unpacked images, large files and the
  metadata of files.
\<close>

locale outside_frame =
  fixes ok :: "'g build_env \<Rightarrow> 'p \<Rightarrow> bool" and P :: "'p \<Rightarrow> 'g bworld \<Rightarrow> bool"
  assumes git_kept: "ok e p \<Longrightarrow> P p w \<Longrightarrow> P p (snd (ce_git (be_cache e) cwd argv inp w))"
    and run_kept: "ok e p \<Longrightarrow> P p w \<Longrightarrow> P p (snd (be_run e cl env w))"
    and cmd_kept: "ok e p \<Longrightarrow> P p w \<Longrightarrow> P p (snd (be_cmd e cl w))"
    and images_kept: "P p w \<Longrightarrow> P p (w\<lparr>cw_images := i\<rparr>)"
    and large_kept: "P p w \<Longrightarrow> P p (w\<lparr>cw_large := l\<rparr>)"
    and fm_kept: "P p w \<Longrightarrow> P p (w\<lparr>cw_fm := f\<rparr>)"
begin

lemma frame_git [keeps_intros]: "ok e p \<Longrightarrow> keeps (P p) (git (be_cache e) argv cwd fail_ok)"
  by (rule keeps_snd [where f = "ce_git (be_cache e) cwd argv None"]) (simp_all add: git_kept git_def split: prod.split)

lemma frame_git0 [keeps_intros]: "ok e p \<Longrightarrow> keeps (P p) (git0 (be_cache e) argv cwd)"
  by (auto simp: git0_def intro!: keeps_intros)

lemma frame_images [keeps_intros]: "keeps (P p) (put_image d n)" "keeps (P p) (drop_image d)"
  "keeps (P p) (get_image d)" "keeps (P p) (unpack_exist_p i)" "keeps (P p) (unpack_cache_linked i)"
  "keeps (P p) (unpack_clear i)"
  by (auto simp: put_image_def drop_image_def get_image_def unpack_exist_p_def unpack_cache_linked_def unpack_clear_def
      intro!: keeps_intros images_kept split: option.splits)

lemma frame_find_sid [keeps_intros]: "ok e p \<Longrightarrow> keeps (P p) (find_sid (be_cache e) cls sid b)"
  by (auto simp: find_sid_def find_sid_in_def intro!: keeps_intros split: list.splits)

lemma frame_files [keeps_intros]: "keeps (P p) (cache_git_prepare c d files write)"
  "keeps (P p) (cache_git_restore c d files quick)"
  by (auto simp: cache_git_prepare_def update_files_def pickle_def cache_git_restore_def unpickle_def Let_def
      intro!: keeps_intros images_kept large_kept fm_kept split: prod.splits option.splits)

lemma frame_worktree_add [keeps_intros]: "ok e p \<Longrightarrow> keeps (P p) (worktree_add (be_cache e) cls img base)"
  by (auto simp: worktree_add_def worktree_head_def intro!: keeps_intros split: prod.splits)

lemma frame_cache_commit [keeps_intros]: "ok e p \<Longrightarrow> keeps (P p) (commit (be_cache e) cls img sid msg files)"
  by (auto simp: commit_def commit_as_def disabled_commit_def Let_def intro!: keeps_intros split: prod.splits)

lemma frame_cache_checkout [keeps_intros]: "ok e p \<Longrightarrow> keeps (P p) (Cache.checkout (be_cache e) cls img h base)"
  by (auto simp: Cache.checkout_def disabled_checkout_def copy_unpacked_def intro!: keeps_intros split: prod.splits)

lemma frame_cache_rollback [keeps_intros]: "ok e p \<Longrightarrow> keeps (P p) (Cache.rollback (be_cache e) cls img)"
  by (auto simp: Cache.rollback_def Let_def intro!: keeps_intros split: prod.splits)

lemma frame_run_in [keeps_intros]: "ok e p \<Longrightarrow> keeps (P p) (run_in (be_run e) ch path args env d binds r fail_ok)"
  by (rule keeps_snd [where f = "be_run e (ch_run_argv ch path args d binds r) env"]) (simp_all add: run_kept run_in_def split: prod.split)

lemma frame_run_host [keeps_intros]: "ok e p \<Longrightarrow> keeps (P p) (run_host e argv)"
  by (rule keeps_snd [where f = "be_cmd e argv"]) (simp_all add: cmd_kept run_host_def split: prod.split)

lemma frame_run_modified [keeps_intros]: "ok e p \<Longrightarrow> keeps (P p) (run_modified (be_run e) ch f c env)"
  by (auto simp: run_modified_def run_modified_in_def fakeroot_modified_def install_def install_step_def
      intro!: keeps_intros split: forcer_kind.splits prod.splits)

end

text \<open>What building an instruction leaves alone: nor is it about metadata, the forcer and the hash.\<close>

locale build_frame = outside_frame +
  assumes md_kept: "P p w \<Longrightarrow> P p (w\<lparr>bw_md := m\<rparr>)"
    and forcer_kept: "P p w \<Longrightarrow> P p (w\<lparr>bw_forcer := fc\<rparr>)"
    and hash_kept: "P p w \<Longrightarrow> P p (w\<lparr>bw_self := (bw_self w)\<lparr>in_place := (in_place (bw_self w))\<lparr>pl_hash := h\<rparr>\<rparr>\<rparr>)"
begin

lemma frame_checkout_for_build [keeps_intros]: "ok e p \<Longrightarrow> keeps (P p) (checkout_for_build e)"
  by (auto simp: checkout_for_build_def checkout_base_def place_checkout_def
      intro!: keeps_intros forcer_kept split: inst_class.splits)

lemma frame_execute [keeps_intros]: "ok e p \<Longrightarrow> keeps (P p) (execute e)"
  by (auto simp: execute_def execute_run_def execute_copy_def execute_env_def execute_workdir_def
      intro!: keeps_intros forcer_kept split: inst_class.splits prod.splits)

lemma frame_rollback [keeps_intros]: "ok e p \<Longrightarrow> keeps (P p) (inst_rollback e)"
  by (auto simp: inst_rollback_def intro!: keeps_intros)

lemma frame_metadata_update [keeps_intros]: "ok e p \<Longrightarrow> keeps (P p) (metadata_update e)"
  by (auto simp: metadata_update_def save_metadata_def upd_md_def
      intro!: keeps_intros md_kept split: inst_class.splits prod.splits)

lemma frame_inst_commit [keeps_intros]: "ok e p \<Longrightarrow> keeps (P p) (inst_commit e)"
  by (auto simp: inst_commit_def upd_place_def upd_me_def intro!: keeps_intros hash_kept split: inst_class.splits)

lemma frame_build_inst [keeps_intros]: "ok e p \<Longrightarrow> keeps (P p) (build_inst e)"
  by (auto simp: build_inst_def intro!: keeps_intros)

end

text \<open>A part of the program's variables is such a thing.\<close>

lemma env_more:
  assumes "env_ok e" "\<And>w w' :: 'g bworld. cworld.more w = cworld.more w' \<Longrightarrow> part w = part w'"
  shows "part (snd (ce_git (be_cache e) cwd argv inp w)) = part w" "part (snd (be_run e cl env w)) = part w"
    "part (snd (be_cmd e cl w)) = part w"
  by (rule assms(2), use assms(1) in \<open>simp add: env_ok_def cache_env_ok_def\<close>)+

interpretation outside: outside_frame "\<lambda>e m. env_ok e" more_is
  by unfold_locales (simp_all add: more_is_def env_ok_def cache_env_ok_def)

section \<open>What building one instruction leaves alone\<close>

definition work_of :: "'g bworld \<Rightarrow> inst \<times> inst option \<times> int \<times> nat \<times> announcement list" where
  "work_of w = ((bw_self w)\<lparr>in_place := (in_place (bw_self w))\<lparr>pl_hash := Hash_Unknown\<rparr>\<rparr>,
     bw_inst_prev w, bw_miss_ct w, bw_total_ct w, bw_log w)"

definition at_work :: "inst \<times> inst option \<times> int \<times> nat \<times> announcement list \<Rightarrow> 'g bworld \<Rightarrow> bool" where
  "at_work x w \<longleftrightarrow> work_of w = x"

lemma work_of_more: "cworld.more w = cworld.more (w' :: 'g bworld) \<Longrightarrow> work_of w = work_of w'"
  by (cases w; cases w') (simp add: work_of_def)

lemma work_updates: "work_of (w\<lparr>cw_images := i\<rparr>) = work_of w" "work_of (w\<lparr>cw_large := l\<rparr>) = work_of w"
  "work_of (w\<lparr>cw_fm := f\<rparr>) = work_of w" "work_of (w\<lparr>bw_md := m\<rparr>) = work_of w" "work_of (w\<lparr>bw_forcer := fc\<rparr>) = work_of w"
  "work_of (w\<lparr>bw_self := (bw_self w)\<lparr>in_place := (in_place (bw_self w))\<lparr>pl_hash := h\<rparr>\<rparr>\<rparr>) = work_of w"
  by (simp_all add: work_of_def)

interpretation work: build_frame "\<lambda>e x. env_ok e" at_work
  by unfold_locales (simp_all add: at_work_def env_more [where part = work_of, OF _ work_of_more] work_updates)


section \<open>Preparing\<close>

definition plain_class :: "inst_class \<Rightarrow> bool" where
  "plain_class c = (case c of From s \<Rightarrow> False | Arg_First k v \<Rightarrow> False | _ \<Rightarrow> True)"

definition ignored_class :: "inst_class \<Rightarrow> bool" where
  "ignored_class c = (case c of Directive n \<Rightarrow> True | Uns_Forever n \<Rightarrow> True | Uns_Yet n \<Rightarrow> True | _ \<Rightarrow> False)"

text \<open>What the first steps of \<open>prepare\<close> leave alone\<close>

definition place_of :: "'g bworld \<Rightarrow> (place \<times> place option \<times> bool \<times> bool \<times> bool \<times> int) \<times>
    inst option \<times> int \<times> nat \<times> announcement list" where
  "place_of w = (let i = bw_self w in
     ((in_place i, in_parent i, in_own_parent i, in_announced i, plain_class (in_class i) \<and> \<not> ignored_class (in_class i), in_lineno i),
      bw_inst_prev w, bw_miss_ct w, bw_total_ct w, bw_log w))"

definition at_place where "at_place x w \<longleftrightarrow> place_of w = x"

lemma place_updates [simp]: "at_place x (w\<lparr>bw_md := m\<rparr>) \<longleftrightarrow> at_place x w"
  by (simp add: at_place_def place_of_def)

text \<open>A computation that ends in \<open>Instruction.prepare\<close>\<close>

definition ends_in_base :: "('g bworld \<Rightarrow> bool) \<Rightarrow> 'g build_env \<Rightarrow> int \<Rightarrow> ('g, int) bio \<Rightarrow> bool" where
  "ends_in_base P e c m \<longleftrightarrow>
     (\<forall>w r w'. P w \<longrightarrow> m w = (Inr r, w') \<longrightarrow> (\<exists>w1. P w1 \<and> base_prepare e c w1 = (Inr r, w')))"

named_theorems ends_intros "computations that end in base_prepare"

lemma ends_base [ends_intros]: "ends_in_base P e c (base_prepare e c)"
  by (auto simp: ends_in_base_def)

lemma ends_raise [ends_intros]: "ends_in_base P e c (raise x)"
  by (simp add: ends_in_base_def raise_Inr)

lemma ends_bindio [ends_intros]:
  assumes "keeps P m" "\<And>x. ends_in_base P e c (f x)"
  shows "ends_in_base P e c (bindio m f)"
  unfolding ends_in_base_def
proof (intro allI impI)
  fix w r w' assume "P w" "bindio m f w = (Inr r, w')"
  then obtain x w1 where x: "m w = (Inr x, w1)" "f x w1 = (Inr r, w')" by (auto simp: bindio_Inr)
  show "\<exists>w1. P w1 \<and> base_prepare e c w1 = (Inr r, w')"
    using assms(2) [of x] keepsD [OF assms(1) \<open>P w\<close> x(1)] x(2) unfolding ends_in_base_def by blast
qed

lemma ends_thenio [ends_intros]: "keeps P m \<Longrightarrow> ends_in_base P e c k \<Longrightarrow> ends_in_base P e c (thenio m k)"
  unfolding thenio_def by (rule ends_bindio)

lemma place_upd_md [keeps_intros]: "keeps (at_place x) (upd_md f)"
  by (auto simp: upd_md_def intro!: keeps_intros)

lemma place_option_pop [keeps_intros]: "keeps (at_place x) (option_pop k)"
  by (auto simp: option_pop_def upd_me_def at_place_def place_of_def Let_def me_def intro!: keeps_intros)

lemma place_set_class [keeps_intros]:
  "plain_class c \<and> \<not> ignored_class c \<Longrightarrow> keeps (\<lambda>w. at_place ((p, pa, own, a, True, l), rest) w) (set_class c)"
  by (auto simp: set_class_def upd_me_def at_place_def place_of_def Let_def intro!: keeps_intros)

lemma place_chdir [keeps_intros]: "keeps (at_place x) (chdir p)"
  by (auto simp: chdir_def intro!: keeps_intros)

text \<open>\<open>prepare\<close> of the other classes than FROM and the ARG before it\<close>

definition prepare_of :: "'g build_env \<Rightarrow> inst_class \<Rightarrow> int \<Rightarrow> ('g, int) bio" where
  "prepare_of e cl c = (case cl of
       Arg k v \<Rightarrow> prepare_arg e k v c | Copy s \<Rightarrow> prepare_copy e s c | Env k v \<Rightarrow> prepare_env e k v c
     | Label k v \<Rightarrow> prepare_label e k v c | Rsync s pl os \<Rightarrow> prepare_rsync e s pl os c
     | Run_Exec ws x \<Rightarrow> prepare_run_exec e ws c | Run_Shell s x \<Rightarrow> prepare_run_shell e s c
     | Shell ws \<Rightarrow> prepare_shell e ws c | Workdir s x \<Rightarrow> prepare_workdir e s c | _ \<Rightarrow> raise Instruction_Ignored)"

lemma prepare_eq: "plain_class (in_class (bw_self w)) \<Longrightarrow> prepare e t c w = prepare_of e (in_class (bw_self w)) c w"
  by (simp add: prepare_def prepare_of_def me_def io_run plain_class_def split: inst_class.splits)

lemmas prepare_defs = prepare_of_def prepare_arg_def prepare_copy_def prepare_env_def prepare_label_def prepare_rsync_def
  prepare_run_exec_def prepare_run_shell_def prepare_shell_def prepare_workdir_def

lemma prepare_ends_in_base:
  assumes "prepare e t c w = (Inr r, w')" "at_place ((p, pa, own, a, True, l), rest) w"
  shows "\<exists>w1. at_place ((p, pa, own, a, True, l), rest) w1 \<and> base_prepare e c w1 = (Inr r, w')"
proof -
  let ?c = "in_class (bw_self w)"
  have c: "plain_class ?c" using assms(2) by (simp add: at_place_def place_of_def Let_def)
  have "ends_in_base (at_place ((p, pa, own, a, True, l), rest)) e c (prepare_of e ?c c)"
    by (auto simp: prepare_defs Let_def plain_class_def ignored_class_def
        intro!: ends_intros keeps_intros split: inst_class.splits option.splits json.splits)
  with assms prepare_eq [OF c] show ?thesis unfolding ends_in_base_def by (metis (no_types, lifting))
qed

text \<open>What all of \<open>prepare\<close> leaves alone, also if it fails\<close>

definition rest_of :: "'g bworld \<Rightarrow> bool \<times> int \<times> inst option \<times> int \<times> nat \<times> announcement list" where
  "rest_of w = (in_announced (bw_self w), in_lineno (bw_self w), bw_inst_prev w, bw_miss_ct w, bw_total_ct w, bw_log w)"

definition at_rest where "at_rest x w \<longleftrightarrow> rest_of w = x"

lemma rest_of_more: "cworld.more w = cworld.more (w' :: 'g bworld) \<Longrightarrow> rest_of w = rest_of w'"
  by (cases w; cases w') (simp add: rest_of_def)

lemma rest_updates: "rest_of (w\<lparr>cw_images := i\<rparr>) = rest_of w" "rest_of (w\<lparr>cw_large := l\<rparr>) = rest_of w"
  "rest_of (w\<lparr>cw_fm := f\<rparr>) = rest_of w"
  by (simp_all add: rest_of_def)

interpretation rest: outside_frame "\<lambda>e x. env_ok e" at_rest
  by unfold_locales (simp_all add: at_rest_def env_more [where part = rest_of, OF _ rest_of_more] rest_updates)

lemma rest_steps [keeps_intros]: "keeps (at_rest x) (upd_md f)" "keeps (at_rest x) (option_pop k)"
  "keeps (at_rest x) (set_class c)" "keeps (at_rest x) (upd_place g)" "keeps (at_rest x) (chdir p)"
  by (auto simp: upd_md_def option_pop_def upd_me_def at_rest_def rest_of_def me_def set_class_def upd_place_def
      chdir_def workdir_def intro!: keeps_intros split: json.splits)

lemma rest_base_prepare [keeps_intros]: "env_ok e \<Longrightarrow> keeps (at_rest x) (base_prepare e c)"
  by (auto simp: base_prepare_def my_sid_input_def intro!: keeps_intros split: inst_class.splits)

lemma rest_prepare_of: "env_ok e \<Longrightarrow> keeps (at_rest x) (prepare_of e cl c)"
  by (cases cl; simp add: prepare_defs Let_def)
    (auto intro!: keeps_intros split: option.splits json.splits; fail)+

lemma rest_prepare:
  assumes "env_ok e" "plain_class (in_class (bw_self w))" "prepare e t c w = (r, w')"
  shows "rest_of w' = rest_of w"
  using keepsD [OF rest_prepare_of [OF assms(1), where x = "rest_of w" and cl = "in_class (bw_self w)" and c = c],
      where w = w and r = r and w' = w'] assms(2,3) by (simp add: at_rest_def prepare_eq)

text \<open>What is stored, which preparing does not change if Git's log is only read\<close>

definition stored :: "'g bworld \<Rightarrow> 'g \<times> (string, node) dict \<times> node option \<times> (string, node) dict \<times> fm option" where
  "stored w = (cw_git w, cw_images w, cw_image_tmp w, cw_large w, cw_fm w)"

definition git_log_reads :: "('g, 'm) cache_env \<Rightarrow> bool" where
  "git_log_reads e \<longleftrightarrow> (\<forall>cwd args inp w. snd (ce_git e cwd (''log'' # args) inp w) = w)"

definition at_store where "at_store x w \<longleftrightarrow> stored w = x"

lemma store_updates [simp]: "at_store x (w\<lparr>bw_md := m\<rparr>) \<longleftrightarrow> at_store x w" "at_store x (w\<lparr>bw_self := i\<rparr>) \<longleftrightarrow> at_store x w"
  "at_store x (w\<lparr>bw_log := l\<rparr>) \<longleftrightarrow> at_store x w" "at_store x (w\<lparr>bw_miss_ct := c\<rparr>) \<longleftrightarrow> at_store x w"
  by (simp_all add: at_store_def stored_def)

lemma store_steps [keeps_intros]: "keeps (at_store x) (upd_md f)" "keeps (at_store x) (option_pop k)"
  "keeps (at_store x) (set_class c)" "keeps (at_store x) (upd_place g)" "keeps (at_store x) (chdir p)"
  "keeps (at_store x) (announce_maybe e)"
  by (auto simp: upd_md_def option_pop_def upd_me_def me_def set_class_def upd_place_def announce_maybe_def my_str_def
      chdir_def workdir_def intro!: keeps_intros split: json.splits)

lemma store_git_log [keeps_intros]: "git_log_reads e \<Longrightarrow> keeps P (git e (''log'' # args) cwd b)"
  by (auto simp: keeps_def git_def git_log_reads_def split: prod.splits) (metis snd_conv)+

lemma store_find_sid [keeps_intros]: "git_log_reads e \<Longrightarrow> keeps (at_store x) (find_sid e cls sid b)"
  by (auto simp: find_sid_def find_sid_in_def intro!: keeps_intros split: list.splits)

lemma store_base_prepare [keeps_intros]: "git_log_reads (be_cache e) \<Longrightarrow> keeps (at_store x) (base_prepare e c)"
  by (auto simp: base_prepare_def my_sid_input_def intro!: keeps_intros split: inst_class.splits)

lemma store_prepare_of: "git_log_reads (be_cache e) \<Longrightarrow> keeps (at_store x) (prepare_of e cl c)"
  by (cases cl; simp add: prepare_defs Let_def)
    (auto intro!: keeps_intros split: option.splits json.splits; fail)+

lemma store_prepare:
  assumes "git_log_reads (be_cache e)" "plain_class (in_class (bw_self w))" "prepare e t c w = (r, w')"
  shows "stored w' = stored w"
  using keepsD [OF store_prepare_of [OF assms(1), where x = "stored w" and cl = "in_class (bw_self w)" and c = c],
      where w = w and r = r and w' = w'] assms(2,3) by (simp add: at_store_def prepare_eq)

lemma my_str_run: "my_str e w = (inst_str (bo_force (be_opts e)) (bw_md w) (bw_self w), w)"
  by (simp add: my_str_def io_run)

text \<open>The input of the state ID as a function of the text announced\<close>

definition sid_input_of :: "inst \<Rightarrow> string \<Rightarrow> bytes" where
  "sid_input_of i s =
     (case in_class i of
        Arg k v \<Rightarrow> encode_utf8 (if k \<in> set args_magic then ''ARG'' @ k else s)
      | Copy c \<Rightarrow> encode_utf8 s @ cy_metadata c
      | Rsync c p os \<Rightarrow> encode_utf8 s @ cy_metadata c
      | _ \<Rightarrow> encode_utf8 s)"

lemma my_sid_input_run:
  assumes "my_sid_input e w = (Inr inp, w')"
  shows "w' = w"
    and "inst_str (bo_force (be_opts e)) (bw_md w) (bw_self w) = Inr s \<Longrightarrow> inp = sid_input_of (bw_self w) s"
  using assms unfolding my_sid_input_def sid_input_of_def
  by (auto simp: me_def io_run my_str_run str_name_def split: inst_class.splits if_splits sum.splits)

lemma inst_str_place:
  "pl_image p = pl_image (in_place i) \<Longrightarrow> inst_str m md (i\<lparr>in_place := p\<rparr>) = inst_str m md i"
  by (simp add: inst_str_def inst_text_def cong: inst_class.case_cong)

lemma base_prepare_spec:
  assumes "env_ok e" "be_cls e \<noteq> Disabled_Cache" "base_prepare e c w = (Inr c', w')"
    and pa: "parent_of (bw_self w) = Some pa" "pl_sid pa = Some s"
  obtains inp h where "my_sid_input e w = (Inr inp, w)" "c' = c + (if h = None then 1 else 0)"
    "cworld.more w' = cworld.more (w\<lparr>bw_self := (bw_self w)\<lparr>in_place := (in_place (bw_self w))\<lparr>
       pl_sid := Some (from_parent (ce_md5 (be_cache e)) s (Bytes_Input inp)), pl_hash := Hash h\<rparr>\<rparr>\<rparr>)"
proof -
  from assms(3) obtain inp wi sid h w2 and img :: image_id where
    inp: "my_sid_input e w = (Inr inp, wi)"
    and sid: "sid_from_parent (be_cache e) (be_cls e) (pl_sid pa) (Bytes_Input inp) = Inr sid"
    and f: "find_sid (be_cache e) (be_cls e) sid (im_dir img)
        (wi\<lparr>bw_self := (bw_self wi)\<lparr>in_place := (in_place (bw_self wi))\<lparr>pl_sid := sid\<rparr>\<rparr>\<rparr>) = (Inr h, w2)"
    and c: "c' = c + (if h = None then 1 else 0)"
    and w': "w' = w2\<lparr>bw_self := (bw_self w2)\<lparr>in_place := (in_place (bw_self w2))\<lparr>pl_hash := Hash h\<rparr>\<rparr>\<rparr>"
    unfolding base_prepare_def me_def upd_place_def upd_me_def
    by (clarsimp simp: pa(1) io_simps of_opt_def my_image_def me_def split: option.splits)
  have wi: "wi = w" using my_sid_input_run [OF inp] by simp
  have s: "sid = Some (from_parent (ce_md5 (be_cache e)) s (Bytes_Input inp))"
    using sid assms(2) by (auto simp: pa sid_from_parent_def of_opt_def)
  have "cworld.more w2 = cworld.more (w\<lparr>bw_self := (bw_self w)\<lparr>in_place := (in_place (bw_self w))\<lparr>pl_sid := sid\<rparr>\<rparr>\<rparr>)"
    using keepsD [OF outside.frame_find_sid [OF assms(1)] _ f] wi by (simp add: more_is_def)
  then have "cworld.more w' = cworld.more (w\<lparr>bw_self := (bw_self w)\<lparr>in_place := (in_place (bw_self w))\<lparr>
       pl_sid := sid, pl_hash := Hash h\<rparr>\<rparr>\<rparr>)"
    unfolding w' by (cases w; cases w2) simp
  with that pa inp wi s c show ?thesis by simp
qed


lemma more_self:
  fixes w :: "'g bworld"
  assumes "cworld.more w' = cworld.more (w\<lparr>bw_self := i\<rparr>)"
  shows "bw_self w' = i" "bw_md w' = bw_md w" "bw_log w' = bw_log w" "bw_inst_prev w' = bw_inst_prev w"
    "bw_miss_ct w' = bw_miss_ct w" "bw_total_ct w' = bw_total_ct w"
  using assms by (cases w; cases w'; simp)+

lemma my_sid_input_place:
  assumes "my_sid_input e w = (Inr inp, w)" "bw_md w' = bw_md w"
    "bw_self w' = (bw_self w)\<lparr>in_place := p\<rparr>" "pl_image p = pl_image (in_place (bw_self w))"
  shows "my_sid_input e w' = (Inr inp, w')"
  using assms inst_str_place [of p "bw_self w" "bo_force (be_opts e)" "bw_md w"]
  by (auto simp: my_sid_input_def me_def io_run my_str_run split: inst_class.splits if_splits sum.splits)

lemma prepare_plain:
  assumes ok: "env_ok e" "be_cls e \<noteq> Disabled_Cache" and r: "prepare e t c w = (Inr c', w')"
    and plain: "plain_class (in_class (bw_self w))" "\<not> ignored_class (in_class (bw_self w))" "\<not> in_own_parent (bw_self w)"
    and pa: "in_parent (bw_self w) = Some pa" "pl_sid pa = Some s"
  obtains inp h where "my_sid_input e w' = (Inr inp, w')" "c' = c + (if h = None then 1 else 0)"
    "pl_sid (in_place (bw_self w')) = Some (from_parent (ce_md5 (be_cache e)) s (Bytes_Input inp))"
    "pl_hash (in_place (bw_self w')) = Hash h" "rest_of w' = rest_of w"
    "plain_class (in_class (bw_self w'))" "\<not> ignored_class (in_class (bw_self w'))"
proof -
  obtain rest where w: "at_place ((in_place (bw_self w), Some pa, False, in_announced (bw_self w), True, in_lineno (bw_self w)), rest) w"
    using plain pa by (simp add: at_place_def place_of_def Let_def)
  from prepare_ends_in_base [OF r w] obtain w1
    where w1: "at_place ((in_place (bw_self w), Some pa, False, in_announced (bw_self w), True, in_lineno (bw_self w)), rest) w1"
      and b: "base_prepare e c w1 = (Inr c', w')" by blast
  have f: "parent_of (bw_self w1) = Some pa" "plain_class (in_class (bw_self w1))" "\<not> ignored_class (in_class (bw_self w1))"
    using w1 by (simp_all add: at_place_def place_of_def Let_def parent_of_def)
  obtain inp h where s: "my_sid_input e w1 = (Inr inp, w1)" "c' = c + (if h = None then 1 else 0)"
    and m: "cworld.more w' = cworld.more (w1\<lparr>bw_self := (bw_self w1)\<lparr>in_place := (in_place (bw_self w1))\<lparr>
       pl_sid := Some (from_parent (ce_md5 (be_cache e)) s (Bytes_Input inp)), pl_hash := Hash h\<rparr>\<rparr>\<rparr>)"
    by (rule base_prepare_spec [OF ok b f(1) pa(2)])
  note m' = more_self [OF m]
  show ?thesis
  proof (rule that)
    show "my_sid_input e w' = (Inr inp, w')" by (rule my_sid_input_place [OF s(1) m'(2) m'(1)]) simp
    show "rest_of w' = rest_of w" by (rule rest_prepare [OF ok(1) plain(1) r])
  qed (use s(2) m' f(2,3) in simp_all)
qed

lemma announce_spec:
  assumes "announce_maybe e w = (Inr (), w')" "\<not> in_announced (bw_self w)"
  obtains s where "inst_str (bo_force (be_opts e)) (bw_md w) (bw_self w) = Inr s"
    "w' = w\<lparr>bw_log := bw_log w @ [\<lparr>an_lineno = in_lineno (bw_self w), an_status = inst_status (bw_self w), an_text = s\<rparr>],
            bw_self := (bw_self w)\<lparr>in_announced := True\<rparr>\<rparr>"
  using assms by (auto simp: announce_maybe_def me_def io_simps my_str_run upd_me_def)

end
