(* ===== verification/Build_Facts.thy ===== *)
theory Build_Facts
  imports Build_Frames
begin

text \<open>
  The main loop of a build with the cache as a state machine: a stage steps from one state
  ID to the next, by a hit or a miss (\<open>stage_step\<close>, \<open>stage_run\<close>), and the loop of
  \<open>Build\<close> makes its steps (\<open>visits_run\<close>). FROM opens a stage, hits change nothing
  stored, and a failed instruction is rolled back. At the end, a concrete build.
\<close>

section \<open>A stage as a state machine\<close>

text \<open>
  What a stage is about: the state ID reached, how many instructions were not in the cache
  and how many were processed. An event is an instruction ignored, or one done: whether it
  was a miss, its text, and what its state ID hashes.
\<close>

record stage_state =
  st_sid :: state_id
  st_misses :: int
  st_total :: nat

datatype event = Ignored string | Done bool string bytes

inductive stage_step :: "(bytes \<Rightarrow> bytes) \<Rightarrow> stage_state \<Rightarrow> event \<Rightarrow> stage_state \<Rightarrow> bool" for md5 where
  ignore: "stage_step md5 st (Ignored s) st"
| hit: "stage_step md5 st (Done False s inp)
     (st\<lparr>st_sid := from_parent md5 (st_sid st) (Bytes_Input inp), st_total := Suc (st_total st)\<rparr>)"
| miss: "stage_step md5 st (Done True s inp)
     (st\<lparr>st_sid := from_parent md5 (st_sid st) (Bytes_Input inp), st_misses := st_misses st + 1,
         st_total := Suc (st_total st)\<rparr>)"

inductive stage_run :: "(bytes \<Rightarrow> bytes) \<Rightarrow> stage_state \<Rightarrow> event list \<Rightarrow> stage_state \<Rightarrow> bool" for md5 where
  start: "stage_run md5 st [] st"
| further: "stage_step md5 st ev st' \<Longrightarrow> stage_run md5 st' evs st'' \<Longrightarrow> stage_run md5 st (ev # evs) st''"

inductive_cases ignoredE: "stage_step md5 st (Ignored s) st'"
inductive_cases doneE: "stage_step md5 st (Done b s inp) st'"
inductive_simps stage_run_simps [simp]: "stage_run md5 st [] st'" "stage_run md5 st (ev # evs) st'"

fun event_inputs :: "event list \<Rightarrow> bytes list" where
  "event_inputs [] = []"
| "event_inputs (Ignored s # evs) = event_inputs evs"
| "event_inputs (Done b s inp # evs) = inp # event_inputs evs"

fun event_misses :: "event list \<Rightarrow> nat" where
  "event_misses [] = 0"
| "event_misses (Done True s inp # evs) = Suc (event_misses evs)"
| "event_misses (ev # evs) = event_misses evs"

text \<open>An event as it is announced; what is hashed starts with the text, but for special ARGs\<close>

fun announced_as :: "announcement \<Rightarrow> event \<Rightarrow> bool" where
  "announced_as a (Ignored s) \<longleftrightarrow> an_text a = s"
| "announced_as a (Done miss s inp) \<longleftrightarrow> an_text a = s \<and> an_status a = status_char (Some miss) \<and>
     (prefix (encode_utf8 s) inp \<or> (\<exists>k\<in>set args_magic. inp = encode_utf8 (''ARG'' @ k)))"

lemma stage_run_result:
  "stage_run md5 st evs st' \<Longrightarrow>
     st_sid st' = chain_sid md5 (st_sid st) (map Bytes_Input (event_inputs evs)) \<and>
     st_misses st' = st_misses st + int (event_misses evs) \<and>
     st_total st' = st_total st + length (event_inputs evs)"
proof (induction rule: stage_run.induct)
  case (further st ev st' evs st'')
  from further.hyps(1) show ?case using further.IH by cases auto
qed simp

lemma event_misses_le: "event_misses evs \<le> length (event_inputs evs)"
  by (induction evs rule: event_misses.induct) (auto simp: le_SucI)

lemma event_misses_append: "event_misses (evs @ evs') = event_misses evs + event_misses evs'"
  by (induction evs rule: event_misses.induct) auto

lemma stage_run_append:
  "stage_run md5 st (evs @ evs') st' \<longleftrightarrow> (\<exists>u. stage_run md5 st evs u \<and> stage_run md5 u evs' st')"
  by (induction evs arbitrary: st) auto


section \<open>The main loop makes the machine's steps\<close>

lemma proceed_spec:
  assumes "env_ok e" "proceed e w = (Inr (), w')"
  obtains w1 where "work_of w1 = work_of w"
    "w' = w1\<lparr>bw_inst_prev := Some (bw_self w1), bw_total_ct := Suc (bw_total_ct w1)\<rparr>"
proof -
  let ?m = "bindio me (\<lambda>i. whenio (inst_miss i = Some True) (build_inst e))"
  obtain w1 where w1: "?m w = (Inr (), w1)"
      "w' = w1\<lparr>bw_inst_prev := Some (bw_self w1), bw_total_ct := Suc (bw_total_ct w1)\<rparr>"
    using assms(2) unfolding proceed_def by (auto simp: thenio_Inr modify_Inr)
  have "keeps (at_work (work_of w)) ?m" using assms(1) by (intro keeps_intros)
  from keepsD [OF this _ w1(1)] that w1(2) show ?thesis by (simp add: at_work_def)
qed

lemma announced_result:
  assumes "my_sid_input e w = (Inr inp, w)" "inst_str (bo_force (be_opts e)) (bw_md w) (bw_self w) = Inr s"
    and "plain_class (in_class (bw_self w))" "pl_hash (in_place (bw_self w)) = Hash h"
    and "\<not> ignored_class (in_class (bw_self w))"
  shows "announced_as \<lparr>an_lineno = n, an_status = inst_status (bw_self w), an_text = s\<rparr> (Done (h = None) s inp)"
    "inst_miss (bw_self w) = Some (h = None)"
  using my_sid_input_run(2) [OF assms(1,2)] assms(3-5)
  by (auto simp: sid_input_of_def inst_status_def inst_miss_def plain_class_def ignored_class_def split: inst_class.splits)

text \<open>What processing an instruction does to the loop's variables\<close>

fun after_event :: "(bytes \<Rightarrow> bytes) \<Rightarrow> state_id \<Rightarrow> 'g bworld \<Rightarrow> event \<Rightarrow> 'g bworld \<Rightarrow> bool" where
  "after_event md5 s w (Ignored tx) w' \<longleftrightarrow>
     bw_inst_prev w' = bw_inst_prev w \<and> bw_miss_ct w' = bw_miss_ct w \<and> bw_total_ct w' = bw_total_ct w"
| "after_event md5 s w (Done b tx inp) w' \<longleftrightarrow>
     (\<exists>i. bw_inst_prev w' = Some i \<and> pl_sid (in_place i) = Some (from_parent md5 s (Bytes_Input inp)))
     \<and> bw_miss_ct w' = bw_miss_ct w + (if b then 1 else 0) \<and> bw_total_ct w' = Suc (bw_total_ct w)"

lemma prepare_ignored:
  "ignored_class (in_class (bw_self w)) \<Longrightarrow> prepare e t c w = (Inl Instruction_Ignored, w)"
  by (auto simp: prepare_def me_def io_run ignored_class_def split: inst_class.splits)

lemma announce_fails_again:
  "announce_maybe e w = (Inl x, w') \<Longrightarrow> announce_maybe e w' \<noteq> (Inr u, w'')"
  by (auto simp: announce_maybe_def me_def io_run my_str_run upd_me_def split: if_splits sum.splits)

text \<open>An instruction that is not ignored: its text and what is hashed are as prepared.\<close>

lemma process_done:
  assumes ok: "env_ok e" "be_cls e \<noteq> Disabled_Cache" and r: "process e t w = (Inr (), w')"
    and plain: "plain_class (in_class (bw_self w))" "\<not> in_own_parent (bw_self w)" "\<not> in_announced (bw_self w)"
    and pa: "in_parent (bw_self w) = Some pa" "pl_sid pa = Some s"
    and c': "prepare e t (bw_miss_ct w) w = (Inr c', w0)"
  obtains tx a b where "inst_str (bo_force (be_opts e)) (bw_md w0) (bw_self w0) = Inr tx" "bw_log w' = bw_log w @ [a]"
    "an_text a = tx" "announced_as a (Done b tx (sid_input_of (bw_self w0) tx))"
    "after_event (ce_md5 (be_cache e)) s w (Done b tx (sid_input_of (bw_self w0) tx)) w'"
    "git_log_reads (be_cache e) \<Longrightarrow> \<not> b \<Longrightarrow> stored w' = stored w"
    "pl_sid (in_place (bw_self w0)) = Some (from_parent (ce_md5 (be_cache e)) s (Bytes_Input (sid_input_of (bw_self w0) tx)))"
    "\<exists>h. pl_hash (in_place (bw_self w0)) = Hash h \<and> b = (h = None)"
    "\<exists>w1. proceed e w1 = (Inr (), w') \<and> stored w1 = stored w0 \<and> bw_self w1 = (bw_self w0)\<lparr>in_announced := True\<rparr>
       \<and> inst_miss (bw_self w1) = Some b" "plain_class (in_class (bw_self w0))"
proof -
  have p: "prepare_announced e t w = announce_maybe e (w0\<lparr>bw_miss_ct := c'\<rparr>)"
    using c' by (simp add: prepare_announced_def io_run)
  obtain q w1 where q: "announce_maybe e (w0\<lparr>bw_miss_ct := c'\<rparr>) = (q, w1)" by fastforce
  with r p announce_fails_again [of e "w0\<lparr>bw_miss_ct := c'\<rparr>" _ w1 "()" w'] have "q = Inr ()"
    by (auto simp: process_def io_simps raise_Inr split: sum.splits if_splits)
  with q have a: "announce_maybe e (w0\<lparr>bw_miss_ct := c'\<rparr>) = (Inr (), w1)" by simp
  have ni: "\<not> ignored_class (in_class (bw_self w))"
    using prepare_ignored [of w e t "bw_miss_ct w"] c' by auto
  obtain inp h where inp: "my_sid_input e w0 = (Inr inp, w0)" "c' = bw_miss_ct w + (if h = None then 1 else 0)"
    "pl_sid (in_place (bw_self w0)) = Some (from_parent (ce_md5 (be_cache e)) s (Bytes_Input inp))"
    "pl_hash (in_place (bw_self w0)) = Hash h" "rest_of w0 = rest_of w" "plain_class (in_class (bw_self w0))"
    "\<not> ignored_class (in_class (bw_self w0))" by (rule prepare_plain [OF ok c' plain(1) ni plain(2) pa])
  obtain tx where tx: "inst_str (bo_force (be_opts e)) (bw_md w0) (bw_self w0) = Inr tx"
    "w1 = w0\<lparr>bw_miss_ct := c', bw_log := bw_log w0 @ [\<lparr>an_lineno = in_lineno (bw_self w0),
       an_status = inst_status (bw_self w0), an_text = tx\<rparr>], bw_self := (bw_self w0)\<lparr>in_announced := True\<rparr>\<rparr>"
    using announce_spec [OF a] inp(5) plain(3) by (auto simp: rest_of_def)
  have "proceed e w1 = (Inr (), w')" using r p a by (simp add: process_def)
  with ok(1) obtain w2 where w2: "work_of w2 = work_of w1"
    "w' = w2\<lparr>bw_inst_prev := Some (bw_self w2), bw_total_ct := Suc (bw_total_ct w2)\<rparr>" by (rule proceed_spec)
  have sid: "pl_sid (in_place (bw_self w2)) = pl_sid (in_place (bw_self w1))"
    using arg_cong [OF w2(1), where f = "\<lambda>x. pl_sid (in_place (fst x))"] by (simp add: work_of_def)
  have i: "sid_input_of (bw_self w0) tx = inp" using my_sid_input_run(2) [OF inp(1) tx(1)] by simp
  show ?thesis
  proof (rule that [OF tx(1), of "\<lparr>an_lineno = in_lineno (bw_self w0), an_status = inst_status (bw_self w0), an_text = tx\<rparr>" "h = None"])
    show "bw_log w' = bw_log w @ [\<lparr>an_lineno = in_lineno (bw_self w0), an_status = inst_status (bw_self w0), an_text = tx\<rparr>]"
      using w2 tx(2) inp(5) by (simp add: work_of_def rest_of_def)
    show "announced_as \<lparr>an_lineno = in_lineno (bw_self w0), an_status = inst_status (bw_self w0), an_text = tx\<rparr>
        (Done (h = None) tx (sid_input_of (bw_self w0) tx))"
      unfolding i using announced_result(1) [OF inp(1) tx(1) inp(6,4,7)] by blast
    show "after_event (ce_md5 (be_cache e)) s w (Done (h = None) tx (sid_input_of (bw_self w0) tx)) w'"
      using w2 tx(2) inp(2,3,5) sid by (simp add: i work_of_def rest_of_def)
    show "stored w' = stored w" if "git_log_reads (be_cache e)" "h \<noteq> None"
    proof -
      have "inst_miss (bw_self w1) \<noteq> Some True"
        using inp(4,6,7) tx(2) that(2) by (auto simp: inst_miss_def plain_class_def ignored_class_def split: inst_class.splits)
      then have "w' = w1\<lparr>bw_inst_prev := Some (bw_self w1), bw_total_ct := Suc (bw_total_ct w1)\<rparr>"
        using \<open>proceed e w1 = (Inr (), w')\<close> by (simp add: proceed_def me_def io_run)
      with tx(2) store_prepare [OF that(1) plain(1) c'] show ?thesis by (simp add: stored_def)
    qed
    show "pl_sid (in_place (bw_self w0)) = Some (from_parent (ce_md5 (be_cache e)) s (Bytes_Input (sid_input_of (bw_self w0) tx)))"
      using inp(3) i by simp
    show "\<exists>x. pl_hash (in_place (bw_self w0)) = Hash x \<and> (h = None) = (x = None)" using inp(4) by blast
    show "\<exists>w1. proceed e w1 = (Inr (), w') \<and> stored w1 = stored w0 \<and> bw_self w1 = (bw_self w0)\<lparr>in_announced := True\<rparr>
        \<and> inst_miss (bw_self w1) = Some (h = None)"
      using \<open>proceed e w1 = (Inr (), w')\<close> announced_result(2) [OF inp(1) tx(1) inp(6,4,7)] tx(2)
      by (intro exI [of _ w1]) (simp add: stored_def inst_miss_def cong: inst_class.case_cong)
    show "plain_class (in_class (bw_self w0))" by (rule inp(6))
  qed simp
qed

lemma process_plain:
  assumes ok: "env_ok e" "be_cls e \<noteq> Disabled_Cache" and r: "process e t w = (Inr (), w')"
    and plain: "plain_class (in_class (bw_self w))" "\<not> in_own_parent (bw_self w)" "\<not> in_announced (bw_self w)"
    and pa: "in_parent (bw_self w) = Some pa" "pl_sid pa = Some s"
  shows "\<exists>ev a. bw_log w' = bw_log w @ [a] \<and> announced_as a ev \<and> after_event (ce_md5 (be_cache e)) s w ev w'
      \<and> (git_log_reads (be_cache e) \<and> event_misses [ev] = 0 \<longrightarrow> stored w' = stored w)"
proof -
  obtain q w1 where q: "prepare e t (bw_miss_ct w) w = (q, w1)" by fastforce
  show ?thesis
  proof (cases q)
    case (Inr c')
    with q have "prepare e t (bw_miss_ct w) w = (Inr c', w1)" by simp
    then show ?thesis
    proof (rule process_done [OF ok r plain pa])
      fix tx a b
      assume "bw_log w' = bw_log w @ [a]" "announced_as a (Done b tx (sid_input_of (bw_self w1) tx))"
        "after_event (ce_md5 (be_cache e)) s w (Done b tx (sid_input_of (bw_self w1) tx)) w'"
        "git_log_reads (be_cache e) \<Longrightarrow> \<not> b \<Longrightarrow> stored w' = stored w"
      then show ?thesis by (intro exI [of _ "Done b tx (sid_input_of (bw_self w1) tx)"] exI [of _ a]) (cases b; simp)
    qed
  next
    case (Inl x)
    with q have f: "prepare e t (bw_miss_ct w) w = (Inl x, w1)" by simp
    then have "prepare_announced e t w = (Inl x, w1)" by (simp add: prepare_announced_def io_run)
    with r have x: "x = Instruction_Ignored" "announce_maybe e w1 = (Inr (), w')"
      by (auto simp: process_def io_simps split: if_splits)
    have rest: "rest_of w1 = rest_of w" by (rule rest_prepare [OF ok(1) plain(1) f])
    obtain tx where "w' = w1\<lparr>bw_log := bw_log w1 @ [\<lparr>an_lineno = in_lineno (bw_self w1),
         an_status = inst_status (bw_self w1), an_text = tx\<rparr>], bw_self := (bw_self w1)\<lparr>in_announced := True\<rparr>\<rparr>"
      using announce_spec [OF x(2)] rest plain(3) by (auto simp: rest_of_def)
    with rest store_prepare [OF _ plain(1) f] show ?thesis
      by (intro exI [of _ "Ignored tx"]) (auto simp: rest_of_def stored_def)
  qed
qed


text \<open>Nodes that make neither FROM nor an ARG before it\<close>

definition in_stage :: "tree \<Rightarrow> bool" where
  "in_stage t \<longleftrightarrow> tree_data t \<notin> {''from_'', ''arg_first_bare'', ''arg_first_equals''}"

lemma inst_init_fields:
  assumes "inst_init e t c fs = Inr i"
  shows "in_class i = c \<and> \<not> in_announced i \<and> \<not> in_own_parent i"
  using assms by (auto simp: inst_init_def res_simps)

lemma more_arg_value: "arg_value k d w = (Inr v, w') \<Longrightarrow> \<exists>b. w' = w\<lparr>bw_build_arg := b\<rparr>"
  by (cases w) (auto simp: arg_value_def io_simps split: option.splits)


definition makes_plain :: "('g, inst option) bio \<Rightarrow> bool" where
  "makes_plain m \<longleftrightarrow> (\<forall>w r w'. m w = (Inr r, w') \<longrightarrow> (\<exists>b. w' = w\<lparr>bw_build_arg := b\<rparr>) \<and>
     (\<forall>i. r = Some i \<longrightarrow> plain_class (in_class i) \<and> \<not> in_announced i \<and> \<not> in_own_parent i))"

lemma makes_letr: "(\<And>x. r = Inr x \<Longrightarrow> makes_plain (f x)) \<Longrightarrow> makes_plain (letr r f)"
  by (auto simp: makes_plain_def io_simps)

lemma same_build_arg: "w = w\<lparr>bw_build_arg := bw_build_arg w\<rparr>" for w :: "'g bworld"
  by (cases w) simp

lemma makes_ret: "(\<And>i. r = Some i \<Longrightarrow> plain_class (in_class i) \<and> \<not> in_announced i \<and> \<not> in_own_parent i) \<Longrightarrow> makes_plain (ret r)"
  unfolding makes_plain_def ret_Inr by (metis same_build_arg)

lemma makes_raise: "makes_plain (raise x)"
  by (simp add: makes_plain_def raise_Inr)

lemma makes_arg_value:
  "(\<And>v. makes_plain (ret (f v))) \<Longrightarrow> makes_plain (bindio (arg_value k d) (\<lambda>v. ret (f v)))"
  by (fastforce simp: makes_plain_def io_simps dest: more_arg_value)


lemma makes_if: "(b \<Longrightarrow> makes_plain m) \<Longrightarrow> (\<not> b \<Longrightarrow> makes_plain m') \<Longrightarrow> makes_plain (if b then m else m')"
  by simp

lemma makes_pair: "(\<And>x y. makes_plain (f x y)) \<Longrightarrow> makes_plain (case p of (x, y) \<Rightarrow> f x y)"
  by (simp split: prod.split)

lemma makes_none: "makes_plain (ret None)"
  by (rule makes_ret) simp

lemma plain_classes [simp]:
  "plain_class (Arg k v)" "plain_class (Copy c)" "plain_class (Directive n)" "plain_class (Env k x)" "plain_class (Label k x)"
  "plain_class (Rsync c p os)" "plain_class (Run_Exec ws y)" "plain_class (Run_Shell s y)" "plain_class (Shell ws)"
  "plain_class (Uns_Forever n)" "plain_class (Uns_Yet n)" "plain_class (Workdir s z)"
  by (simp_all add: plain_class_def)

lemma rsync_init_plain: "rsync_init e t = Inr c \<Longrightarrow> plain_class c"
  by (auto simp: rsync_init_def res_simps)

lemma makes_inst_init:
  "plain_class c \<Longrightarrow> makes_plain (letr (inst_init e t c fs) (\<lambda>i. ret (Some i)))"
  by (intro makes_letr makes_ret) (auto dest: inst_init_fields)

lemma makes_copy:
  "makes_plain (letr (inst_init e t (Copy empty_copying) []) (\<lambda>i. letr (copy_init e t i) (\<lambda>i. ret (Some i))))"
  by (intro makes_letr makes_ret)
    (auto simp: copy_init_def plain_class_def res_simps dest!: inst_init_fields)

lemma makes_arg:
  "makes_plain (letr (inst_init e t c fs) (\<lambda>i. letr r (\<lambda>k. bindio (arg_value k d) (\<lambda>v. ret (Some (i\<lparr>in_class := Arg k v\<rparr>))))))"
  by (intro makes_letr makes_arg_value makes_ret) (auto simp: plain_class_def dest!: inst_init_fields)

lemma makes_inst:
  assumes "in_stage t"
  shows "makes_plain (make_inst e t)"
proof -
  have n: "tree_data t \<noteq> ''from_''" "tree_data t \<noteq> ''arg_first_bare''" "tree_data t \<noteq> ''arg_first_equals''"
    using assms by (simp_all add: in_stage_def)
  show ?thesis
    unfolding make_inst_def Let_def if_not_P [OF n(1)] if_not_P [OF n(2)] if_not_P [OF n(3)]
    by (intro makes_if;
        (rule makes_arg | rule makes_copy | rule makes_none | (rule makes_inst_init, rule plain_classes)
         | (rule makes_letr, (rule makes_pair)?, (intro makes_if)?;
            (rule makes_raise | (rule makes_inst_init, (rule plain_classes | erule rsync_init_plain)))))?)
qed


text \<open>The loop's variables as the state of the machine\<close>

definition stage_of :: "'g bworld \<Rightarrow> stage_state \<Rightarrow> bool" where
  "stage_of w st \<longleftrightarrow> (\<exists>p. bw_inst_prev w = Some p \<and> pl_sid (in_place p) = Some (st_sid st)) \<and>
     bw_miss_ct w = st_misses st \<and> bw_total_ct w = st_total st"

lemma stage_of_after:
  assumes "stage_of w st" "after_event md5 (st_sid st) w ev w'"
  obtains st' where "stage_step md5 st ev st'" "stage_of w' st'"
proof (cases ev)
  case (Ignored s)
  show ?thesis by (rule that [of st]) (use Ignored assms in \<open>auto simp: stage_of_def intro: stage_step.ignore\<close>)
next
  case (Done b s inp)
  let ?st = "st\<lparr>st_sid := from_parent md5 (st_sid st) (Bytes_Input inp), st_misses := st_misses st + (if b then 1 else 0),
      st_total := Suc (st_total st)\<rparr>"
  have "stage_step md5 st ev ?st"
    using Done stage_step.hit [of md5 st s inp] stage_step.miss [of md5 st s inp] by (cases b) simp_all
  then show ?thesis by (rule that) (use Done assms in \<open>auto simp: stage_of_def\<close>)
qed

lemma after_event_cong:
  "bw_inst_prev w = bw_inst_prev v \<Longrightarrow> bw_miss_ct w = bw_miss_ct v \<Longrightarrow> bw_total_ct w = bw_total_ct v \<Longrightarrow>
   after_event md5 s w ev w' \<longleftrightarrow> after_event md5 s v ev w'"
  by (cases ev) simp_all

lemma visit_steps:
  assumes ok: "env_ok e" "be_cls e \<noteq> Disabled_Cache" and st: "stage_of w st" and t: "in_stage t"
    and r: "visit e t w = (Inr (), w')"
  obtains evs as st' where "stage_run (ce_md5 (be_cache e)) st evs st'" "stage_of w' st'"
    "bw_log w' = bw_log w @ as" "list_all2 announced_as as evs"
    "git_log_reads (be_cache e) \<and> event_misses evs = 0 \<longrightarrow> stored w' = stored w"
proof -
  from r obtain r0 w0 where i: "make_inst e t w = (Inr r0, w0)"
    and k: "(case r0 of None \<Rightarrow> ret () | Some i \<Rightarrow>
         thenio (bindio (gets bw_total_ct) (\<lambda>n.
                   check (n \<noteq> 0 \<or> first_ok (in_class i)) (Fatal ''first instruction must be ARG or FROM'')))
         (thenio (modify (\<lambda>w. w\<lparr>bw_self := init_inst (bw_inst_prev w) i\<rparr>)) (process e t))) w0 = (Inr (), w')"
    unfolding visit_def bindio_Inr by blast
  have m: "(\<exists>b. w0 = w\<lparr>bw_build_arg := b\<rparr>) \<and>
     (\<forall>i. r0 = Some i \<longrightarrow> plain_class (in_class i) \<and> \<not> in_announced i \<and> \<not> in_own_parent i)"
    using makes_inst [OF t, of e] i unfolding makes_plain_def by blast
  then obtain b where w0: "w0 = w\<lparr>bw_build_arg := b\<rparr>" by blast
  show ?thesis
  proof (cases r0)
    case None
    with k have "w' = w0" by (simp add: ret_Inr)
    with w0 st have "stage_of w' st" "bw_log w' = bw_log w" "stored w' = stored w" by (simp_all add: stage_of_def stored_def)
    then show ?thesis using that [of "[]" st "[]"] by simp
  next
    case (Some i)
    then have i: "plain_class (in_class i)" "\<not> in_announced i" "\<not> in_own_parent i" using m by simp_all
    from st obtain p where p: "bw_inst_prev w = Some p" "pl_sid (in_place p) = Some (st_sid st)"
      by (auto simp: stage_of_def)
    let ?w = "w0\<lparr>bw_self := init_inst (bw_inst_prev w0) i\<rparr>"
    have s: "bw_self ?w = i\<lparr>in_parent := Some (in_place p), in_place := (in_place i)\<lparr>pl_image := pl_image (in_place p),
        pl_alias := pl_alias (in_place p), pl_image_i := pl_image_i (in_place p)\<rparr>\<rparr>"
      using p w0 by (simp add: init_inst_def)
    have "process e t ?w = (Inr (), w')" using k Some by (simp add: io_simps)
    then have "\<exists>ev a. bw_log w' = bw_log ?w @ [a] \<and> announced_as a ev \<and>
        after_event (ce_md5 (be_cache e)) (st_sid st) ?w ev w'
        \<and> (git_log_reads (be_cache e) \<and> event_misses [ev] = 0 \<longrightarrow> stored w' = stored ?w)"
      by (rule process_plain [OF ok, where pa = "in_place p"]) (use i p s in simp_all)
    then obtain ev a where ev: "bw_log w' = bw_log w @ [a]" "announced_as a ev"
      "after_event (ce_md5 (be_cache e)) (st_sid st) w ev w'"
      "git_log_reads (be_cache e) \<and> event_misses [ev] = 0 \<longrightarrow> stored w' = stored w"
      using w0 after_event_cong [of ?w w] by (auto simp: stored_def)
    obtain st' where st': "stage_step (ce_md5 (be_cache e)) st ev st'" "stage_of w' st'"
      by (rule stage_of_after [OF st ev(3)])
    show ?thesis by (rule that [of "[ev]" st' "[a]"]) (use ev st' in auto)
  qed
qed

lemma visits_run:
  assumes "env_ok e" "be_cls e \<noteq> Disabled_Cache" "list_all in_stage ts"
  shows "stage_of w st \<Longrightarrow> seqio (map (visit e) ts) w = (Inr (), w') \<Longrightarrow>
    \<exists>evs as st'. stage_run (ce_md5 (be_cache e)) st evs st' \<and> stage_of w' st' \<and>
      bw_log w' = bw_log w @ as \<and> list_all2 announced_as as evs \<and>
      (git_log_reads (be_cache e) \<and> event_misses evs = 0 \<longrightarrow> stored w' = stored w)"
  using assms(3)
proof (induction ts arbitrary: w st)
  case Nil
  then show ?case by (auto simp: ret_Inr intro!: exI [of _ "[]"])
next
  case (Cons t ts)
  then obtain w1 where w1: "visit e t w = (Inr (), w1)" "seqio (map (visit e) ts) w1 = (Inr (), w')"
    by (auto simp: thenio_Inr)
  obtain evs as st1 where a: "stage_run (ce_md5 (be_cache e)) st evs st1" "stage_of w1 st1"
    "bw_log w1 = bw_log w @ as" "list_all2 announced_as as evs"
    "git_log_reads (be_cache e) \<and> event_misses evs = 0 \<longrightarrow> stored w1 = stored w"
    by (rule visit_steps [OF assms(1,2) Cons.prems(1) _ w1(1)]) (use Cons.prems(3) in simp)
  obtain evs' as' st' where b: "stage_run (ce_md5 (be_cache e)) st1 evs' st'" "stage_of w' st'"
    "bw_log w' = bw_log w1 @ as'" "list_all2 announced_as as' evs'"
    "git_log_reads (be_cache e) \<and> event_misses evs' = 0 \<longrightarrow> stored w' = stored w1"
    using Cons.IH [OF a(2) w1(2)] Cons.prems(3) by auto
  show ?case
    by (intro exI [of _ "evs @ evs'"] exI [of _ "as @ as'"] exI [of _ st'])
      (use a b in \<open>auto simp: stage_run_append event_misses_append intro: list_all2_appendI\<close>)
qed

section \<open>FROM opens a stage\<close>

text \<open>The commit and state ID of an image in the cache\<close>

lemma find_commit_both:
  assumes "find_commit e g w = (Inr (sid, h), w')" "h \<noteq> None"
  shows "\<exists>s. sid = Some s"
  using assms by (auto simp: find_commit_def io_simps log_parse_def res_simps split: if_splits)

lemma commit_hash:
  "commit e cls img sid msg fs w = (Inr h, w') \<Longrightarrow> cls \<noteq> Disabled_Cache \<Longrightarrow> \<exists>x. h = Some x"
  by (auto simp: commit_def commit_as_def Let_def io_simps)

lemma sid_from_parent_some:
  "sid_from_parent e cls p i = Inr sid \<Longrightarrow> cls \<noteq> Disabled_Cache \<Longrightarrow> \<exists>s. sid = Some s"
  by (auto simp: sid_from_parent_def res_simps)

lemma adopt_both:
  assumes "adopt e cls ls img w = (Inr (sid, h), w')" "cls \<noteq> Disabled_Cache"
  shows "(\<exists>s. sid = Some s) \<and> (\<exists>x. h = Some x)"
  using assms by (auto simp: adopt_def Let_def io_simps dest!: commit_hash sid_from_parent_some)

lemma pull_lazy_both:
  assumes "pull_lazy e cls img src l p w = (Inr (sid, h), w')" "cls \<noteq> Disabled_Cache"
  shows "(\<exists>s. sid = Some s) \<and> (\<exists>x. h = Some x)"
  using assms by (auto simp: pull_lazy_def Let_def io_simps dest!: commit_hash sid_from_parent_some)

definition has_base :: "'g bworld \<Rightarrow> bool" where
  "has_base w \<longleftrightarrow> (\<exists>s h. pl_sid (in_place (bw_self w)) = Some s \<and> pl_hash (in_place (bw_self w)) = Hash (Some h))"

lemma has_base_updates [simp]: "has_base (w\<lparr>bw_md := m\<rparr>) \<longleftrightarrow> has_base w" "has_base (w\<lparr>bw_miss_ct := c\<rparr>) \<longleftrightarrow> has_base w"
  by (simp_all add: has_base_def)

lemma base_announce [keeps_intros]: "keeps has_base (announce_maybe e)"
  by (auto simp: announce_maybe_def me_def my_str_def upd_me_def has_base_def intro!: keeps_intros)

lemma base_reads [keeps_intros]: "keeps has_base my_from" "keeps has_base (load_metadata e d)" "keeps has_base me"
  "keeps has_base (unpack_exist_p i)" "keeps has_base (unpack_cache_linked i)"
  by (auto simp: my_from_def load_metadata_def me_def unpack_exist_p_def unpack_cache_linked_def
      intro!: keeps_intros split: option.splits inst_class.splits node.splits)

lemma base_upd_place: "upd_place (\<lambda>p. p\<lparr>pl_sid := Some s, pl_hash := Hash (Some h)\<rparr>) w = (Inr (), w') \<Longrightarrow> has_base w'"
  by (auto simp: upd_place_def upd_me_def modify_Inr has_base_def)

lemma from_pull_base:
  assumes "from_pull e w = (Inr (), w')" "be_cls e \<noteq> Disabled_Cache"
  shows "has_base w'"
proof -
  from assms(1) obtain base sid h there linked w1 w2 w3 w4 w5 where
    f: "find_image (be_cache e) (be_cls e) base w1 = (Inr (sid, h), w2)"
    and u: "upd_place (\<lambda>p. p\<lparr>pl_sid := sid, pl_hash := Hash h\<rparr>) w2 = (Inr (), w3)"
    and a: "thenio (announce_maybe e)
        (if h \<noteq> None then ret ()
         else bindio (if there \<and> \<not> linked
                      then adopt (be_cache e) (be_cls e) (load_save_metadata e) base
                      else pull_lazy (be_cache e) (be_cls e) base base None None) (\<lambda>(sid, h).
                upd_place (\<lambda>p. p\<lparr>pl_sid := sid, pl_hash := Hash h\<rparr>))) w3 = (Inr (), w')"
    unfolding from_pull_def
    by (simp only: bindio_Inr thenio_Inr split_paired_Ex prod.case unpack_exist_p_def unpack_cache_linked_def gets_Inr)
      blast
  show ?thesis
  proof (cases h)
    case None
    then obtain w4 sid' h' w5 where
      "(if there \<and> \<not> linked then adopt (be_cache e) (be_cls e) (load_save_metadata e) base
        else pull_lazy (be_cache e) (be_cls e) base base None None) w4 = (Inr (sid', h'), w5)"
      and u: "upd_place (\<lambda>p. p\<lparr>pl_sid := sid', pl_hash := Hash h'\<rparr>) w5 = (Inr (), w')"
      using a by (auto simp: thenio_Inr bindio_Inr split: prod.splits)
    then have "(\<exists>s. sid' = Some s) \<and> (\<exists>x. h' = Some x)"
      using assms(2) by (auto dest!: adopt_both pull_lazy_both split: if_splits)
    with u base_upd_place show ?thesis by blast
  next
    case (Some x)
    then obtain s where "sid = Some s" using f assms(2) by (auto simp: find_image_def dest!: find_commit_both)
    with u Some have "has_base w3" using base_upd_place by blast
    moreover have "announce_maybe e w3 = (Inr (), w')" using a Some by (simp add: thenio_Inr ret_Inr)
    ultimately show ?thesis using keepsD [OF base_announce] by blast
  qed
qed

lemma load_metadata_reads: "load_metadata e d w = (r, w') \<Longrightarrow> w' = w"
  by (auto simp: load_metadata_def io_run split: option.splits node.splits sum.splits)

lemma my_from_Inr: "my_from w = (Inr s, w') \<longleftrightarrow> in_class (bw_self w) = From s \<and> w' = w"
  by (auto simp: my_from_def me_def io_run split: inst_class.splits)

lemma prepare_from_base:
  assumes "prepare_from e t c w = (Inr c', w')" "be_cls e \<noteq> Disabled_Cache"
  shows "c' = 0 \<and> has_base w' \<and> inst_miss (bw_self w') = Some False"
proof -
  from assms(1) obtain w1 w2 s md w3 and base :: image_id where p: "from_pull e w1 = (Inr (), w2)"
    and s: "in_class (bw_self w2) = From s"
    and l: "load_metadata e (im_dir base) w2 = (Inr md, w3)"
    and w': "w' = w3\<lparr>bw_md := md\<lparr>md_arg := dict_update (md_arg md) (bw_argfrom w3)\<rparr>\<rparr>"
    and c': "c' = (if inst_miss (bw_self w') = Some True then 1 else 0)"
    unfolding prepare_from_def me_def
    by (simp only: bindio_Inr thenio_Inr my_from_Inr liftr_Inr modify_Inr gets_Inr ret_Inr)
      (elim exE conjE; hypsubst; rule that; (assumption | rule refl | simp))
  have "has_base w2" by (rule from_pull_base [OF p assms(2)])
  with load_metadata_reads [OF l] w' have b: "has_base w'" "in_class (bw_self w') = From s" using s by simp_all
  then have "inst_miss (bw_self w') = Some False" by (auto simp: inst_miss_def has_base_def)
  with b c' show ?thesis by simp
qed

definition opened :: "'g bworld \<Rightarrow> bool" where
  "opened w \<longleftrightarrow> has_base w \<and> inst_miss (bw_self w) = Some False \<and> bw_miss_ct w = 0"

lemma opened_announce [keeps_intros]: "keeps opened (announce_maybe e)"
  by (auto simp: announce_maybe_def me_def my_str_def upd_me_def opened_def has_base_def inst_miss_def
      intro!: keeps_intros split: inst_class.splits)

lemma announce_run: "announce_maybe e w = (Inr (), w') \<Longrightarrow> opened w \<Longrightarrow> opened w'"
  using keepsD [OF opened_announce] by blast


section \<open>Properties\<close>


text \<open>
  C7: The state ID at the end of a stage is the chain of what its instructions hash, from
  the one FROM gives; each was announced, with the status of a hit or a miss, and hashes
  the text announced, or it is an ARG that is always there.
\<close>

theorem stage_state_id:
  assumes "env_ok e" "be_cls e \<noteq> Disabled_Cache" "list_all in_stage ts" "stage_of w st"
    and "seqio (map (visit e) ts) w = (Inr (), w')"
  shows "\<exists>evs as p. bw_inst_prev w' = Some p \<and>
    pl_sid (in_place p) = Some (chain_sid (ce_md5 (be_cache e)) (st_sid st) (map Bytes_Input (event_inputs evs))) \<and>
    bw_log w' = bw_log w @ as \<and> list_all2 announced_as as evs \<and>
    bw_miss_ct w' = bw_miss_ct w + int (event_misses evs) \<and>
    bw_total_ct w' = bw_total_ct w + length (event_inputs evs)"
proof -
  obtain evs as st' where r: "stage_run (ce_md5 (be_cache e)) st evs st'" "stage_of w' st'"
    "bw_log w' = bw_log w @ as" "list_all2 announced_as as evs"
    using visits_run [OF assms(1-5)] by blast
  from r(2) obtain p where "bw_inst_prev w' = Some p" "pl_sid (in_place p) = Some (st_sid st')"
    by (auto simp: stage_of_def)
  with r stage_run_result [OF r(1)] assms(4) show ?thesis
    by (intro exI [of _ evs] exI [of _ as] exI [of _ p]) (simp add: stage_of_def)
qed

text \<open>
  C11: A stage whose instructions are all in the cache leaves the repository, the images and
  the large files as they are, if reading Git's log does not change them.
\<close>

theorem hits_change_nothing:
  assumes "env_ok e" "be_cls e \<noteq> Disabled_Cache" "list_all in_stage ts" "stage_of w st"
    and "seqio (map (visit e) ts) w = (Inr (), w')" "git_log_reads (be_cache e)" "bw_miss_ct w' = bw_miss_ct w"
  shows "stored w' = stored w"
proof -
  obtain evs as st' where r: "stage_run (ce_md5 (be_cache e)) st evs st'" "stage_of w' st'"
    "git_log_reads (be_cache e) \<and> event_misses evs = 0 \<longrightarrow> stored w' = stored w"
    using visits_run [OF assms(1-5)] by blast
  have "event_misses evs = 0"
    using stage_run_result [OF r(1)] r(2) assms(4,7) by (simp add: stage_of_def)
  with r(3) assms(6) show ?thesis by simp
qed


section \<open>A concrete build\<close>

definition example_git_run :: "bool \<Rightarrow> string option \<Rightarrow> string list \<Rightarrow> string option \<Rightarrow> nat bworld \<Rightarrow> (int \<times> string) \<times> nat bworld" where
  "example_git_run hit cwd argv inp w =
     (if take 2 argv = [''log'', ''--format=%h%n%B''] then ((0, ''1a2b3c4'' @ [newline] @ sid_str root_id), w)
      else if take 1 argv = [''log''] then ((0, if hit then ''1a2b3c4'' else []), w)
      else ((0, ''1a2b3c4''), w\<lparr>cw_git := Suc (cw_git w)\<rparr>))"

definition example_build_image :: node where
  "example_build_image = Dir (example_meta 0x1ED 1 2 0)
     [(''ch'', Dir (example_meta 0x1ED 2 2 0) [(''git'', Reg (example_meta 0x1A4 3 1 0) []),
        (''git.pickle'', Reg (example_meta 0x1A4 4 1 0) [])])]"

definition example_loads :: "string \<Rightarrow> fm res" where
  "example_loads s = bindr (prepare_image example_fm_env [] example_build_image) (\<lambda>(fm, n, l). Inr fm)"

definition example_build_env :: "bool \<Rightarrow> nat build_env" where
  "example_build_env hit = \<lparr>
     be_cache = \<lparr>ce_git = example_git_run hit, ce_md5 = \<lambda>b. b, ce_fm = example_fm_env, ce_dumps = \<lambda>_. [],
       ce_loads = example_loads, ce_inode = \<lambda>w. 0, ce_unpack_path = \<lambda>d. d, ce_download = \<lambda>a b. ret [],
       ce_unpack = \<lambda>a b. ret (), ce_pull_done = ret ()\<rparr>,
     be_cls = Enabled_Cache,
     be_opts = \<lparr>bo_tag = ''t'', bo_context = ''.'', bo_file = ''Dockerfile'', bo_force = Force_None, bo_force_cmd = [], bo_bind = []\<rparr>,
     be_image_ct = 1, be_environ = [], be_arch_host = ''amd64'', be_now = ''now'', be_parser = \<lambda>s. Some (ref_tree \<lparr>a_host = None, a_port = None, a_path = [], a_name = s, a_suffix = No_Suffix\<rparr>), be_walk = subtrees,
     be_line = \<lambda>_. 1, be_run = \<lambda>argv env w. (1, w), be_ch_bin = ''/bin'', be_force_files = \<lambda>_ _. None,
     be_md_dumps = \<lambda>_. [], be_md_loads = \<lambda>_. Inl Value_Error, be_glob = \<lambda>_ _. [], be_realpath = \<lambda>_ p. p, be_node = \<lambda>_ _. None,
     be_stat_bytes = \<lambda>_ _. Inr [], be_link_alive = \<lambda>_. True, be_cmd = \<lambda>_ w. (0, w), be_tty = False\<rparr>"

definition example_prev :: inst where
  "example_prev = \<lparr>in_class = From \<lparr>fs_text = ''b'', fs_alias = None, fs_base_alias = None, fs_base = None\<rparr>, in_lineno = 1,
     in_announced = True, in_commit_files = [], in_options = [], in_options_str = [],
     in_place = \<lparr>pl_sid = Some root_id, pl_hash = Hash (Some ''1a2b3c4''), pl_image = Some \<lparr>im_dir = ''img'', im_str = ''img''\<rparr>,
       pl_alias = None, pl_image_i = 0\<rparr>, in_parent = None, in_own_parent = False\<rparr>"

definition example_bworld :: "nat bworld" where
  "example_bworld = \<lparr>cw_git = 0,
     cw_images = [(''img'', example_build_image)],
     cw_image_tmp = None, cw_large = [], cw_fm = None, cw_bootstrap_ct = 0,
     bw_argfrom = [], bw_build_arg = [], bw_forcer = None, bw_stages = [], bw_md = metadata_init [] ''amd64'',
     bw_self = example_prev, bw_inst_prev = Some example_prev, bw_miss_ct = 0, bw_total_ct = 1, bw_log = []\<rparr>"

definition example_nodes :: "tree list" where
  "example_nodes = [Tree ''env_equals'' [Token ''WORD'' ''A'', Token ''WORD'' ''b''],
     Tree ''run_shell'' [Token ''LINE_CHUNK'' ''echo $A'']]"

definition example_nodes_miss :: "tree list" where
  "example_nodes_miss = take 1 example_nodes"

lemma example_env_ok: "env_ok (example_build_env hit)"
  by (simp add: env_ok_def cache_env_ok_def example_build_env_def example_git_run_def)

lemma example_git_log_reads: "git_log_reads (be_cache (example_build_env hit))"
  by (simp add: git_log_reads_def example_build_env_def example_git_run_def)

lemma example_cls: "be_cls (example_build_env hit) \<noteq> Disabled_Cache"
  by (simp add: example_build_env_def)

lemma example_fields: "ce_md5 (be_cache (example_build_env hit)) = (\<lambda>b. b)" "bw_log example_bworld = []"
  "bw_miss_ct example_bworld = 0"
  by (simp_all add: example_build_env_def example_bworld_def)

lemma example_stage: "stage_of example_bworld \<lparr>st_sid = root_id, st_misses = 0, st_total = 1\<rparr>"
  by (simp add: stage_of_def example_bworld_def example_prev_def)

lemma example_in_stage: "list_all in_stage example_nodes" "list_all in_stage example_nodes_miss"
  by (simp_all add: example_nodes_miss_def example_nodes_def in_stage_def)

definition run_gives :: "('g, unit) bio \<Rightarrow> 'g bworld \<Rightarrow> ('g bworld \<Rightarrow> bool) \<Rightarrow> bool" where
  "run_gives m w Q \<longleftrightarrow> (case m w of (Inr u, w') \<Rightarrow> Q w' | (Inl x, w') \<Rightarrow> False)"

lemma run_givesE:
  assumes "run_gives m w Q"
  obtains w' where "m w = (Inr (), w')" "Q w'"
  using assms by (auto simp: run_gives_def split: prod.splits sum.splits)

lemma example_miss_run: "run_gives (seqio (map (visit (example_build_env False)) example_nodes_miss)) example_bworld
     (\<lambda>w. map an_status (bw_log w) = ''.'' \<and> bw_miss_ct w = 1 \<and> cw_git w = 4)"
  by code_simp

lemma example_hit_run: "run_gives (seqio (map (visit (example_build_env True)) example_nodes)) example_bworld
     (\<lambda>w. map an_status (bw_log w) = ''**'' \<and> bw_miss_ct w = 0)"
  by code_simp


lemma stage_state_id_witness:
  "\<exists>evs p. bw_inst_prev (snd (seqio (map (visit (example_build_env False)) example_nodes_miss) example_bworld)) = Some p \<and>
     pl_sid (in_place p) = Some (chain_sid (\<lambda>b. b) root_id (map Bytes_Input (event_inputs evs))) \<and> event_misses evs = 1"
proof (rule run_givesE [OF example_miss_run], elim conjE)
  fix w' assume r: "seqio (map (visit (example_build_env False)) example_nodes_miss) example_bworld = (Inr (), w')"
    and m: "bw_miss_ct w' = 1"
  obtain evs as p where "bw_inst_prev w' = Some p"
    "pl_sid (in_place p) = Some (chain_sid (ce_md5 (be_cache (example_build_env False))) root_id (map Bytes_Input (event_inputs evs)))"
    "bw_miss_ct w' = bw_miss_ct example_bworld + int (event_misses evs)"
    using stage_state_id [OF example_env_ok example_cls example_in_stage(2) example_stage r] by auto
  then show ?thesis using m by (auto simp: r example_fields intro!: exI [of _ evs])
qed

lemma hits_change_nothing_witness:
  "stored (snd (seqio (map (visit (example_build_env True)) example_nodes) example_bworld)) = stored example_bworld"
proof (rule run_givesE [OF example_hit_run], elim conjE)
  fix w' assume r: "seqio (map (visit (example_build_env True)) example_nodes) example_bworld = (Inr (), w')"
    and m: "bw_miss_ct w' = 0"
  then have "bw_miss_ct w' = bw_miss_ct example_bworld" by (simp add: example_fields)
  from hits_change_nothing [OF example_env_ok example_cls example_in_stage(1) example_stage r example_git_log_reads this]
  show ?thesis by (simp add: r)
qed

text \<open>RUN with a command that fails: in the example every program exits with 1.\<close>

definition example_run_node :: tree where
  "example_run_node = Tree ''run_shell'' [Token ''LINE_CHUNK'' ''false'']"

definition example_run_start :: "nat bworld" where
  "example_run_start = example_bworld\<lparr>bw_self := (bw_self example_bworld)\<lparr>in_class := Run_Shell ''false'' None,
     in_announced := False, in_parent := Some (in_place example_prev)\<rparr>\<rparr>"

definition example_image_id :: image_id where "example_image_id = \<lparr>im_dir = ''img'', im_str = ''img''\<rparr>"

definition example_run_stages :: "exn \<Rightarrow> bool" where
  "example_run_stages x = (let e = example_build_env False in
     case prepare_announced e example_run_node example_run_start of (r0, w0) \<Rightarrow>
     case whenio (bw_miss_ct w0 = 1) (checkout_for_build e) w0 of (r1, w1) \<Rightarrow>
     case execute e w1 of (r2, w2) \<Rightarrow>
     case Cache.rollback (be_cache e) (be_cls e) example_image_id w2 of (r3, w3) \<Rightarrow>
       (case r0 of Inr u \<Rightarrow> True | _ \<Rightarrow> False) \<and> inst_miss (bw_self w0) = Some True \<and>
       (case r1 of Inr u \<Rightarrow> True | _ \<Rightarrow> False) \<and> (case r2 of Inl y \<Rightarrow> y = x | _ \<Rightarrow> False) \<and>
       pl_image (in_place (bw_self w2)) = Some example_image_id \<and> (case r3 of Inr u \<Rightarrow> True | _ \<Rightarrow> False))"

lemma example_run_fails: "example_run_stages (Fatal ''build failed: RUN command exited with %d'')"
  by code_simp


definition example_from_node :: tree where
  "example_from_node = Tree ''from_'' [Tree ''image_ref'' [Token ''IMAGE_REF'' ''b'']]"

definition example_from_start :: "nat bworld" where
  "example_from_start = example_bworld\<lparr>bw_self := (bw_self example_bworld)\<lparr>in_announced := False,
     in_place := empty_place\<rparr>, bw_inst_prev := None, bw_total_ct := 0\<rparr>"

lemma example_from_run: "run_gives (process (example_build_env True) example_from_node) example_from_start
     (\<lambda>w. map an_text (bw_log w) = [''FROM b''])"
  by code_simp

lemma example_from_prepared:
  "case prepare (example_build_env True) example_from_node (bw_miss_ct example_from_start) example_from_start of
     (Inr c, w) \<Rightarrow> True | (Inl x, w) \<Rightarrow> False"
  by code_simp


end
