(* ===== verification/Rebuild.thy ===== *)
theory Rebuild
  imports Build_Facts Cache_Facts
begin

text \<open>
  What the cache is for: building the same again takes no work. A build only adds to what the
  repository knows; an instruction is a miss exactly if its state ID is in no commit, and
  afterwards it is in one. So the main loop refines a machine over the set of known state IDs
  (\<open>cached_run\<close>), and what a first build did is in the cache in a second (\<open>rebuild_hits\<close>).
\<close>

section \<open>A machine over the known state IDs\<close>

inductive cached_run :: "(bytes \<Rightarrow> bytes) \<Rightarrow> state_id set \<Rightarrow> state_id \<Rightarrow> event list \<Rightarrow> state_id set \<Rightarrow> state_id \<Rightarrow> bool" for md5 where
  start: "cached_run md5 K s [] K s"
| ignored: "K \<subseteq> K1 \<Longrightarrow> cached_run md5 K1 s evs K' s' \<Longrightarrow> cached_run md5 K s (Ignored tx # evs) K' s'"
| looked_up: "s1 = from_parent md5 s (Bytes_Input inp) \<Longrightarrow> (b \<longleftrightarrow> s1 \<notin> K) \<Longrightarrow> insert s1 K \<subseteq> K1 \<Longrightarrow>
     cached_run md5 K1 s1 evs K' s' \<Longrightarrow> cached_run md5 K s (Done b tx inp # evs) K' s'"

text \<open>The state IDs of a sequence of inputs\<close>

fun chain_ids :: "(bytes \<Rightarrow> bytes) \<Rightarrow> state_id \<Rightarrow> bytes list \<Rightarrow> state_id list" where
  "chain_ids md5 s [] = []"
| "chain_ids md5 s (inp # inps) =
     (let s1 = from_parent md5 s (Bytes_Input inp) in s1 # chain_ids md5 s1 inps)"

lemma cached_known: "cached_run md5 K s evs K' s' \<Longrightarrow> K \<subseteq> K' \<and> set (chain_ids md5 s (event_inputs evs)) \<subseteq> K'"
  by (induction rule: cached_run.induct) (auto simp: Let_def)

lemma cached_hits:
  "cached_run md5 K s evs K' s' \<Longrightarrow> set (chain_ids md5 s (event_inputs evs)) \<subseteq> K \<Longrightarrow> event_misses evs = 0"
  by (induction rule: cached_run.induct) (auto simp: Let_def)

lemma cached_append:
  "cached_run md5 K s evs K1 s1 \<Longrightarrow> cached_run md5 K1 s1 evs' K' s' \<Longrightarrow> cached_run md5 K s (evs @ evs') K' s'"
  by (induction rule: cached_run.induct) (auto intro: cached_run.intros)

section \<open>What holds of the repository\<close>

definition repo :: "('g \<Rightarrow> bool) \<Rightarrow> 'g bworld \<Rightarrow> bool" where
  "repo P w \<longleftrightarrow> P (cw_git w)"

definition git_keeps :: "'g build_env \<Rightarrow> ('g \<Rightarrow> bool) \<Rightarrow> bool" where
  "git_keeps e P \<longleftrightarrow>
     (\<forall>cwd argv inp w. P (cw_git w) \<longrightarrow> P (cw_git (snd (ce_git (be_cache e) cwd argv inp w)))) \<and>
     (\<forall>cl env w. P (cw_git w) \<longrightarrow> P (cw_git (snd (be_run e cl env w)))) \<and>
     (\<forall>cl w. P (cw_git w) \<longrightarrow> P (cw_git (snd (be_cmd e cl w))))"

interpretation repo: build_frame git_keeps repo
  by unfold_locales (simp_all add: repo_def git_keeps_def)

lemma repo_proceed: "git_keeps e P \<Longrightarrow> keeps (repo P) (proceed e)"
  by (auto simp: proceed_def repo_def intro!: keeps_intros)

text \<open>No program that a build runs loses commits; \<open>all\<close> gives those of the repository.\<close>

definition commits_kept :: "'g build_env \<Rightarrow> ('g \<Rightarrow> (string \<times> string) list) \<Rightarrow> bool" where
  "commits_kept e all \<longleftrightarrow> (\<forall>c. git_keeps e (\<lambda>g. c \<in> set (all g)))"

lemma known_mono: "set (all g) \<subseteq> set (all g') \<Longrightarrow> known all g \<subseteq> known all g'"
  by (auto simp: known_def)

lemma proceed_mono:
  assumes "commits_kept e all" "proceed e w = (r, w')"
  shows "known all (cw_git w) \<subseteq> known all (cw_git w')"
proof (rule known_mono, rule subsetI)
  fix c assume "c \<in> set (all (cw_git w))"
  then have "repo (\<lambda>g. c \<in> set (all g)) w" by (simp add: repo_def)
  moreover have "git_keeps e (\<lambda>g. c \<in> set (all g))" using assms(1) unfolding commits_kept_def by (rule spec)
  ultimately show "c \<in> set (all (cw_git w'))" using keepsD [OF repo_proceed _ assms(2)] unfolding repo_def by blast
qed

section \<open>Looking up and committing\<close>

lemma base_prepare_known:
  assumes "git_log_spec (be_cache e) branch all" "be_cls e = Enabled_Cache" "base_prepare e c w = (Inr c', w')"
    and "pl_sid (in_place (bw_self w')) = Some sid" "pl_hash (in_place (bw_self w')) = Hash h"
  shows "h = None \<longleftrightarrow> sid \<notin> known all (cw_git w')"
proof -
  from assms(3) obtain p inp w1 sid' h' w2 and img :: image_id where
    f: "find_sid (be_cache e) (be_cls e) sid' (im_dir img)
        (w1\<lparr>bw_self := (bw_self w1)\<lparr>in_place := (in_place (bw_self w1))\<lparr>pl_sid := sid'\<rparr>\<rparr>\<rparr>) = (Inr h', w2)"
    and w': "w' = w2\<lparr>bw_self := (bw_self w2)\<lparr>in_place := (in_place (bw_self w2))\<lparr>pl_hash := Hash h'\<rparr>\<rparr>\<rparr>"
    unfolding base_prepare_def me_def upd_place_def upd_me_def
    by (clarsimp simp: io_simps of_opt_def my_image_def me_def split: option.splits)
  from f assms(2) obtain s where s: "sid' = Some s"
    by (cases sid') (simp_all add: find_sid_def io_run of_opt_def)
  have k: "w2 = w1\<lparr>bw_self := (bw_self w1)\<lparr>in_place := (in_place (bw_self w1))\<lparr>pl_sid := sid'\<rparr>\<rparr>\<rparr>"
    "h' = None \<longleftrightarrow> s \<notin> known all (cw_git w1)"
    using find_sid_known [OF assms(1) f [unfolded assms(2) s]] s by auto
  then have "s = sid" "h' = h" "cw_git w' = cw_git w1" using w' s assms(4,5) by simp_all
  with k(2) show ?thesis by simp
qed

lemma prepare_known:
  assumes spec: "git_log_spec (be_cache e) branch all" "be_cls e = Enabled_Cache" and r: "prepare e t c w = (Inr c', w')"
    and plain: "plain_class (in_class (bw_self w))" "\<not> ignored_class (in_class (bw_self w))" "\<not> in_own_parent (bw_self w)"
    and pa: "in_parent (bw_self w) = Some pa"
    and at: "pl_sid (in_place (bw_self w')) = Some sid" "pl_hash (in_place (bw_self w')) = Hash h"
  shows "h = None \<longleftrightarrow> sid \<notin> known all (cw_git w')"
proof -
  obtain rest where w: "at_place ((in_place (bw_self w), Some pa, False, in_announced (bw_self w), True, in_lineno (bw_self w)), rest) w"
    using plain pa by (simp add: at_place_def place_of_def Let_def)
  from prepare_ends_in_base [OF r w] obtain w1 where "base_prepare e c w1 = (Inr c', w')" by blast
  from base_prepare_known [OF spec this at] show ?thesis .
qed

lemma proceed_known:
  assumes "env_ok e" "be_cls e \<noteq> Disabled_Cache" "git_commit_spec (be_cache e) all" "proceed e w = (Inr (), w')"
    and "inst_miss (bw_self w) = Some True" "plain_class (in_class (bw_self w))" "pl_sid (in_place (bw_self w)) = Some sid"
  shows "sid \<in> known all (cw_git w')"
proof -
  from assms(4,5) obtain w5 where w5: "build_inst e w = (Inr (), w5)" "cw_git w' = cw_git w5"
    by (auto simp: proceed_def me_def io_simps)
  then obtain w4 where
    r: "seqio [bindio (gets bw_miss_ct) (\<lambda>c. whenio (c = 1) (checkout_for_build e)), on_fatal (execute e) (inst_rollback e),
            bindio me (\<lambda>i. whenio (pl_image_i (in_place i) \<ge> 0) (metadata_update e))] w = (Inr (), w4)"
    and c: "inst_commit e w4 = (Inr (), w5)"
    by (auto simp: build_inst_def thenio_Inr ret_Inr)
  have "keeps (at_work (work_of w)) (seqio [bindio (gets bw_miss_ct) (\<lambda>c. whenio (c = 1) (checkout_for_build e)),
      on_fatal (execute e) (inst_rollback e), bindio me (\<lambda>i. whenio (pl_image_i (in_place i) \<ge> 0) (metadata_update e))])"
    using assms(1) by (auto intro!: keeps_intros)
  from keepsD [OF this _ r] have "work_of w4 = work_of w" by (simp add: at_work_def)
  then have s: "(bw_self w4)\<lparr>in_place := (in_place (bw_self w4))\<lparr>pl_hash := Hash_Unknown\<rparr>\<rparr>
      = (bw_self w)\<lparr>in_place := (in_place (bw_self w))\<lparr>pl_hash := Hash_Unknown\<rparr>\<rparr>" by (simp add: work_of_def)
  from arg_cong [OF s, of in_class] arg_cong [OF s, of "\<lambda>i. pl_sid (in_place i)"]
  have w4: "in_class (bw_self w4) = in_class (bw_self w)" "pl_sid (in_place (bw_self w4)) = Some sid" using assms(7) by simp_all
  from c w4 assms(6) obtain img s h w6 where
    "commit (be_cache e) (be_cls e) img (Some sid) s (in_commit_files (bw_self w4)) w4 = (Inr h, w6)" "cw_git w5 = cw_git w6"
    by (auto simp: inst_commit_def me_def my_image_def upd_place_def upd_me_def io_simps plain_class_def my_str_run
        split: inst_class.splits)
  from commit_known [OF assms(3,2) this(1)] this(2) w5(2) show ?thesis by simp
qed

section \<open>The main loop over known state IDs\<close>

text \<open>The inputs of the state IDs of a stage's instructions, as the build finds them\<close>

definition visit_input :: "'g build_env \<Rightarrow> tree \<Rightarrow> 'g bworld \<Rightarrow> bytes list" where
  "visit_input e t w =
     (case make_inst e t w of
        (Inr (Some i), w0) \<Rightarrow>
          (let w1 = w0\<lparr>bw_self := init_inst (bw_inst_prev w0) i\<rparr> in
           case prepare e t (bw_miss_ct w1) w1 of
             (Inr c, w2) \<Rightarrow>
               (case inst_str (bo_force (be_opts e)) (bw_md w2) (bw_self w2) of
                  Inr tx \<Rightarrow> [sid_input_of (bw_self w2) tx] | Inl x \<Rightarrow> [])
           | (Inl x, w2) \<Rightarrow> [])
      | _ \<Rightarrow> [])"

fun stage_inputs :: "'g build_env \<Rightarrow> tree list \<Rightarrow> 'g bworld \<Rightarrow> bytes list" where
  "stage_inputs e [] w = []"
| "stage_inputs e (t # ts) w = visit_input e t w @ stage_inputs e ts (snd (visit e t w))"

definition cache_spec :: "'g build_env \<Rightarrow> ('g \<Rightarrow> string \<Rightarrow> (string \<times> string) list option) \<Rightarrow> ('g \<Rightarrow> (string \<times> string) list) \<Rightarrow> bool" where
  "cache_spec e branch all \<longleftrightarrow> git_log_spec (be_cache e) branch all \<and> git_commit_spec (be_cache e) all
     \<and> git_log_reads (be_cache e) \<and> commits_kept e all"

lemma process_cached:
  assumes ok: "env_ok e" "be_cls e = Enabled_Cache" and spec: "cache_spec e branch all" and r: "process e t w = (Inr (), w')"
    and plain: "plain_class (in_class (bw_self w))" "\<not> in_own_parent (bw_self w)" "\<not> in_announced (bw_self w)"
    and pa: "in_parent (bw_self w) = Some pa" "pl_sid pa = Some s"
  shows "\<exists>evs s'. cached_run (ce_md5 (be_cache e)) (known all (cw_git w)) s evs (known all (cw_git w')) s'
      \<and> event_inputs evs = (case prepare e t (bw_miss_ct w) w of
             (Inr c, w2) \<Rightarrow> (case inst_str (bo_force (be_opts e)) (bw_md w2) (bw_self w2) of
                  Inr tx \<Rightarrow> [sid_input_of (bw_self w2) tx] | Inl x \<Rightarrow> []) | (Inl x, w2) \<Rightarrow> [])
      \<and> bw_miss_ct w' = bw_miss_ct w + int (event_misses evs)
      \<and> (if event_inputs evs = [] then bw_inst_prev w' = bw_inst_prev w
         else \<exists>i. bw_inst_prev w' = Some i \<and> pl_sid (in_place i) = Some s') \<and> (event_inputs evs = [] \<longrightarrow> s' = s)"
proof -
  have cls: "be_cls e \<noteq> Disabled_Cache" using ok(2) by simp
  note sp = spec [unfolded cache_spec_def]
  obtain q w0 where q: "prepare e t (bw_miss_ct w) w = (q, w0)" by fastforce
  have st: "stored w0 = stored w" by (rule store_prepare [OF _ plain(1) q]) (use sp in blast)
  then have g: "cw_git w0 = cw_git w" by (simp add: stored_def)
  show ?thesis
  proof (cases q)
    case (Inr c')
    with q have p: "prepare e t (bw_miss_ct w) w = (Inr c', w0)" by simp
    have ni: "\<not> ignored_class (in_class (bw_self w))" using prepare_ignored [of w e t "bw_miss_ct w"] p by auto
    obtain tx a b h w1 where tx: "inst_str (bo_force (be_opts e)) (bw_md w0) (bw_self w0) = Inr tx"
      and af: "after_event (ce_md5 (be_cache e)) s w (Done b tx (sid_input_of (bw_self w0) tx)) w'"
      and hit: "\<not> b \<Longrightarrow> stored w' = stored w"
      and sid: "pl_sid (in_place (bw_self w0)) = Some (from_parent (ce_md5 (be_cache e)) s (Bytes_Input (sid_input_of (bw_self w0) tx)))"
      and h: "pl_hash (in_place (bw_self w0)) = Hash h" "b = (h = None)"
      and w1: "proceed e w1 = (Inr (), w')" "stored w1 = stored w0" "bw_self w1 = (bw_self w0)\<lparr>in_announced := True\<rparr>"
        "inst_miss (bw_self w1) = Some b" and pc: "plain_class (in_class (bw_self w0))"
      by (rule process_done [OF ok(1) cls r plain pa p]) (use sp in blast)
    let ?s1 = "from_parent (ce_md5 (be_cache e)) s (Bytes_Input (sid_input_of (bw_self w0) tx))"
    have "b \<longleftrightarrow> ?s1 \<notin> known all (cw_git w)"
      using prepare_known [OF _ ok(2) p plain(1) ni plain(2) pa(1) sid h(1), of branch all] sp h(2) g by simp
    moreover have "known all (cw_git w) \<subseteq> known all (cw_git w')"
      using proceed_mono [OF _ w1(1), of all] sp w1(2) g by (simp add: stored_def)
    moreover have "?s1 \<in> known all (cw_git w')"
    proof (cases b)
      case True
      have "inst_miss (bw_self w1) = Some True" "plain_class (in_class (bw_self w1))" "pl_sid (in_place (bw_self w1)) = Some ?s1"
        using w1(3,4) True pc sid by simp_all
      from proceed_known [OF ok(1) cls _ w1(1) this] sp show ?thesis by blast
    next
      case False
      with hit calculation(1) show ?thesis by (simp add: stored_def)
    qed
    ultimately have "cached_run (ce_md5 (be_cache e)) (known all (cw_git w)) s [Done b tx (sid_input_of (bw_self w0) tx)]
        (known all (cw_git w')) ?s1"
      by (auto intro: cached_run.intros)
    with af p tx show ?thesis
      by (intro exI [of _ "[Done b tx (sid_input_of (bw_self w0) tx)]"] exI [of _ ?s1]) (cases b; simp)
  next
    case (Inl x)
    with q have f: "prepare e t (bw_miss_ct w) w = (Inl x, w0)" by simp
    then have "prepare_announced e t w = (Inl x, w0)" by (simp add: prepare_announced_def io_run)
    with r have x: "x = Instruction_Ignored" "announce_maybe e w0 = (Inr (), w')"
      by (auto simp: process_def io_simps split: if_splits)
    have rest: "rest_of w0 = rest_of w" by (rule rest_prepare [OF ok(1) plain(1) f])
    obtain tx where "w' = w0\<lparr>bw_log := bw_log w0 @ [\<lparr>an_lineno = in_lineno (bw_self w0),
         an_status = inst_status (bw_self w0), an_text = tx\<rparr>], bw_self := (bw_self w0)\<lparr>in_announced := True\<rparr>\<rparr>"
      using announce_spec [OF x(2)] rest plain(3) by (auto simp: rest_of_def)
    with rest f g show ?thesis
      by (intro exI [of _ "[Ignored tx]"] exI [of _ s]) (auto simp: rest_of_def intro: cached_run.intros)
  qed
qed

lemma visit_cached:
  assumes ok: "env_ok e" "be_cls e = Enabled_Cache" and spec: "cache_spec e branch all"
    and st: "stage_of w st" and t: "in_stage t" and r: "visit e t w = (Inr (), w')"
  obtains evs st' where "cached_run (ce_md5 (be_cache e)) (known all (cw_git w)) (st_sid st) evs (known all (cw_git w')) (st_sid st')"
    "event_inputs evs = visit_input e t w" "bw_miss_ct w' = bw_miss_ct w + int (event_misses evs)" "stage_of w' st'"
proof -
  have cls: "be_cls e \<noteq> Disabled_Cache" using ok(2) by simp
  obtain evs0 as st' where "stage_of w' st'" by (rule visit_steps [OF ok(1) cls st t r])
  then obtain p' where p': "bw_inst_prev w' = Some p'" "pl_sid (in_place p') = Some (st_sid st')"
    by (auto simp: stage_of_def)
  from r obtain r0 w0 where i: "make_inst e t w = (Inr r0, w0)"
    and k: "(case r0 of None \<Rightarrow> ret () | Some i \<Rightarrow>
         thenio (bindio (gets bw_total_ct) (\<lambda>n.
                   check (n \<noteq> 0 \<or> first_ok (in_class i)) (Fatal ''first instruction must be ARG or FROM'')))
         (thenio (modify (\<lambda>w. w\<lparr>bw_self := init_inst (bw_inst_prev w) i\<rparr>)) (process e t))) w0 = (Inr (), w')"
    unfolding visit_def bindio_Inr by blast
  have m: "(\<exists>b. w0 = w\<lparr>bw_build_arg := b\<rparr>) \<and>
     (\<forall>i. r0 = Some i \<longrightarrow> plain_class (in_class i) \<and> \<not> in_announced i \<and> \<not> in_own_parent i)"
    using makes_inst [OF t, of e] i unfolding makes_plain_def by blast
  then obtain b where w0: "w0 = w\<lparr>bw_build_arg := b\<rparr>" by blast
  from st obtain p where p: "bw_inst_prev w = Some p" "pl_sid (in_place p) = Some (st_sid st)"
    by (auto simp: stage_of_def)
  show ?thesis
  proof (cases r0)
    case None
    with k have "w' = w0" by (simp add: ret_Inr)
    with p p' w0 have "st_sid st' = st_sid st" by simp
    then show ?thesis using that [of "[]" st'] \<open>stage_of w' st'\<close> \<open>w' = w0\<close> w0 i None
      by (simp add: cached_run.start visit_input_def)
  next
    case (Some i')
    then have i': "plain_class (in_class i')" "\<not> in_announced i'" "\<not> in_own_parent i'" using m by simp_all
    let ?w = "w0\<lparr>bw_self := init_inst (bw_inst_prev w0) i'\<rparr>"
    have s: "bw_self ?w = i'\<lparr>in_parent := Some (in_place p), in_place := (in_place i')\<lparr>pl_image := pl_image (in_place p),
        pl_alias := pl_alias (in_place p), pl_image_i := pl_image_i (in_place p)\<rparr>\<rparr>"
      using p w0 by (simp add: init_inst_def)
    have P: "process e t ?w = (Inr (), w')" using k Some by (simp add: io_simps)
    have "visit_input e t w = (case prepare e t (bw_miss_ct ?w) ?w of
        (Inr c, w2) \<Rightarrow> (case inst_str (bo_force (be_opts e)) (bw_md w2) (bw_self w2) of
             Inr tx \<Rightarrow> [sid_input_of (bw_self w2) tx] | Inl x \<Rightarrow> []) | (Inl x, w2) \<Rightarrow> [])"
      using i Some by (simp add: visit_input_def Let_def)
    moreover have "\<exists>evs s'. cached_run (ce_md5 (be_cache e)) (known all (cw_git ?w)) (st_sid st) evs (known all (cw_git w')) s'
      \<and> event_inputs evs = (case prepare e t (bw_miss_ct ?w) ?w of
             (Inr c, w2) \<Rightarrow> (case inst_str (bo_force (be_opts e)) (bw_md w2) (bw_self w2) of
                  Inr tx \<Rightarrow> [sid_input_of (bw_self w2) tx] | Inl x \<Rightarrow> []) | (Inl x, w2) \<Rightarrow> [])
      \<and> bw_miss_ct w' = bw_miss_ct ?w + int (event_misses evs)
      \<and> (if event_inputs evs = [] then bw_inst_prev w' = bw_inst_prev ?w
         else \<exists>i. bw_inst_prev w' = Some i \<and> pl_sid (in_place i) = Some s') \<and> (event_inputs evs = [] \<longrightarrow> s' = st_sid st)"
      by (rule process_cached [OF ok spec P, where pa = "in_place p"]) (use i' p s in simp_all)
    ultimately obtain evs s' where ev: "cached_run (ce_md5 (be_cache e)) (known all (cw_git w)) (st_sid st) evs (known all (cw_git w')) s'"
      "event_inputs evs = visit_input e t w" "bw_miss_ct w' = bw_miss_ct w + int (event_misses evs)"
      and s': "if event_inputs evs = [] then bw_inst_prev w' = bw_inst_prev w
         else \<exists>i. bw_inst_prev w' = Some i \<and> pl_sid (in_place i) = Some s'" "event_inputs evs = [] \<longrightarrow> s' = st_sid st"
      using w0 by auto
    have "s' = st_sid st'" using s' p p' by (auto split: if_splits)
    with ev \<open>stage_of w' st'\<close> show ?thesis by (intro that [of evs st']) simp_all
  qed
qed

lemma visits_cached:
  assumes "env_ok e" "be_cls e = Enabled_Cache" "cache_spec e branch all" "list_all in_stage ts"
    and "stage_of w st" "seqio (map (visit e) ts) w = (Inr (), w')"
  shows "\<exists>evs st'. cached_run (ce_md5 (be_cache e)) (known all (cw_git w)) (st_sid st) evs (known all (cw_git w')) (st_sid st')
      \<and> event_inputs evs = stage_inputs e ts w \<and> bw_miss_ct w' = bw_miss_ct w + int (event_misses evs) \<and> stage_of w' st'"
  using assms(4-6)
proof (induction ts arbitrary: w st)
  case Nil
  then show ?case by (auto simp: ret_Inr intro!: exI [of _ "[]"] exI [of _ st] cached_run.start)
next
  case (Cons t ts)
  then obtain w1 where w1: "visit e t w = (Inr (), w1)" "seqio (map (visit e) ts) w1 = (Inr (), w')"
    by (auto simp: thenio_Inr)
  obtain evs st1 where a: "cached_run (ce_md5 (be_cache e)) (known all (cw_git w)) (st_sid st) evs (known all (cw_git w1)) (st_sid st1)"
    "event_inputs evs = visit_input e t w" "bw_miss_ct w1 = bw_miss_ct w + int (event_misses evs)" "stage_of w1 st1"
    by (rule visit_cached [OF assms(1-3) Cons.prems(2) _ w1(1)]) (use Cons.prems(1) in simp)
  obtain evs' st' where b: "cached_run (ce_md5 (be_cache e)) (known all (cw_git w1)) (st_sid st1) evs' (known all (cw_git w')) (st_sid st')"
    "event_inputs evs' = stage_inputs e ts w1" "bw_miss_ct w' = bw_miss_ct w1 + int (event_misses evs')" "stage_of w' st'"
    using Cons.IH [OF _ a(4) w1(2)] Cons.prems(1) by auto
  have "event_inputs (evs @ evs') = event_inputs evs @ event_inputs evs'"
    by (induction evs rule: event_inputs.induct) simp_all
  then show ?case using a b cached_append [OF a(1) b(1)] w1(1)
    by (intro exI [of _ "evs @ evs'"] exI [of _ st']) (simp add: event_misses_append)
qed



section \<open>A concrete build, twice\<close>

definition message_git :: "string option \<Rightarrow> string list \<Rightarrow> string option \<Rightarrow> (string \<times> string) list bworld \<Rightarrow>
    (int \<times> string) \<times> (string \<times> string) list bworld" where
  "message_git cwd argv inp w =
     (if take 1 argv = [''commit''] then ((0, []), w\<lparr>cw_git := (''1a2b3c4'', last argv @ [newline]) # cw_git w\<rparr>)
      else if take 1 argv = [''log''] then ((0, grep_output (argv ! 2) (example_commits (cw_git w))), w)
      else ((0, ''1a2b3c4''), w))"

definition message_env :: "(string \<times> string) list build_env" where
  "message_env = \<lparr>
     be_cache = \<lparr>ce_git = message_git, ce_md5 = take 4, ce_fm = example_fm_env, ce_dumps = \<lambda>_. [],
       ce_loads = example_loads, ce_inode = \<lambda>w. 0, ce_unpack_path = \<lambda>d. d, ce_download = \<lambda>a b. ret [],
       ce_unpack = \<lambda>a b. ret (), ce_pull_done = ret ()\<rparr>,
     be_cls = Enabled_Cache,
     be_opts = \<lparr>bo_tag = ''t'', bo_context = ''.'', bo_file = ''Dockerfile'', bo_force = Force_None, bo_force_cmd = [], bo_bind = []\<rparr>,
     be_image_ct = 1, be_environ = [], be_arch_host = ''amd64'', be_now = ''now'', be_parser = \<lambda>s. None, be_walk = subtrees,
     be_line = \<lambda>_. 1, be_run = \<lambda>cl env w. (0, w), be_ch_bin = ''/bin'', be_force_files = \<lambda>_ _. None,
     be_md_dumps = \<lambda>_. [], be_md_loads = \<lambda>_. Inl Value_Error, be_glob = \<lambda>_ _. [], be_realpath = \<lambda>_ p. p, be_node = \<lambda>_ _. None,
     be_stat_bytes = \<lambda>_ _. Inr [], be_link_alive = \<lambda>_. True, be_cmd = \<lambda>_ w. (0, w), be_tty = False\<rparr>"

definition message_world :: "(string \<times> string) list \<Rightarrow> (string \<times> string) list bworld" where
  "message_world g = \<lparr>cw_git = g,
     cw_images = [(''img'', example_build_image)],
     cw_image_tmp = None, cw_large = [], cw_fm = None, cw_bootstrap_ct = 0,
     bw_argfrom = [], bw_build_arg = [], bw_forcer = None, bw_stages = [], bw_md = metadata_init [] ''amd64'',
     bw_self = example_prev, bw_inst_prev = Some (example_prev\<lparr>in_place := (in_place example_prev)\<lparr>pl_sid := Some ''b''\<rparr>\<rparr>), bw_miss_ct = 0, bw_total_ct = 1, bw_log = []\<rparr>"

lemma message_spec: "cache_spec message_env (\<lambda>g b. Some (example_commits g)) example_commits"
proof -
  have "sublist t (x @ newline # newline # t @ [newline])" for t x
    using sublist_appendI [of t "x @ [newline, newline]" "[newline]"] by simp
  then show ?thesis
    by (auto simp: cache_spec_def git_log_spec_def git_commit_spec_def git_log_reads_def commits_kept_def git_keeps_def
        message_env_def message_git_def example_commits_def is_space_def)
qed

lemma message_ok: "env_ok message_env" "be_cls message_env = Enabled_Cache"
  by (simp_all add: env_ok_def cache_env_ok_def message_env_def message_git_def)

lemma message_stage: "stage_of (message_world g) \<lparr>st_sid = ''b'', st_misses = 0, st_total = 1\<rparr>"
  by (simp add: stage_of_def message_world_def example_prev_def)

lemma message_first: "run_gives (seqio (map (visit message_env) example_nodes_miss)) (message_world [])
    (\<lambda>w. bw_miss_ct w = 1 \<and> run_gives (seqio (map (visit message_env) example_nodes_miss)) (message_world (cw_git w)) (\<lambda>v. True)
       \<and> stage_inputs message_env example_nodes_miss (message_world (cw_git w)) = stage_inputs message_env example_nodes_miss (message_world []))"
  by code_simp



end
