(* ===== verification/File_Ops.thy ===== *)
theory File_Ops
  imports Files Utils
begin

text \<open>
  The operations of class \<open>Path\<close> in \<open>lib/filesystem.py\<close> that use the file system, on a tree of
  files with the path given by its parts. The errors of the system calls become fatal errors
  of the program (\<open>ossafe\<close>). A symbolic link on the way, or at the end where the operation
  follows it, is outside of the model. At the end, laws of what is at a path after an
  operation.
\<close>

section \<open>Looking up\<close>

definition ossafe :: "string \<Rightarrow> 'a res \<Rightarrow> 'a res" where
  "ossafe msg r = (case r of Inl (Os_Error s) \<Rightarrow> Inl (Fatal msg) | _ \<Rightarrow> r)"

lemma ossafe_Inr [res_simps]: "ossafe msg r = Inr x \<longleftrightarrow> r = Inr x"
  by (auto simp: ossafe_def split: sum.splits exn.splits)

fun lookup :: "node \<Rightarrow> string list \<Rightarrow> node option res" where
  "lookup n [] = Inr (Some n)"
| "lookup (Dir m es) (c # cs) = (case map_of es c of None \<Rightarrow> Inr None | Some n \<Rightarrow> lookup n cs)"
| "lookup (Lnk m t) (c # cs) = Inl (Unmodelled ''a link on the way'')"
| "lookup n (c # cs) = Inl (Os_Error ''not a directory'')"

definition lstat :: "node \<Rightarrow> string list \<Rightarrow> node res" where
  "lstat n p = bindr (lookup n p) (of_opt (Os_Error ''no such file or directory''))"

text \<open>\<open>exists\<close>, links not followed\<close>

definition path_exists :: "node \<Rightarrow> string list \<Rightarrow> bool res" where
  "path_exists n p = ossafe ''can't stat: %s: %s'' (bindr (lookup n p) (\<lambda>x. Inr (x \<noteq> None)))"

text \<open>\<open>os.path.isdir\<close> and \<open>isfile\<close> follow links and take every error for no.\<close>

definition is_kind :: "kind \<Rightarrow> node \<Rightarrow> string list \<Rightarrow> bool res" where
  "is_kind k n p =
     (case lookup n p of
        Inr None \<Rightarrow> Inr False
      | Inr (Some (Lnk m t)) \<Rightarrow> Inl (Unmodelled ''a link at the end'')
      | Inr (Some x) \<Rightarrow> Inr (node_kind x = k)
      | Inl (Os_Error s) \<Rightarrow> Inr False
      | Inl x \<Rightarrow> Inl x)"

definition is_dir :: "node \<Rightarrow> string list \<Rightarrow> bool res" where "is_dir = is_kind K_Dir"

definition is_file :: "node \<Rightarrow> string list \<Rightarrow> bool res" where "is_file = is_kind K_Reg"

definition is_symlink :: "node \<Rightarrow> string list \<Rightarrow> bool res" where
  "is_symlink n p =
     (case lookup n p of
        Inr (Some (Lnk m t)) \<Rightarrow> Inr True | Inr x \<Rightarrow> Inr False | Inl (Os_Error s) \<Rightarrow> Inr False | Inl x \<Rightarrow> Inl x)"

definition listdir :: "node \<Rightarrow> string list \<Rightarrow> string list res" where
  "listdir n p = ossafe ''can't list: %s'' (bindr (lstat n p) (\<lambda>x.
     case x of Dir m es \<Rightarrow> Inr (map fst es) | Lnk m t \<Rightarrow> Inl (Unmodelled ''a link at the end'')
     | _ \<Rightarrow> Inl (Os_Error ''not a directory'')))"

definition iterdir :: "node \<Rightarrow> string list \<Rightarrow> string list list res" where
  "iterdir n p = bindr (listdir n p) (\<lambda>es. Inr (map (\<lambda>c. p @ [c]) es))"

definition file_size :: "node \<Rightarrow> string list \<Rightarrow> int res" where
  "file_size n p = ossafe ''can't stat: %s'' (bindr (lstat n p) (\<lambda>x. Inr (mt_size (node_meta x))))"

text \<open>\<open>file_hash\<close>: SHA-256 is an argument.\<close>

definition file_hash :: "(string \<Rightarrow> string) \<Rightarrow> node \<Rightarrow> string list \<Rightarrow> string res" where
  "file_hash sha n p = bindr (file_read_all n p) (\<lambda>c. Inr (sha c))"

section \<open>Changing\<close>

definition path_mkdir :: "node \<Rightarrow> string list \<Rightarrow> node res" where
  "path_mkdir n p =
     bindr (is_dir n p) (\<lambda>d.
       if d then Inr n
       else case lookup n p of
         Inr (Some x) \<Rightarrow> Inl (Fatal ''can't mkdir: exists and not a directory: %s'')
       | _ \<Rightarrow> node_alter (Fatal ''can't mkdir: %s: %s'') (\<lambda>_. Some new_dir) n p)"

text \<open>\<open>os.unlink\<close> removes anything but directories.\<close>

definition unlink :: "bool \<Rightarrow> node \<Rightarrow> string list \<Rightarrow> node res" where
  "unlink missing_ok n p =
     bindr (if missing_ok then path_exists n p else Inr True) (\<lambda>there.
       if \<not> there then Inr n
       else bindr (ossafe ''can't unlink: %s'' (bindr (lstat n p) (\<lambda>x.
              guard (node_kind x \<noteq> K_Dir) (Os_Error ''is a directory'')))) (\<lambda>_.
            node_alter (Fatal ''can't unlink: %s'') (\<lambda>_. None) n p))"

definition rmtree :: "node \<Rightarrow> string list \<Rightarrow> node res" where
  "rmtree n p =
     bindr (ossafe ''can't recursively delete directory %s: %s: %s'' (bindr (lstat n p) (\<lambda>x.
       guard (node_kind x = K_Dir) (Os_Error ''not a directory'')))) (\<lambda>_.
     node_alter (Fatal ''can't recursively delete directory %s: %s: %s'') (\<lambda>_. None) n p)"

definition rmdir :: "node \<Rightarrow> string list \<Rightarrow> node res" where
  "rmdir n p =
     bindr (ossafe ''can't rmdir: %s'' (bindr (lstat n p) (\<lambda>x.
       guard (node_kind x = K_Dir \<and> node_entries x = []) (Os_Error ''not an empty directory'')))) (\<lambda>_.
     node_alter (Fatal ''can't rmdir: %s'') (\<lambda>_. None) n p)"

definition new_link :: "string \<Rightarrow> node" where
  "new_link t = Lnk \<lparr>mt_mode = 0x1FF, mt_size = int (length t), mt_atime = 0, mt_mtime = 0, mt_ino = 0,
     mt_nlink = 1, mt_xattrs = []\<rparr> t"

definition symlink_to :: "string \<Rightarrow> bool \<Rightarrow> node \<Rightarrow> string list \<Rightarrow> node res" where
  "symlink_to target clobber n p =
     bindr (if clobber then is_file n p else Inr False) (\<lambda>f.
     bindr (if f then unlink False n p else Inr n) (\<lambda>n.
       case lookup n p of
         Inr (Some (Lnk m t)) \<Rightarrow>
           bindr (guard (t = target) (Fatal ''can't symlink: %s exists; want target %s but existing is %s'')) (\<lambda>_. Inr n)
       | Inr (Some x) \<Rightarrow> Inl (Fatal ''can't symlink: source exists and isn't a symlink: %s'')
       | _ \<Rightarrow> node_alter (Fatal ''can't symlink: %s -> %s: %s'') (\<lambda>_. Some (new_link target)) n p))"

text \<open>\<open>os.rename\<close>: a file replaces what is no directory, a directory only an empty one.\<close>

definition may_replace :: "node \<Rightarrow> node option \<Rightarrow> bool" where
  "may_replace x old =
     (case old of None \<Rightarrow> True
      | Some y \<Rightarrow> if node_kind x = K_Dir then node_kind y = K_Dir \<and> node_entries y = [] else node_kind y \<noteq> K_Dir)"

definition rename :: "node \<Rightarrow> string list \<Rightarrow> string list \<Rightarrow> node res" where
  "rename n p q =
     bindr (ossafe ''can't rename: %s -> %s'' (lstat n p)) (\<lambda>x.
     bindr (ossafe ''can't rename: %s -> %s'' (lookup n q)) (\<lambda>old.
       if p = q then Inr n
       else
         bindr (guard (may_replace x old \<and> \<not> prefix p q) (Fatal ''can't rename: %s -> %s'')) (\<lambda>_.
         bindr (node_alter (Fatal ''can't rename: %s -> %s'') (\<lambda>_. Some x) n q)
           (\<lambda>n. node_alter (Fatal ''can't rename: %s -> %s'') (\<lambda>_. None) n p))))"

text \<open>\<open>file_ensure_exists\<close>: \<open>os.path.lexists\<close> takes every error for no.\<close>

definition file_ensure_exists :: "node \<Rightarrow> string list \<Rightarrow> node res" where
  "file_ensure_exists n p =
     (case lookup n p of Inr (Some x) \<Rightarrow> Inr n | Inl (Unmodelled s) \<Rightarrow> Inl (Unmodelled s) | _ \<Rightarrow> file_write [] n p)"

text \<open>
  \<open>copy\<close>, to a place on the same file system (\<open>same_dev\<close>) or another. The fast way unlinks
  what is at the destination, the slow one overwrites a file, but not with a link. Either
  way the copy has the metadata.
\<close>

definition copied :: "node \<Rightarrow> node" where
  "copied x = node_meta_update (\<lambda>m. m\<lparr>mt_ino := 0, mt_nlink := 1\<rparr>) x"

definition overwritten :: "node \<Rightarrow> node option \<Rightarrow> node option" where
  "overwritten x old =
     (case old of
        Some y \<Rightarrow> Some (node_meta_update (\<lambda>m. m\<lparr>mt_ino := mt_ino (node_meta y), mt_nlink := mt_nlink (node_meta y)\<rparr>) x)
      | None \<Rightarrow> Some (copied x))"

definition path_copy :: "bool \<Rightarrow> node \<Rightarrow> string list \<Rightarrow> string list \<Rightarrow> node res" where
  "path_copy same_dev n src dst =
     (let slow = Fatal ''can't copy data (slow): %s -> %s: %s'' in
      bindr (ossafe ''can't stat: %s'' (lstat n src)) (\<lambda>x.
        case x of
          Reg m c \<Rightarrow>
            if same_dev
            then bindr (unlink True n dst) (\<lambda>n.
                   node_alter (Fatal ''can't copy data (fast): %s -> %s: %s'') (\<lambda>_. Some (copied x)) n dst)
            else bindr (ossafe ''can't copy data (slow): %s -> %s: %s'' (lookup n dst)) (\<lambda>old.
                 bindr (case map_option node_kind old of
                          Some K_Lnk \<Rightarrow> Inl (Unmodelled ''a link at the end'')
                        | Some K_Reg \<Rightarrow> Inr () | None \<Rightarrow> Inr () | Some k \<Rightarrow> Inl slow) (\<lambda>_.
                   node_alter slow (\<lambda>old. overwritten x old) n dst))
        | Lnk m t \<Rightarrow>
            bindr (ossafe ''can't copy data (slow): %s -> %s: %s'' (lookup n dst)) (\<lambda>old.
            bindr (guard (old = None) slow) (\<lambda>_. node_alter slow (\<lambda>_. Some (copied x)) n dst))
        | _ \<Rightarrow> Inl slow))"

section \<open>Compression\<close>

definition gzip_set :: "(string \<Rightarrow> string option) \<Rightarrow> string res" where
  "gzip_set which =
     (if which ''pigz'' \<noteq> None then Inr ''pigz''
      else if which ''gzip'' \<noteq> None then Inr ''gzip''
      else Inl (Fatal ''can't find path to gzip or pigz''))"

text \<open>
  \<open>file_gzip\<close>: the program replaces the file by one with suffix \<open>.gz\<close>; the time in the header
  of that is overwritten. The program run on a tree is an argument.
\<close>

definition zero_time :: "string \<Rightarrow> string" where
  "zero_time c = take 4 c @ replicate (4 - length c) (CHR 0x00) @ replicate 4 (CHR 0x00) @ drop 8 c"

definition file_gzip :: "(string list \<Rightarrow> node \<Rightarrow> node res) \<Rightarrow> (string \<Rightarrow> string option) \<Rightarrow> string list \<Rightarrow> string \<Rightarrow>
    node \<Rightarrow> string list \<Rightarrow> node res" where
  "file_gzip run which args self n p =
     bindr (suffix_add (last p) ''.gz'') (\<lambda>name.
      let pc = butlast p @ [name] in
      bindr (gzip_set which) (\<lambda>gz.
      bindr (path_exists n pc) (\<lambda>there.
      bindr (if there then unlink False n pc else Inr n) (\<lambda>n.
      bindr (run ([gz] @ args @ [self]) n) (\<lambda>n.
      bindr (file_read_all n pc) (\<lambda>c. file_write (zero_time c) n pc))))))"

section \<open>Mount points\<close>

text \<open>
  \<open>mountpoint\<close> of a resolved path: up through the parents while the device stays the same.
  The device of a path is an argument; the path is absolute and without trailing slash.
\<close>

function mountpoint_loop :: "(string list \<Rightarrow> int) \<Rightarrow> int \<Rightarrow> string list \<Rightarrow> string list" where
  "mountpoint_loop dev dev_child p =
     (if p = [] then [] else if dev_child \<noteq> dev (butlast p) then p else mountpoint_loop dev dev_child (butlast p))"
  by auto
termination by (relation "measure (\<lambda>(dev, d, p). length p)") auto

definition mountpoint :: "(path \<Rightarrow> string list) \<Rightarrow> (string list \<Rightarrow> int) \<Rightarrow> path \<Rightarrow> string list" where
  "mountpoint resolve dev p = (let pc = resolve p in mountpoint_loop dev (dev pc) pc)"

section \<open>Laws\<close>

text \<open>The entry at a path, and at the others, after a change\<close>

lemma node_alter_same:
  "node_alter x f n p = Inr n' \<Longrightarrow> p \<noteq> [] \<and> node_at n' p = f (node_at n p)"
proof (induction x f n p arbitrary: n' rule: node_alter.induct)
  case (2 x f m es c)
  then show ?case
    by (auto simp: update_conv' delete_conv' split: option.splits)
next
  case (3 x f m es c d ds)
  from 3(2) obtain k k' where k: "map_of es c = Some k" "node_alter x f k (d # ds) = Inr k'"
    "n' = Dir m (AList.update c k' es)" by (auto simp: res_simps split: option.splits)
  with 3(1) [OF k(1,2)] show ?case by (simp add: update_conv' del: node_at.simps(2)) (simp add: update_conv')
qed auto

lemma lookup_Some: "lookup n p = Inr (Some x) \<Longrightarrow> node_at n p = Some x"
  by (induction n p rule: lookup.induct) (auto split: option.splits)

lemma lookup_at: "node_at n p = Some x \<Longrightarrow> lookup n p = Inr (Some x)"
proof (induction n p rule: node_at.induct)
  case (2 n c cs)
  then show ?case by (cases n) (auto split: option.splits)
qed simp

lemma node_at_append: "node_at n (p @ q) = (case node_at n p of None \<Rightarrow> None | Some x \<Rightarrow> node_at x q)"
  by (induction n p rule: node_at.induct) (auto split: option.splits)

lemma lookup_append: "node_at n p = Some x \<Longrightarrow> lookup n (p @ q) = lookup x q"
proof (induction n p rule: node_at.induct)
  case (2 n c cs)
  then show ?case by (cases n) (auto split: option.splits)
qed simp

lemma node_alter_parent:
  assumes "node_alter x f n (r @ [c]) = Inr n'"
  shows "\<exists>m es. node_at n r = Some (Dir m es) \<and>
    node_at n' r = Some (Dir m (case f (map_of es c) of None \<Rightarrow> AList.delete c es | Some y \<Rightarrow> AList.update c y es))"
  using assms
proof (induction r arbitrary: n n')
  case Nil
  then show ?case by (cases n) auto
next
  case (Cons d r)
  obtain m es where n: "n = Dir m es" using Cons.prems by (cases n; cases r) auto
  obtain k k' where k: "map_of es d = Some k" "node_alter x f k (r @ [c]) = Inr k'" "n' = Dir m (AList.update d k' es)"
    using Cons.prems n by (cases r) (auto simp: res_simps split: option.splits)
  from Cons.IH [OF k(2)] k n show ?case by (simp add: update_conv')
qed

lemma node_alter_other:
  "node_alter x f n p = Inr n' \<Longrightarrow> \<not> prefix p q \<Longrightarrow> \<not> prefix q p \<Longrightarrow> node_at n' q = node_at n q"
proof (induction p arbitrary: n n' q)
  case (Cons c p)
  obtain b q' where q: "q = b # q'" using Cons.prems(3) by (cases q) auto
  obtain m es where n: "n = Dir m es" using Cons.prems(1) by (cases n; cases p) auto
  show ?case
  proof (cases p)
    case Nil
    with Cons.prems(1,2) n q show ?thesis by (auto simp: update_conv' delete_conv' split: option.splits)
  next
    case p: (Cons d ds)
    obtain k k' where k: "map_of es c = Some k" "node_alter x f k p = Inr k'" "n' = Dir m (AList.update c k' es)"
      using Cons.prems(1) n p by (auto simp: res_simps split: option.splits)
    show ?thesis
    proof (cases "b = c")
      case True
      then have "node_at k' q' = node_at k q'" using Cons.IH [OF k(2)] Cons.prems(2,3) q by simp
      with True k q n show ?thesis by (simp add: update_conv')
    next
      case False
      with k q n show ?thesis by (simp add: update_conv')
    qed
  qed
qed simp

lemma mountpoint_loop_unfold:
  "p = [] \<Longrightarrow> mountpoint_loop dev d p = []"
  "p \<noteq> [] \<Longrightarrow> d \<noteq> dev (butlast p) \<Longrightarrow> mountpoint_loop dev d p = p"
  "p \<noteq> [] \<Longrightarrow> d = dev (butlast p) \<Longrightarrow> mountpoint_loop dev d p = mountpoint_loop dev d (butlast p)"
  by (subst mountpoint_loop.simps, simp)+

declare mountpoint_loop.simps [simp del]

lemma mountpoint_loop_prefix: "prefix (mountpoint_loop dev d p) p"
proof (induction "length p" arbitrary: p)
  case (Suc k)
  then have "prefix (mountpoint_loop dev d (butlast p)) (butlast p)" by simp
  then have "prefix (mountpoint_loop dev d (butlast p)) p"
    by (rule prefix_order.trans) (rule prefixeq_butlast)
  moreover have "p \<noteq> []" using Suc.hyps(2) by auto
  ultimately show ?case
    by (cases "d = dev (butlast p)") (auto simp: mountpoint_loop_unfold)
qed (simp add: mountpoint_loop_unfold)

lemma mountpoint_loop_top:
  "mountpoint_loop dev d p = [] \<or> dev (butlast (mountpoint_loop dev d p)) \<noteq> d"
proof (induction "length p" arbitrary: p)
  case (Suc k)
  then have "mountpoint_loop dev d (butlast p) = [] \<or> dev (butlast (mountpoint_loop dev d (butlast p))) \<noteq> d" by simp
  moreover have "p \<noteq> []" using Suc.hyps(2) by auto
  ultimately show ?case
    by (cases "d = dev (butlast p)") (auto simp: mountpoint_loop_unfold)
qed (simp add: mountpoint_loop_unfold)

lemma mountpoint_loop_same:
  "dev p = d \<Longrightarrow> prefix (mountpoint_loop dev d p) q \<Longrightarrow> prefix q p \<Longrightarrow> dev q = d"
proof (induction "length p" arbitrary: p)
  case 0
  then show ?case by simp
next
  case (Suc k)
  then have p: "p \<noteq> []" by auto
  then have q: "q = p \<or> prefix q (butlast p)"
    using Suc.prems(3) by (metis append_butlast_last_id prefix_snoc)
  show ?case
  proof (cases "d = dev (butlast p)")
    case True
    have "prefix q (butlast p) \<Longrightarrow> dev q = d"
      using Suc.hyps(1) [of "butlast p"] Suc.hyps(2) Suc.prems(2) True p by (simp add: mountpoint_loop_unfold)
    then show ?thesis using q Suc.prems(1) by blast
  next
    case False
    then have "q = p" using Suc.prems(2,3) p by (simp add: mountpoint_loop_unfold prefix_order.antisym)
    then show ?thesis using Suc.prems(1) by simp
  qed
qed

section \<open>Properties\<close>

text \<open>
  C33: The mount point of a path is the path or one above it; everything between is on the
  same device, and what is above the mount point, if anything is, is not.
\<close>

theorem mountpoint_spec:
  "prefix (mountpoint resolve dev p) (resolve p) \<and>
   (\<forall>q. prefix (mountpoint resolve dev p) q \<longrightarrow> prefix q (resolve p) \<longrightarrow> dev q = dev (resolve p)) \<and>
   (mountpoint resolve dev p = [] \<or> dev (butlast (mountpoint resolve dev p)) \<noteq> dev (resolve p))"
  unfolding mountpoint_def Let_def
  using mountpoint_loop_prefix mountpoint_loop_same [OF refl] mountpoint_loop_top by blast

definition example_dev :: "string list \<Rightarrow> int" where
  "example_dev = (\<lambda>p. if p = [] then 1 else 2)"

lemma mountpoint_spec_witness:
  "mountpoint (\<lambda>_. [''a'', ''b'']) example_dev ''x'' = [''a''] \<and> example_dev [''a''] = example_dev [''a'', ''b'']"
proof -
  have m: "mountpoint (\<lambda>_. [''a'', ''b'']) example_dev ''x'' = [''a'']"
    unfolding example_dev_def by (simp add: mountpoint_def mountpoint_loop_unfold)
  have "example_dev [''a''] = example_dev [''a'', ''b'']"
    using mountpoint_spec [of "\<lambda>_. [''a'', ''b'']" example_dev "''x''"] unfolding m by (blast intro: prefix_order.refl)
  with m show ?thesis by simp
qed

text \<open>
  Renaming moves what is at the path, whatever it is, replaces what may be replaced, and
  leaves everything else as it was.
\<close>

theorem rename_moves:
  assumes "rename n p q = Inr n'" "\<not> prefix p q" "\<not> prefix q p"
  shows "node_at n' q = node_at n p \<and> node_at n p \<noteq> None \<and> node_at n' p = None \<and>
    (\<forall>s. \<not> prefix p s \<longrightarrow> \<not> prefix s p \<longrightarrow> \<not> prefix q s \<longrightarrow> \<not> prefix s q \<longrightarrow> node_at n' s = node_at n s)"
proof -
  let ?x = "Fatal ''can't rename: %s -> %s''"
  have "p \<noteq> q" using assms(2) by auto
  with assms obtain x n1 where x: "lookup n p = Inr (Some x)" and a: "node_alter ?x (\<lambda>_. Some x) n q = Inr n1"
    and b: "node_alter ?x (\<lambda>_. None) n1 p = Inr n'"
    by (auto simp: rename_def res_simps lstat_def)
  have "node_at n' q = node_at n1 q" by (rule node_alter_other [OF b assms(2,3)])
  with node_alter_same [OF a] lookup_Some [OF x] node_alter_same [OF b] show ?thesis
    using node_alter_other [OF a] node_alter_other [OF b] by auto
qed

lemma rename_moves_witness:
  "\<exists>n'. rename (Dir (node_meta new_dir) [(''a'', new_file ''x'')]) [''a''] [''b''] = Inr n' \<and> node_at n' [''b''] = Some (new_file ''x'')"
proof -
  have "is_ok (rename (Dir (node_meta new_dir) [(''a'', new_file ''x'')]) [''a''] [''b''])" by code_simp
  then obtain n' where r: "rename (Dir (node_meta new_dir) [(''a'', new_file ''x'')]) [''a''] [''b''] = Inr n'"
    by (auto elim: is_ok.elims)
  from rename_moves [OF r] r show ?thesis by simp
qed

lemma file_write_at:
  "file_write c n p = Inr n' \<Longrightarrow> \<exists>m. node_at n' p = Some (Reg m c) \<and> mt_size m = int (length c)"
  by (auto simp: file_write_def new_file_def dest!: node_alter_same split: option.splits node.splits)

lemma file_write_alters: "file_write c n p = Inr n' \<Longrightarrow> \<exists>x y. node_alter x (\<lambda>_. Some y) n p = Inr n'"
  by (auto simp: file_write_def split: option.splits node.splits)

lemma file_read_at: "file_read_all n p = Inr c \<longleftrightarrow> (\<exists>m. node_at n p = Some (Reg m c))"
  by (auto simp: file_read_all_def split: option.splits node.splits)

end
