(* ===== verification/Storage.thy ===== *)
theory Storage
  imports File_Ops Io References
begin

text \<open>
  Class \<open>Storage\<close> of \<open>lib/filesystem.py\<close>: where the storage directory is, what its parts are
  called, and its initialization, upgrade, validation, cleaning and reset, as computations on
  the file tree. \<open>r\<close> is the path of the root, in parts.
\<close>

section \<open>Paths\<close>

definition storage_version :: int where "storage_version = 7"

definition root_default :: "(string, string) dict \<Rightarrow> path res" where
  "root_default env = bindr (user env) (\<lambda>u. Inr (Path [''/var/tmp/'' @ u @ ''.ch'']))"

definition root_env :: "(string, string) dict \<Rightarrow> path option res" where
  "root_env env =
     (case map_of env ''CH_IMAGE_STORAGE'' of
        None \<Rightarrow> Inr None
      | Some s \<Rightarrow> let p = Path [s] in
          bindr (is_absolute p) (\<lambda>a.
          bindr (guard a (Fatal ''$CH_IMAGE_STORAGE: not absolute path: %s'')) (\<lambda>_. Inr (Some p))))"

text \<open>\<open>__init__\<close>; \<open>//\<close> with the current directory, a string, works by \<open>__rfloordiv__\<close>.\<close>

definition storage_root :: "path option \<Rightarrow> (string, string) dict \<Rightarrow> string \<Rightarrow> path res" where
  "storage_root storage_cli env cwd =
     bindr (case storage_cli of Some p \<Rightarrow> Inr (Some p) | None \<Rightarrow> root_env env) (\<lambda>r.
     bindr (case r of Some p \<Rightarrow> Inr p | None \<Rightarrow> root_default env) (\<lambda>p.
     bindr (is_absolute p) (\<lambda>a. Inr (if a then p else floordiv cwd p))))"

definition n_build_cache :: string where "n_build_cache = ''bucache''"
definition n_build_large :: string where "n_build_large = ''bularge''"
definition n_download_cache :: string where "n_download_cache = ''dlcache''"
definition n_image_tmp :: string where "n_image_tmp = ''imgtmp''"
definition n_lockfile :: string where "n_lockfile = ''lock''"
definition n_mount_point :: string where "n_mount_point = ''mnt''"
definition n_unpack_base :: string where "n_unpack_base = ''img''"
definition n_upload_cache :: string where "n_upload_cache = ''ulcache''"
definition n_version_file :: string where "n_version_file = ''version''"

definition bucache_needs_ignore_upgrade :: "string list \<Rightarrow> string list" where
  "bucache_needs_ignore_upgrade r = r @ [n_build_cache, ''ch_upgrade-ignore'']"

definition build_large_path :: "string list \<Rightarrow> string \<Rightarrow> string list" where
  "build_large_path r name = r @ [n_build_large, name]"

definition unpack_at :: "string list \<Rightarrow> reference \<Rightarrow> string list res" where
  "unpack_at r ref = bindr (for_path ref) (\<lambda>d. Inr (r @ [n_unpack_base, d]))"

definition fatman_for_download :: "string list \<Rightarrow> reference \<Rightarrow> string list res" where
  "fatman_for_download r ref = bindr (for_path ref) (\<lambda>d. Inr (r @ [n_download_cache, d @ ''.fat.json'']))"

definition manifest_for_download :: "string list \<Rightarrow> reference \<Rightarrow> string option \<Rightarrow> string list res" where
  "manifest_for_download r ref digest =
     bindr (for_path ref) (\<lambda>d.
       Inr (r @ [n_download_cache, d @ ''%'' @ (case digest of None \<Rightarrow> ''skinny'' | Some g \<Rightarrow> g) @ ''.manifest.json'']))"

section \<open>The state of the directory\<close>

type_synonym 'a fio = "(node, 'a) io"

definition look :: "(node \<Rightarrow> 'a res) \<Rightarrow> 'a fio" where "look f = (\<lambda>n. (f n, n))"

definition change :: "(node \<Rightarrow> node res) \<Rightarrow> unit fio" where
  "change f = (\<lambda>n. case f n of Inl x \<Rightarrow> (Inl x, n) | Inr n' \<Rightarrow> (Inr (), n'))"

definition valid_p :: "string list \<Rightarrow> node \<Rightarrow> bool res" where
  "valid_p r n =
     bindr (is_dir n (r @ [n_unpack_base])) (\<lambda>a.
       if a then is_dir n (r @ [n_download_cache]) else Inr False)"

definition version_read :: "string list \<Rightarrow> node \<Rightarrow> int res" where
  "version_read r n =
     bindr (is_file n (r @ [n_version_file])) (\<lambda>f.
       if \<not> f then Inr 1
       else bindr (file_read_all n (r @ [n_version_file])) (\<lambda>text.
              of_opt (Fatal ''malformed storage version: \"%s\"'') (py_int text)))"

section \<open>Initialization\<close>

text \<open>\<open>lock\<close>: whether to lock is an option, whether the lock is free an argument.\<close>

definition storage_lock :: "bool \<Rightarrow> bool \<Rightarrow> string list \<Rightarrow> unit fio" where
  "storage_lock locking free r =
     (if \<not> locking then ret ()
      else thenio (change (\<lambda>n. file_write [] n (r @ [n_lockfile])))
             (check free (Fatal ''storage directory is already in use'')))"

text \<open>
  \<open>cleanup\<close>: the pattern is matched in the download cache, but what matches is given by its
  name only, and so deleted in the current directory of the program, \<open>cwd\<close>.
\<close>

definition part_files :: "string list \<Rightarrow> node \<Rightarrow> string list res" where
  "part_files r n = bindr (listdir n (r @ [n_download_cache])) (\<lambda>es. Inr (filter (prefix ''part_'') es))"

definition cleanup :: "string list \<Rightarrow> string list \<Rightarrow> unit fio" where
  "cleanup r cwd =
     bindio (look (part_files r)) (\<lambda>es. seqio (map (\<lambda>p. change (\<lambda>n. unlink False n (cwd @ [p]))) es))"

definition expected_entries :: "string list" where
  "expected_entries = [n_build_cache, n_build_large, n_download_cache, n_unpack_base, n_upload_cache, n_version_file]"

definition validate_strict :: "string list \<Rightarrow> unit fio" where
  "validate_strict r =
     bindio (look (\<lambda>n. listdir n r)) (\<lambda>entries.
     thenio (check (set expected_entries \<subseteq> set entries) (Fatal ''invalid storage directory: missing file or directory: %s''))
     (let extra = filter (\<lambda>e. e \<notin> set (n_lockfile # n_mount_point # expected_entries)) entries in
      thenio (whenio (n_image_tmp \<in> set extra) (change (\<lambda>n. rmtree n (r @ [n_image_tmp]))))
      (thenio (check (set extra \<subseteq> {n_image_tmp}) (Fatal ''invalid storage directory: extraneous file(s): %s''))
      (bindio (look (version_read r)) (\<lambda>v.
       thenio (check (v = storage_version) (Fatal ''invalid storage directory: version mismatch: %d expected, %d found''))
       (bindio (look (\<lambda>n. listdir n (r @ [n_unpack_base]))) (\<lambda>imgs.
          check (list_all (\<lambda>i. CHR '':'' \<notin> set i) imgs)
            (Fatal ''invalid storage directory: storage directory broken: bad image dir name: %s'')))))))) "

definition remove_links :: "string list \<Rightarrow> unit fio" where
  "remove_links d =
     bindio (look (\<lambda>n. iterdir n d)) (\<lambda>ps.
       seqio (map (\<lambda>p. bindio (look (\<lambda>n. is_symlink n p)) (\<lambda>l. whenio l (change (\<lambda>n. unlink False n p)))) ps))"

definition storage_dirs :: "string list" where
  "storage_dirs = [n_download_cache, n_build_cache, n_build_large, n_unpack_base, n_upload_cache]"

definition version_text :: string where "version_text = str_of_int storage_version @ [newline]"

definition storage_init :: "bool \<Rightarrow> bool \<Rightarrow> string list \<Rightarrow> string list \<Rightarrow> unit fio" where
  "storage_init locking free cwd r =
     bindio (look (\<lambda>n. is_dir n r)) (\<lambda>there.
     bindio (if \<not> there then ret None
             else bindio (look (valid_p r)) (\<lambda>v.
               thenio (check v (Fatal ''storage directory seems invalid: %s''))
                 (bindio (look (version_read r)) (\<lambda>v. ret (Some v))))) (\<lambda>found.
     thenio
       (if found = Some storage_version then storage_lock locking free r
        else if found \<in> {None, Some 6}
        then seqio [change (\<lambda>n. path_mkdir n r),
                    storage_lock locking free r,
                    seqio (map (\<lambda>d. change (\<lambda>n. path_mkdir n (r @ [d]))) storage_dirs),
                    whenio (found = Some 6) (remove_links (r @ [n_download_cache])),
                    change (\<lambda>n. file_write version_text n (r @ [n_version_file]))]
        else raise (Fatal ''incompatible storage directory v%d: %s''))
     (thenio (validate_strict r) (cleanup r cwd))))"

definition storage_reset :: "bool \<Rightarrow> bool \<Rightarrow> string list \<Rightarrow> string list \<Rightarrow> unit fio" where
  "storage_reset locking free cwd r =
     bindio (look (valid_p r)) (\<lambda>v.
       if v then thenio (change (\<lambda>n. rmtree n r)) (storage_init locking free cwd r)
       else raise (Fatal ''%s not a builder storage''))"

section \<open>What initialization leaves\<close>

lemma look_Inr [io_simps]: "look f n = (Inr x, n') \<longleftrightarrow> f n = Inr x \<and> n' = n"
  by (auto simp: look_def)

lemma change_Inr [io_simps]: "change f n = (Inr u, n') \<longleftrightarrow> f n = Inr n'"
  by (auto simp: change_def split: sum.splits)

definition strictly_valid :: "string list \<Rightarrow> node \<Rightarrow> bool" where
  "strictly_valid r n \<longleftrightarrow>
     (\<exists>es. listdir n r = Inr es \<and> set expected_entries \<subseteq> set es \<and>
           set es \<subseteq> {n_lockfile, n_mount_point} \<union> set expected_entries) \<and>
     version_read r n = Inr storage_version \<and>
     (\<exists>imgs. listdir n (r @ [n_unpack_base]) = Inr imgs \<and> (\<forall>i \<in> set imgs. CHR '':'' \<notin> set i))"

lemma listdir_dir:
  assumes "listdir n p = Inr es"
  shows "\<exists>m ens. node_at n p = Some (Dir m ens) \<and> es = map fst ens"
proof -
  from assms obtain x where "lookup n p = Inr (Some x)"
    by (auto simp: listdir_def lstat_def res_simps)
  moreover from this assms obtain m ens where "x = Dir m ens" "es = map fst ens"
    by (cases x) (auto simp: listdir_def ossafe_def lstat_def of_opt_def)
  ultimately show ?thesis using lookup_Some by blast
qed

lemma listdir_at: "node_at n p = Some (Dir m ens) \<Longrightarrow> listdir n p = Inr (map fst ens)"
  by (simp add: listdir_def ossafe_def lstat_def of_opt_def lookup_at)

lemma validate_strict_valid:
  assumes "validate_strict r n = (Inr (), n')"
  shows "strictly_valid r n'"
proof -
  let ?extra = "\<lambda>es. filter (\<lambda>e. e \<notin> set (n_lockfile # n_mount_point # expected_entries)) es"
  obtain es imgs where es: "listdir n r = Inr es" "set expected_entries \<subseteq> set es"
    and rm: "whenio (n_image_tmp \<in> set (?extra es)) (change (\<lambda>n. rmtree n (r @ [n_image_tmp]))) n = (Inr (), n')"
    and ex: "set (?extra es) \<subseteq> {n_image_tmp}" and v: "version_read r n' = Inr storage_version"
    and imgs: "listdir n' (r @ [n_unpack_base]) = Inr imgs" "list_all (\<lambda>i. CHR '':'' \<notin> set i) imgs"
    using assms unfolding validate_strict_def Let_def
    by (simp only: bindio_Inr thenio_Inr look_Inr check_Inr) blast
  from listdir_dir [OF es(1)] obtain m ens where d: "node_at n r = Some (Dir m ens)" "es = map fst ens" by blast
  have tmp: "n_image_tmp \<notin> set (n_lockfile # n_mount_point # expected_entries)" by code_simp
  have "\<exists>es'. listdir n' r = Inr es' \<and> set expected_entries \<subseteq> set es' \<and> set es' \<subseteq> {n_lockfile, n_mount_point} \<union> set expected_entries"
  proof (cases "n_image_tmp \<in> set es")
    case True
    then have "rmtree n (r @ [n_image_tmp]) = Inr n'" using rm tmp by (simp add: whenio_Inr change_Inr)
    then have "node_alter (Fatal ''can't recursively delete directory %s: %s: %s'') (\<lambda>_. None) n (r @ [n_image_tmp]) = Inr n'"
      by (auto simp: rmtree_def res_simps)
    from node_alter_parent [OF this] d have "node_at n' r = Some (Dir m (AList.delete n_image_tmp ens))" by simp
    then have "listdir n' r = Inr (map fst (AList.delete n_image_tmp ens))" by (rule listdir_at)
    moreover have "set (map fst (AList.delete n_image_tmp ens)) = set es - {n_image_tmp}"
      by (auto simp: d(2) delete_keys set_filter image_iff)
    ultimately show ?thesis using es(2) ex tmp by auto
  next
    case False
    then have "n' = n" using rm by (auto simp: whenio_Inr)
    with es ex False show ?thesis by auto
  qed
  with v imgs show ?thesis by (auto simp: strictly_valid_def list_all_iff)
qed

lemma strictly_valid_at:
  assumes "node_at n' r = node_at n r" "strictly_valid r n"
  shows "strictly_valid r n'"
proof -
  obtain es where "listdir n r = Inr es" using assms(2) by (auto simp: strictly_valid_def)
  then obtain x where x: "node_at n r = Some x" using listdir_dir by blast
  then have "lookup n' (r @ q) = lookup n (r @ q)" "node_at n' (r @ q) = node_at n (r @ q)" for q
    using assms(1) by (simp_all add: lookup_append node_at_append)
  note at = this
  have "lookup n' r = lookup n r" using at(1) [of "[]"] by simp
  then have "listdir n' r = listdir n r" by (simp only: listdir_def lstat_def)
  moreover have "listdir n' (r @ q) = listdir n (r @ q)" for q by (simp only: listdir_def lstat_def at)
  moreover have "version_read r n' = version_read r n"
    by (simp only: version_read_def is_file_def is_kind_def file_read_all_def at)
  ultimately show ?thesis using assms(2) by (simp only: strictly_valid_def)
qed

lemma unlink_elsewhere:
  assumes "unlink False n q = Inr n'" "node_at n r = Some (Dir m es)" "\<not> prefix r q \<or> r = q"
  shows "node_at n' r = node_at n r"
proof -
  from assms(1) obtain x where x: "lookup n q = Inr (Some x)" "node_kind x \<noteq> K_Dir"
    and a: "node_alter (Fatal ''can't unlink: %s'') (\<lambda>_. None) n q = Inr n'"
    by (auto simp: unlink_def lstat_def res_simps)
  have "node_at n q = Some x" by (rule lookup_Some [OF x(1)])
  have "\<not> prefix q r"
  proof
    assume "prefix q r"
    then obtain s where "r = q @ s" by (auto simp: prefix_def)
    with \<open>node_at n q = Some x\<close> assms(2) have "node_at x s = Some (Dir m es)" by (simp add: node_at_append)
    with x(2) show False by (cases x; cases s) auto
  qed
  then show ?thesis using node_alter_other [OF a] assms(3) by auto
qed

lemma cleanup_valid:
  assumes "cleanup r cwd n = (Inr (), n')" "strictly_valid r n" "\<not> prefix r cwd"
  shows "strictly_valid r n'"
proof -
  have "seqio (map (\<lambda>p. change (\<lambda>n. unlink False n (cwd @ [p]))) es) n = (Inr (), n') \<Longrightarrow> strictly_valid r n \<Longrightarrow>
    strictly_valid r n'" for es
  proof (induction es arbitrary: n)
    case (Cons e es)
    then obtain n1 where u: "unlink False n (cwd @ [e]) = Inr n1"
      and s: "seqio (map (\<lambda>p. change (\<lambda>n. unlink False n (cwd @ [p]))) es) n1 = (Inr (), n')"
      by (auto simp: io_simps)
    obtain m ens where "node_at n r = Some (Dir m ens)"
      using Cons.prems(2) listdir_dir [of n r] unfolding strictly_valid_def by blast
    from unlink_elsewhere [OF u this] assms(3) have "node_at n1 r = node_at n r"
      by (auto simp: prefix_snoc)
    then have "strictly_valid r n1" using Cons.prems(2) by (rule strictly_valid_at)
    with s show ?case by (rule Cons.IH)
  qed (simp add: ret_Inr)
  with assms(1,2) show ?thesis by (auto simp: cleanup_def bindio_Inr look_Inr)
qed

text \<open>
  C19: If initialization succeeds, the storage directory has the entries it should and no
  others, its version is the current one, and no image directory has a colon in its name,
  whatever was there before. (The current directory is not in the storage directory.)
\<close>

theorem storage_init_valid:
  assumes "storage_init locking free cwd r n = (Inr (), n')" "\<not> prefix r cwd"
  shows "strictly_valid r n'"
proof -
  from assms(1) obtain n1 n2 where "validate_strict r n1 = (Inr (), n2)" "cleanup r cwd n2 = (Inr (), n')"
    unfolding storage_init_def by (simp only: bindio_Inr thenio_Inr) (elim exE conjE, rule that)
  with assms(2) show ?thesis using validate_strict_valid cleanup_valid by blast
qed


text \<open>
  A partial download left over makes the next initialization fail, because it is deleted
  where the program was started, not in the download cache.
\<close>

definition example_storage :: node where
  "example_storage = (case snd (storage_init True True [] [''s''] new_dir) of n \<Rightarrow>
     case file_write ''x'' n [''s'', ''dlcache'', ''part_a''] of Inr n \<Rightarrow> n | Inl x \<Rightarrow> n)"

lemma leftover_part_fatal:
  "fst (storage_init True True [] [''s''] example_storage) = Inl (Fatal ''can't unlink: %s'')"
  by code_simp

lemma example_init_ok: "fst (storage_init True True [] [''s''] new_dir) = Inr ()"
  by code_simp

lemma storage_init_valid_witness:
  "strictly_valid [''s''] (snd (storage_init True True [] [''s''] new_dir))"
  by (rule storage_init_valid [of True True "[]" _ new_dir]) (simp_all add: example_init_ok prod_eq_iff)


end
