(* ===== verification/Push.thy ===== *)
theory Push
  imports Storage Registry Layers Metadata
begin

text \<open>
  Pushing an image (\<open>lib/push.py\<close>, with \<open>Image.tarballs_write\<close>): writing the layer, its
  compression, the configuration and the manifest, and the upload. The tar, gzip and JSON
  formats are arguments, as is the registry. An error while the tarball is written leaves
  the file tree as it was in the model, but a partial tarball in the program.
\<close>

record push_env =
  pe_world :: world
  pe_members :: "node \<Rightarrow> member list"             \<comment> \<open>what \<open>tarfile\<close> adds, in order\<close>
  pe_tar :: "member list \<Rightarrow> string"
  pe_run :: "string list \<Rightarrow> node \<Rightarrow> node res"
  pe_which :: "string \<Rightarrow> string option"
  pe_dumps :: "json \<Rightarrow> string"
  pe_machine :: string
  pe_now :: string
  pe_version :: string
  pe_self :: "string list \<Rightarrow> string"              \<comment> \<open>the path with these parts\<close>

record pusher =
  pu_layers :: "(string \<times> string list) list"      \<comment> \<open>digest and path, lowest first\<close>
  pu_config :: bytes
  pu_manifest :: bytes

definition media_docker2 :: string where "media_docker2 = ''application/vnd.docker.distribution.manifest.v2+json''"
definition media_config :: string where "media_config = ''application/vnd.docker.container.image.v1+json''"
definition media_layer :: string where "media_layer = ''application/vnd.docker.image.rootfs.diff.tar.gzip''"

definition tarballs_write :: "push_env \<Rightarrow> string list \<Rightarrow> string \<Rightarrow> node \<Rightarrow> node \<Rightarrow> (string list \<times> node) res" where
  "tarballs_write e dir d img n =
     (let base = d @ ''.tar'' in
      bindr (mapr push_filter (pe_members e img)) (\<lambda>ms.
      bindr (file_write (pe_tar e (concat (map (case_option [] (\<lambda>m. [m])) ms))) n (dir @ [base])) (\<lambda>n.
        Inr ([base], n))))"

section \<open>Layers\<close>

record push_layer =
  pl_diff_id :: string
  pl_digest :: string
  pl_size :: int
  pl_path :: "string list"

definition prepare_layer :: "push_env \<Rightarrow> string list \<Rightarrow> string \<Rightarrow> node \<Rightarrow> (push_layer \<times> node) res" where
  "prepare_layer e dir tar n =
     (let sha = w_sha (pe_world e); uc = dir @ [tar] in
      bindr (file_hash sha n uc) (\<lambda>hash_uc.
      bindr (file_size n uc) (\<lambda>size_uc.
      bindr (file_gzip (pe_run e) (pe_which e) [''-9'', ''--no-name''] (pe_self e uc) n uc) (\<lambda>n.
      bindr (suffix_add tar ''.gz'') (\<lambda>name. let c = dir @ [name] in
      bindr (file_hash sha n c) (\<lambda>hash_c.
      bindr (file_size n c) (\<lambda>size_c.
        Inr (\<lparr>pl_diff_id = hash_uc, pl_digest = hash_c, pl_size = size_c, pl_path = c\<rparr>, n))))))))"

fun prepare_layers :: "push_env \<Rightarrow> string list \<Rightarrow> string list \<Rightarrow> node \<Rightarrow> (push_layer list \<times> node) res" where
  "prepare_layers e dir [] n = Inr ([], n)"
| "prepare_layers e dir (t # ts) n =
     bindr (prepare_layer e dir t n) (\<lambda>(l, n). bindr (prepare_layers e dir ts n) (\<lambda>(ls, n). Inr (l # ls, n)))"

section \<open>History\<close>

text \<open>The last entry that is not an empty layer, from the end; everything else is made empty.\<close>

definition hist_empty :: "json \<Rightarrow> bool res" where
  "hist_empty x =
     bindr (json_keys x) (\<lambda>ks. if ''empty_layer'' \<notin> set ks then Inr False
       else bindr (json_key x ''empty_layer'') (\<lambda>v. Inr (truthy v)))"

fun winner_from :: "json list \<Rightarrow> nat \<Rightarrow> nat option res" where
  "winner_from hist 0 = Inr None"
| "winner_from hist (Suc i) = bindr (hist_empty (hist ! i)) (\<lambda>b. if b then winner_from hist i else Inr (Some i))"

definition set_empty :: "json \<Rightarrow> json res" where
  "set_empty x = (case x of Obj d \<Rightarrow> Inr (Obj (AList.update ''empty_layer'' (Bool True) d)) | _ \<Rightarrow> Inl Type_Error)"

fun empty_rest :: "nat \<Rightarrow> nat \<Rightarrow> json list \<Rightarrow> json list res" where
  \<comment> \<open>from entry \<open>i\<close> up to the last but one\<close>
  "empty_rest winner i [] = Inr []"
| "empty_rest winner i [x] = Inr [x]"
| "empty_rest winner i (x # y # xs) =
     bindr (if i = winner then Inr x else set_empty x) (\<lambda>x.
     bindr (empty_rest winner (Suc i) (y # xs)) (\<lambda>xs. Inr (x # xs)))"

definition push_history :: "json list \<Rightarrow> json list res" where
  "push_history hist =
     bindr (winner_from hist (length hist)) (\<lambda>w.
     bindr (of_opt Assertion_Error w) (\<lambda>w. empty_rest w 0 hist))"

definition json_list :: "json \<Rightarrow> json list res" where
  "json_list j = (case j of Arr xs \<Rightarrow> Inr xs | _ \<Rightarrow> Inl (Unmodelled ''history that is no list''))"

section \<open>Configuration and manifest\<close>

definition config_new :: "push_env \<Rightarrow> string \<Rightarrow> string list \<Rightarrow> string list \<Rightarrow> json list \<Rightarrow> json" where
  \<comment> \<open>with what \<open>prepare\<close> fills in\<close>
  "config_new e arch diff_ids env hist =
     Obj [(''architecture'', Str arch), (''charliecloud_version'', Str (pe_version e)),
          (''comment'', Str ''pushed with Charliecloud''), (''config'', Obj [(''Env'', Arr (map Str env))]),
          (''container_config'', Obj []), (''created'', Str (pe_now e)), (''history'', Arr hist), (''os'', Str ''linux''),
          (''rootfs'', Obj [(''diff_ids'', Arr (map (\<lambda>d. Str (''sha256:'' @ d)) diff_ids)), (''type'', Str ''layers'')]),
          (''weirdal'', Str ''yankovic'')]"

definition blob_entry :: "string \<Rightarrow> int \<Rightarrow> string \<Rightarrow> json" where
  "blob_entry ty sz hash = Obj [(''mediaType'', Str ty), (''size'', Num sz), (''digest'', Str (''sha256:'' @ hash))]"

definition manifest_new :: "json \<Rightarrow> json list \<Rightarrow> json" where
  "manifest_new config layers =
     Obj [(''schemaVersion'', Num 2), (''mediaType'', Str media_docker2), (''config'', config), (''layers'', Arr layers),
          (''weirdal'', Str ''yankovic'')]"

definition push_prepare :: "push_env \<Rightarrow> string list \<Rightarrow> string \<Rightarrow> node \<Rightarrow> metadata \<Rightarrow> node \<Rightarrow> (pusher \<times> node) res" where
  \<comment> \<open>after the first request\<close>
  "push_prepare e dir d img md n =
     bindr (tarballs_write e dir d img n) (\<lambda>(tars, n).
     bindr (arch_host_get (pe_machine e)) (\<lambda>arch.
     bindr (prepare_layers e dir tars n) (\<lambda>(ls, n).
     bindr (bindr (json_list (md_history md)) push_history) (\<lambda>hist.
     let config = encode_utf8 (pe_dumps e (config_new e arch (map pl_diff_id ls) (map env_line (md_env md)) hist));
         manifest = encode_utf8 (pe_dumps e (manifest_new
           (blob_entry media_config (int (length config)) (w_sha (pe_world e) config))
           (map (\<lambda>l. blob_entry media_layer (pl_size l) (pl_digest l)) ls)))
     in Inr (\<lparr>pu_layers = map (\<lambda>l. (pl_digest l, pl_path l)) ls, pu_config = config, pu_manifest = manifest\<rparr>, n)))))"

section \<open>Uploading\<close>

fun upload_layers :: "push_env \<Rightarrow> node \<Rightarrow> (string \<times> string list) list \<Rightarrow> session \<Rightarrow> session res option" where
  "upload_layers e n [] st = Some (Inr st)"
| "upload_layers e n ((digest, p) # ls) st =
     bindo (Some (file_read_all n p)) (\<lambda>data.
     bindo (layer_from_file (pe_world e) digest data st) (\<lambda>st. upload_layers e n ls st))"

definition upload :: "push_env \<Rightarrow> node \<Rightarrow> pusher \<Rightarrow> session \<Rightarrow> session res option" where
  "upload e n p st =
     bindo (upload_layers e n (pu_layers p) st) (\<lambda>st.
     bindo (config_upload (pe_world e) (pu_config p) st) (\<lambda>st.
     bindo (manifest_upload (pe_world e) (pu_manifest p) st) (\<lambda>st. Some (Inr (http_close st)))))"

definition push_cleanup :: "pusher \<Rightarrow> node \<Rightarrow> node res" where
  "push_cleanup p n = foldr_res (\<lambda>(digest, path) n. unlink False n path) (pu_layers p) n"

text \<open>\<open>push\<close>: the first request makes the user log in before the work is done.\<close>

definition push :: "push_env \<Rightarrow> string list \<Rightarrow> string \<Rightarrow> node \<Rightarrow> metadata \<Rightarrow> reference \<Rightarrow> node \<Rightarrow> (node \<times> session) res option" where
  "push e dir d img md dst n =
     bindo (Some (http_init (w_env (pe_world e)) dst)) (\<lambda>st.
     bindo (Some (url_base st)) (\<lambda>url.
     bindo (request (pe_world e) ''GET'' url [200] False None [] None st) (\<lambda>(_, _, st).
     bindo (Some (push_prepare e dir d img md n)) (\<lambda>(p, n).
     bindo (upload e n p st) (\<lambda>st.
     bindo (Some (push_cleanup p n)) (\<lambda>n. Some (Inr (n, st))))))))"

text \<open>\<open>main\<close>: the image to push, and where to.\<close>

definition push_main :: "push_env \<Rightarrow> (string \<Rightarrow> reference res) \<Rightarrow> string list \<Rightarrow> string list option \<Rightarrow> string \<Rightarrow> string option \<Rightarrow>
    (string list \<Rightarrow> metadata res) \<Rightarrow> node \<Rightarrow> (node \<times> session) res option" where
  "push_main e parse r image_path source_ref dest_ref md_of n =
     bindo (Some (parse source_ref)) (\<lambda>src.
     bindo (Some (for_path src)) (\<lambda>d.
     let img = (case image_path of Some p \<Rightarrow> p | None \<Rightarrow> r @ [n_unpack_base, d]) in
     bindo (Some (is_dir n img)) (\<lambda>there.
     bindo (Some (guard there (Fatal (if image_path = None then ''can't push: no image %s''
                                      else ''can't push: %s does not appear to be an image'')))) (\<lambda>_.
     bindo (Some (parse (case dest_ref of Some t \<Rightarrow> t | None \<Rightarrow> source_ref))) (\<lambda>dst.
     bindo (Some (lstat n img)) (\<lambda>x.
     bindo (Some (md_of img)) (\<lambda>md. push e (r @ [n_upload_cache]) d x md dst n)))))))"

section \<open>One layer in the history\<close>

lemma winner_from_spec:
  "winner_from hist n = Inr w \<Longrightarrow> n \<le> length hist \<Longrightarrow>
     (case w of None \<Rightarrow> \<forall>j<n. hist_empty (hist ! j) = Inr True
      | Some i \<Rightarrow> i < n \<and> hist_empty (hist ! i) = Inr False \<and> (\<forall>j. i < j \<longrightarrow> j < n \<longrightarrow> hist_empty (hist ! j) = Inr True))"
proof (induction hist n rule: winner_from.induct)
  case (2 hist i)
  then obtain b where b: "hist_empty (hist ! i) = Inr b" by (auto simp: res_simps)
  show ?case
  proof (cases b)
    case True
    then have "winner_from hist i = Inr w" using 2(2) b by simp
    from 2(1) [OF b True this] 2(3) True b show ?thesis by (auto simp: less_Suc_eq split: option.splits)
  next
    case False
    then show ?thesis using 2(2) b by auto
  qed
qed simp

lemma hist_empty_set: "set_empty x = Inr y \<Longrightarrow> hist_empty y = Inr True"
  by (auto simp: set_empty_def hist_empty_def json_keys_def json_key_def of_opt_def update_conv' dom_update
      split: json.splits)

lemma empty_rest_spec:
  "empty_rest w i xs = Inr ys \<Longrightarrow> length ys = length xs \<and>
     (\<forall>j < length xs. ys ! j = (if i + j = w \<or> Suc j = length xs then xs ! j else ys ! j)
        \<and> (i + j \<noteq> w \<and> Suc j < length xs \<longrightarrow> hist_empty (ys ! j) = Inr True))"
proof (induction w i xs arbitrary: ys rule: empty_rest.induct)
  case (3 w i x y xs)
  from 3(2) obtain x' zs where x': "(if i = w then Inr x else set_empty x) = Inr x'"
    and zs: "empty_rest w (Suc i) (y # xs) = Inr zs" and ys: "ys = x' # zs" by (auto simp: res_simps)
  note IH = 3(1) [OF x' zs]
  show ?case
  proof (intro conjI allI impI)
    show "length ys = length (x # y # xs)" using IH ys by simp
  next
    fix j assume "j < length (x # y # xs)"
    then show "ys ! j = (if i + j = w \<or> Suc j = length (x # y # xs) then (x # y # xs) ! j else ys ! j)"
      using IH ys x' by (cases j) auto
  next
    fix j assume "j < length (x # y # xs)" "i + j \<noteq> w \<and> Suc j < length (x # y # xs)"
    then show "hist_empty (ys ! j) = Inr True"
      using IH ys x' hist_empty_set [of x x'] by (cases j) auto
  qed
qed auto

text \<open>
  C23: In a pushed image exactly one history entry is not an empty layer, as some registries
  demand of an image with one layer: the last one that was not, which is kept as it was.
\<close>

theorem push_history_one_layer:
  assumes "push_history hist = Inr hist'"
  shows "length hist' = length hist \<and>
    (\<exists>i < length hist. hist' ! i = hist ! i \<and> hist_empty (hist' ! i) = Inr False \<and>
       (\<forall>j < length hist. j \<noteq> i \<longrightarrow> hist_empty (hist' ! j) = Inr True) \<and>
       (\<forall>j < length hist. i < j \<longrightarrow> hist_empty (hist ! j) = Inr True))"
proof -
  from assms obtain i where w: "winner_from hist (length hist) = Inr (Some i)" and e: "empty_rest i 0 hist = Inr hist'"
    by (auto simp: push_history_def res_simps of_opt_def split: option.splits)
  note W = winner_from_spec [OF w, simplified] and E = empty_rest_spec [OF e, simplified]
  have kept: "hist' ! j = hist ! j" if "j = i \<or> Suc j = length hist" "j < length hist" for j
    using E that by metis
  have "hist_empty (hist' ! j) = Inr True" if "j < length hist" "j \<noteq> i" for j
  proof (cases "Suc j = length hist")
    case True
    then have "i < j" using W that by auto
    with W that kept [of j] True show ?thesis by simp
  next
    case False
    with E that show ?thesis by simp
  qed
  with W E kept [of i] show ?thesis by (intro conjI exI [of _ i]) auto
qed

lemma push_history_one_layer_witness:
  "\<exists>i < 2. hist_empty ([Obj [(''empty_layer'', Bool True)], Obj []] ! i) = Inr False"
proof -
  have "push_history [Obj [], Obj []] = Inr [Obj [(''empty_layer'', Bool True)], Obj []]" by code_simp
  from push_history_one_layer [OF this] show ?thesis by (simp add: numeral_2_eq_2) blast
qed

section \<open>What is announced is what is uploaded\<close>

lemma file_size_at: "node_at n p = Some x \<Longrightarrow> file_size n p = Inr (mt_size (node_meta x))"
  by (simp add: file_size_def lstat_def lookup_at of_opt_def ossafe_def)

lemma prepare_layer_true:
  assumes "prepare_layer e dir t n = Inr (l, n')"
  shows "\<exists>c. file_read_all n' (pl_path l) = Inr c \<and> pl_digest l = w_sha (pe_world e) c \<and> pl_size l = int (length c)"
proof -
  from assms obtain name where s: "suffix_add t ''.gz'' = Inr name"
    and h: "file_hash (w_sha (pe_world e)) n' (dir @ [name]) = Inr (pl_digest l)"
    and sz: "file_size n' (dir @ [name]) = Inr (pl_size l)" and p: "pl_path l = dir @ [name]"
    and g: "file_gzip (pe_run e) (pe_which e) [''-9'', ''--no-name''] (pe_self e (dir @ [t])) n (dir @ [t]) = Inr n'"
    by (auto simp: prepare_layer_def Let_def res_simps)
  from g s obtain n1 c where "file_write (zero_time c) n1 (dir @ [name]) = Inr n'"
    by (auto simp: file_gzip_def Let_def res_simps)
  from file_write_at [OF this] obtain m where m: "node_at n' (dir @ [name]) = Some (Reg m (zero_time c))"
    "mt_size m = int (length (zero_time c))" by blast
  with h sz p show ?thesis by (auto simp: file_hash_def res_simps file_read_at file_size_at)
qed

lemma push_prepare_parts:
  assumes "push_prepare e dir d img md n = Inr (p, n')"
  obtains n1 base and l :: push_layer where "prepare_layer e dir base n1 = Inr (l, n')"
    "pu_layers p = [(pl_digest l, pl_path l)]"
    "pu_manifest p = encode_utf8 (pe_dumps e (manifest_new
      (blob_entry media_config (int (length (pu_config p))) (w_sha (pe_world e) (pu_config p)))
      [blob_entry media_layer (pl_size l) (pl_digest l)]))"
  using assms by (auto simp: push_prepare_def tarballs_write_def Let_def res_simps)

text \<open>
  C21: The manifest of a pushed image tells the truth: it names the layer by the hash and
  size of the compressed tarball as it is on disk, and the configuration by the hash and
  size of the configuration that is uploaded.
\<close>

theorem push_manifest_true:
  assumes "push_prepare e dir d img md n = Inr (p, n')"
  shows "\<exists>(l :: push_layer) c. pu_layers p = [(pl_digest l, pl_path l)] \<and> file_read_all n' (pl_path l) = Inr c \<and>
    pl_digest l = w_sha (pe_world e) c \<and> pl_size l = int (length c) \<and>
    pu_manifest p = encode_utf8 (pe_dumps e (manifest_new
      (blob_entry media_config (int (length (pu_config p))) (w_sha (pe_world e) (pu_config p)))
      [blob_entry media_layer (pl_size l) (pl_digest l)]))"
proof -
  from assms obtain n1 base and l :: push_layer where l: "prepare_layer e dir base n1 = Inr (l, n')"
    "pu_layers p = [(pl_digest l, pl_path l)]"
    "pu_manifest p = encode_utf8 (pe_dumps e (manifest_new
      (blob_entry media_config (int (length (pu_config p))) (w_sha (pe_world e) (pu_config p)))
      [blob_entry media_layer (pl_size l) (pl_digest l)]))" by (rule push_prepare_parts)
  from prepare_layer_true [OF l(1)] l(2,3) show ?thesis by blast
qed

lemma upload_layers_confirmed:
  "upload_layers e n ls st = Some (Inr st') \<Longrightarrow>
     \<forall>(digest, p) \<in> set ls. \<exists>st0 st1. blob_exists_p (pe_world e) digest st0 = Some (Inr (True, st1))"
proof (induction e n ls st rule: upload_layers.induct)
  case (2 e n digest p ls st)
  then obtain data st1 where "file_read_all n p = Inr data"
    "layer_from_file (pe_world e) digest data st = Some (Inr st1)" "upload_layers e n ls st1 = Some (Inr st')"
    by (auto simp: bindo_Some_Inr)
  with 2(1) blob_upload_confirmed show ?case by (fastforce simp: layer_from_file_def)
qed simp

lemma cleanup_removes:
  "push_cleanup \<lparr>pu_layers = [(digest, p)], pu_config = c, pu_manifest = m\<rparr> n = Inr n' \<Longrightarrow> node_at n' p = None"
  by (auto simp: push_cleanup_def unlink_def res_simps dest!: node_alter_same)


section \<open>A concrete push\<close>

definition example_push_world :: world where
  "example_push_world = \<lparr>w_server = \<lambda>qs. Some \<lparr>rs_status = if q_method (last qs) = ''PUT'' then 201 else 200,
     rs_headers = [], rs_chunks = [], rs_json = Null\<rparr>, w_env = [], w_prompt = None, w_password_many = False,
     w_auth_p = False, w_sha = rev\<rparr>"

definition example_push_env :: push_env where
  "example_push_env = \<lparr>pe_world = example_push_world, pe_members = \<lambda>_. [], pe_tar = \<lambda>_. ''tar'',
     pe_run = \<lambda>_ n. file_write ''gzipped data'' n [''u'', ''i.tar.gz''], pe_which = \<lambda>p. Some p,
     pe_dumps = \<lambda>j. ''json'', pe_machine = ''x86_64'', pe_now = ''now'', pe_version = ''0'', pe_self = join ''/''\<rparr>"

definition example_push_tree :: node where
  "example_push_tree = (case mkdirs new_dir [''u''] of Inr n \<Rightarrow> n | Inl x \<Rightarrow> new_dir)"

definition example_push_md :: metadata where
  "example_push_md = (metadata_init [] ''amd64'')\<lparr>md_history := Arr [Obj []]\<rparr>"

definition example_push_ref :: reference where
  "example_push_ref = (empty_reference [])\<lparr>r_host := Some ''h'', r_port := Some 1, r_name := Some ''i'', r_tag := Some ''1''\<rparr>"

lemma example_prepared:
  "case push_prepare example_push_env [''u''] ''i'' new_dir example_push_md example_push_tree of
     Inr (p, n) \<Rightarrow> pu_layers p = [(rev (zero_time ''gzipped data''), [''u'', ''i.tar.gz''])] \<and>
       is_ok (push_cleanup p n) \<and> file_read_all n [''u'', ''i.tar.gz''] = Inr (zero_time ''gzipped data'')
   | Inl x \<Rightarrow> False"
  by code_simp

lemma push_manifest_true_witness:
  "\<exists>p n (l :: push_layer). push_prepare example_push_env [''u''] ''i'' new_dir example_push_md example_push_tree = Inr (p, n) \<and>
     pu_manifest p = encode_utf8 (pe_dumps example_push_env (manifest_new
       (blob_entry media_config (int (length (pu_config p))) (rev (pu_config p))) [blob_entry media_layer (pl_size l) (pl_digest l)]))"
proof -
  obtain p n where p: "push_prepare example_push_env [''u''] ''i'' new_dir example_push_md example_push_tree = Inr (p, n)"
    using example_prepared by (auto split: sum.splits)
  have "w_sha (pe_world example_push_env) = rev" by (simp add: example_push_env_def example_push_world_def)
  with push_manifest_true [OF p] p show ?thesis by auto
qed

lemma example_request:
  assumes "(if meth = ''PUT'' then 201 else 200) \<in> set sts"
  shows "\<exists>st'. request example_push_world meth url sts False None params data st =
    Some (Inr (\<lparr>rs_status = if meth = ''PUT'' then 201 else 200, rs_headers = [], rs_chunks = [], rs_json = Null\<rparr>, None, st'))
    \<and> h_ref st' = h_ref st"
  using assms
  by (subst request_def, subst request_loop.simps)
    (auto simp: bindo_def request_raw_def session_init_maybe_def stream_body_def Let_def example_push_world_def)

lemma example_url: "h_ref st = example_push_ref \<Longrightarrow> \<exists>u. url_of st t a = Inr u"
  by (auto simp: url_of_def url_base_def path_full_def example_push_ref_def empty_reference_def of_opt_def)

lemma example_blob:
  assumes "h_ref st = example_push_ref"
  obtains st' where "blob_upload example_push_world digest data st = Some (Inr st')" "h_ref st' = example_push_ref"
proof -
  obtain u where u: "url_of st ''blobs'' (''sha256:'' @ digest) = Inr u" using example_url [OF assms] by blast
  obtain st' where s: "request example_push_world ''HEAD'' u [200, 401, 404] False None [] None st =
      Some (Inr (\<lparr>rs_status = 200, rs_headers = [], rs_chunks = [], rs_json = Null\<rparr>, None, st'))" "h_ref st' = h_ref st"
    using example_request [of "''HEAD''" "[200, 401, 404]" u "[]" None st] by auto
  have "blob_exists_p example_push_world digest st = Some (Inr (True, st'))"
    unfolding blob_exists_p_def u by (simp add: s(1) bindo_def)
  with blob_upload_present s(2) assms show ?thesis by (intro that) auto
qed

lemma example_push_manifest:
  assumes "h_ref st = example_push_ref"
  obtains st' where "manifest_upload example_push_world m st = Some (Inr st')"
proof -
  obtain u where u: "url_of st ''manifests'' ''1'' = Inr u" using example_url [OF assms] by blast
  obtain st' where "request example_push_world ''PUT'' u [201] False None [] (Some m) st =
      Some (Inr (\<lparr>rs_status = 201, rs_headers = [], rs_chunks = [], rs_json = Null\<rparr>, None, st'))"
    using example_request [of "''PUT''" "[201]" u "[]" "Some m" st] by auto
  then have "manifest_upload example_push_world m st = Some (Inr st')"
    using assms by (simp add: manifest_upload_def u bindo_def of_opt_def example_push_ref_def empty_reference_def)
  then show ?thesis by (rule that)
qed

lemma example_canonical: "canonical [] example_push_ref = Inr example_push_ref"
  by code_simp

lemma example_pushed: "\<exists>n st. push example_push_env [''u''] ''i'' new_dir example_push_md example_push_ref example_push_tree = Some (Inr (n, st))"
proof -
  obtain p n n' where p: "push_prepare example_push_env [''u''] ''i'' new_dir example_push_md example_push_tree = Inr (p, n)"
    "pu_layers p = [(rev (zero_time ''gzipped data''), [''u'', ''i.tar.gz''])]"
    "push_cleanup p n = Inr n'" "file_read_all n [''u'', ''i.tar.gz''] = Inr (zero_time ''gzipped data'')"
    using example_prepared by (auto split: sum.splits elim!: is_ok.elims)
  have w: "pe_world example_push_env = example_push_world" "w_env example_push_world = []"
    by (simp_all add: example_push_env_def example_push_world_def)
  obtain st0 where st0: "http_init [] example_push_ref = Inr st0" "h_ref st0 = example_push_ref"
    by (simp add: http_init_def example_canonical)
  obtain u where u: "url_base st0 = Inr u"
    by (simp add: url_base_def st0(2) example_push_ref_def empty_reference_def)
  obtain st1 where st1: "request example_push_world ''GET'' u [200] False None [] None st0 =
      Some (Inr (\<lparr>rs_status = 200, rs_headers = [], rs_chunks = [], rs_json = Null\<rparr>, None, st1))" "h_ref st1 = h_ref st0"
    using example_request [of "''GET''" "[200]" u "[]" None st0] by auto
  have "h_ref st1 = example_push_ref" using st1 st0 by simp
  then obtain st2 where st2: "layer_from_file example_push_world (rev (zero_time ''gzipped data'')) (zero_time ''gzipped data'') st1 = Some (Inr st2)"
    "h_ref st2 = example_push_ref" unfolding layer_from_file_def by (rule example_blob)
  then obtain st3 where st3: "config_upload example_push_world (pu_config p) st2 = Some (Inr st3)" "h_ref st3 = example_push_ref"
    unfolding config_upload_def by (rule_tac example_blob)
  then obtain st4 where "manifest_upload example_push_world (pu_manifest p) st3 = Some (Inr st4)"
    by (rule_tac example_push_manifest)
  with p st2 st3 have "upload example_push_env n p st1 = Some (Inr (http_close st4))"
    by (simp add: upload_def bindo_def w)
  with p st0 u st1 show ?thesis by (simp add: push_def bindo_def w)
qed


end
