(* ===== verification/Modify.thy ===== *)
theory Modify
  imports Build_Facts
begin

text \<open>
  Modifying an image with commands (\<open>lib/modify.py\<close>): choosing the mode, the parse trees that
  stand for the commands or the script and that the main loop of \<open>Build\<close> then builds, and the
  interactive mode. Lemmas: which instructions the trees make, and what identifies the result.
\<close>

section \<open>The command line\<close>

text \<open>\<open>mo_common\<close> has the options that \<open>build\<close> shares; of its fields \<open>bc_context\<close> is not used.\<close>

record modify_cli =
  mo_common :: build_cli
  mo_c :: "string list list"
  mo_image_ref :: string
  mo_out_image :: string
  mo_script :: "string option"
  mo_interactive :: bool
  mo_shell :: "string option"

datatype modify_mode = Command_Seq | Interactive | Script

text \<open>
  The mode and the script: \<open>tty\<close> says whether standard input is a terminal, else \<open>stdin\<close> is
  what can be read from it; that goes to a temporary file, \<open>tmp\<close>.
\<close>

definition choose_mode :: "string list \<Rightarrow> string option \<Rightarrow> bool \<Rightarrow> bool \<Rightarrow> string res \<Rightarrow> string \<Rightarrow> (modify_mode \<times> string option) res" where
  "choose_mode commands script interactive tty stdin tmp =
     (if commands \<noteq> [] then
        bindr (guard (\<not> interactive) (Fatal ''incompatible opts: -c, -i'')) (\<lambda>_.
        bindr (guard (script = None) (Fatal ''script mode incompatible with command mode'')) (\<lambda>_.
          Inr (Command_Seq, script)))
      else if script \<noteq> None then
        bindr (guard (\<not> interactive) (Fatal ''script mode incompatible with interactive mode'')) (\<lambda>_.
          Inr (Script, script))
      else if tty \<or> interactive then Inr (Interactive, script)
      else bindr stdin (\<lambda>text.
           bindr (guard (text \<noteq> []) (Fatal ''modify mode unclear'')) (\<lambda>_. Inr (Script, Some tmp))))"

section \<open>Parse trees\<close>

definition from_node :: "string \<Rightarrow> tree" where
  "from_node src = Tree ''from_'' [Tree ''image_ref'' [Token ''IMAGE_REF'' src]]"

definition run_node :: "string \<Rightarrow> tree" where
  "run_node c = Tree ''run'' [Tree ''run_shell'' [Token ''LINE_CHUNK'' c]]"

definition shell_nodes :: "string option \<Rightarrow> tree list" where
  "shell_nodes shell =
     (case shell of
        None \<Rightarrow> []
      | Some s \<Rightarrow> [Tree ''shell'' [Token ''STRING_QUOTED'' ([dquote] @ s @ [dquote]),
                                   Token ''STRING_QUOTED'' ([dquote] @ ''-c'' @ [dquote])]])"

definition modify_tree_make :: "string \<Rightarrow> string option \<Rightarrow> string list \<Rightarrow> tree" where
  "modify_tree_make src shell cmds =
     Tree ''start'' [Tree ''dockerfile'' (from_node src # shell_nodes shell @ map run_node cmds)]"

definition py_format :: "string option \<Rightarrow> string" where \<comment> \<open>\<open>"%s" % x\<close>\<close>
  "py_format x = (case x of None \<Rightarrow> ''None'' | Some s \<Rightarrow> s)"

definition modify_tree_make_script :: "string \<Rightarrow> string option \<Rightarrow> string \<Rightarrow> tree" where
  "modify_tree_make_script src shell path =
     Tree ''start'' [Tree ''dockerfile'' [from_node src,
       Tree ''copy'' [Tree ''copy_shell'' [Token ''WORD'' path, Token ''WORD'' ''/ch/script.sh'']],
       run_node (py_format shell @ '' /ch/script.sh'')]]"

section \<open>The interactive mode\<close>

text \<open>
  The image's copy is changed by a shell in a container; its exit code matters only if it
  could not be run. The state ID is random: \<open>sid\<close> is the text of a UUID. The metadata is that of
  the new image object.
\<close>

definition exit_cmd :: int where "exit_cmd = 49"

definition import_history :: "json \<Rightarrow> json res" where
  "import_history h = (case h of
     Arr [] \<Rightarrow> Inr (Arr [Obj [(''empty_layer'', Bool False), (''command'', Str ''ch-image import'')]])
   | _ \<Rightarrow> Inr h)"

definition shell_argv :: "string \<Rightarrow> string list \<Rightarrow> image_id \<Rightarrow> string \<Rightarrow> string list" where
  "shell_argv ch_bin binds img shell =
     [ch_bin @ ''/ch-run'', ''--unsafe'', ''-w''] @ concat (map (\<lambda>i. [''-b'', i]) binds) @ [im_str img, ''--'', shell]"

definition modify_interactive :: "'g build_env \<Rightarrow> string option \<Rightarrow> string \<Rightarrow> image_id \<Rightarrow> image_id \<Rightarrow> ('g, unit) bio" where
  "modify_interactive e shell sid src out =
     (let c = be_cache e; cls = be_cls e in
      thenio (unpack_clear out)
      (thenio (copy_unpacked unpack_init out src)
      (thenio (worktree_adopt c cls out (im_dir src))
      (thenio (Cache.ready c cls out)
      (thenio (branch_nocheckout c cls src (Dest_Ref out))
      (letr (of_opt Type_Error shell) (\<lambda>shell.
       bindio (\<lambda>w. case be_run e (shell_argv (be_ch_bin e) (bo_bind (be_opts e)) out shell) (be_environ e) w of (code, w') \<Rightarrow> (Inr code, w')) (\<lambda>code.
       thenio (check (code \<noteq> exit_cmd) (Fatal ''can't run shell: %s''))
       (let md = metadata_init (be_environ e) (be_arch_host e) in
        letr (import_history (md_history md)) (\<lambda>h.
        thenio (save_metadata e (im_dir out) (md\<lparr>md_history := h\<rparr>))
          (bindio (commit_as c cls out sid ''MODIFY interactive'' []) (\<lambda>_. ret ()))))))))))))"

section \<open>main\<close>

definition modify_opts :: "modify_cli \<Rightarrow> force_mode \<Rightarrow> (string, string list) dict \<Rightarrow> string \<Rightarrow> build_opts" where
  "modify_opts c mode cmds tag =
     \<lparr>bo_tag = tag, bo_context = ''/'', bo_file = [], bo_force = mode, bo_force_cmd = cmds, bo_bind = bc_bind (mo_common c)\<rparr>"

definition modify_tree :: "modify_mode \<Rightarrow> string \<Rightarrow> string option \<Rightarrow> string list \<Rightarrow> string option \<Rightarrow> tree res" where
  "modify_tree mode src shell commands script =
     (case mode of
        Script \<Rightarrow> bindr (of_opt Type_Error script) (\<lambda>p. Inr (modify_tree_make_script src shell p))
      | Command_Seq \<Rightarrow> Inr (modify_tree_make src shell commands)
      | Interactive \<Rightarrow> Inl Assertion_Error)"

text \<open>
  The script given is not looked for: the method \<open>exists\<close> is not called, and a method is true.
  \<open>e0\<close> is the environment that references are parsed in, \<open>env_of\<close> that of the build.
\<close>

definition modify_main :: "'g build_env \<Rightarrow> (build_opts \<Rightarrow> int \<Rightarrow> 'g build_env) \<Rightarrow> environ \<Rightarrow> int \<Rightarrow> bool \<Rightarrow> string res \<Rightarrow>
    string \<Rightarrow> string \<Rightarrow> modify_cli \<Rightarrow> ('g, unit) bio" where
  "modify_main e0 env_of env feature tty stdin tmp sid c =
     letr (cli_process_common env feature (mo_common c)) (\<lambda>(force, force_cmds, args).
     thenio (Io.modify (\<lambda>w. w\<lparr>bw_build_arg := args\<rparr>))
     (let commands = concat (mo_c c) in
      letr (image_of e0 (mo_image_ref c) []) (\<lambda>src.
      letr (image_of e0 (mo_out_image c) []) (\<lambda>out.
      bindio (unpack_exist_p src) (\<lambda>there.
      thenio (check there (Fatal ''not in storage: %s''))
      (thenio (check (mo_out_image c \<noteq> mo_image_ref c) (Fatal ''output must be different from source image (%s)''))
      (letr (choose_mode commands (mo_script c) (mo_interactive c) tty stdin tmp) (\<lambda>(mode, script).
       let opts = modify_opts c force force_cmds (im_str out) in
       if mode = Interactive then modify_interactive (env_of opts 0) (mo_shell c) sid src out
       else letr (modify_tree mode (im_str src) (mo_shell c) commands script) (\<lambda>t.
            let e = (env_of opts (image_count (be_walk e0) t))\<lparr>be_line := \<lambda>_. -1\<rparr> in
            parse_tree_traverse e t)))))))))"

section \<open>The instructions of the trees\<close>

definition insts_of :: "'g build_env \<Rightarrow> tree list \<Rightarrow> ('g, inst_class list) bio" where
  "insts_of e ts = bindio (mapio (make_inst e) ts) (\<lambda>is. ret (map in_class (List.map_filter id is)))"

definition from_class :: inst_class where
  "from_class = From \<lparr>fs_text = [], fs_alias = None, fs_base_alias = None, fs_base = None\<rparr>"

definition shell_classes :: "string option \<Rightarrow> inst_class list" where
  "shell_classes shell = (case shell of None \<Rightarrow> [] | Some s \<Rightarrow> [Shell [[dquote] @ s @ [dquote], [dquote] @ ''-c'' @ [dquote]]])"

lemma insts_of_Nil: "insts_of e [] w = (Inr [], w)"
  by (simp add: insts_of_def io_run List.map_filter_def)

lemma insts_of_append:
  "insts_of e ts w = (Inr cs, w1) \<Longrightarrow> insts_of e ts' w1 = (Inr cs', w2) \<Longrightarrow> insts_of e (ts @ ts') w = (Inr (cs @ cs'), w2)"
proof (induction ts arbitrary: w cs)
  case (Cons t ts)
  then obtain r w0 cs0 where "make_inst e t w = (Inr r, w0)" "insts_of e ts w0 = (Inr cs0, w1)"
    "cs = (case r of None \<Rightarrow> [] | Some i \<Rightarrow> [in_class i]) @ cs0"
    by (auto simp: insts_of_def io_simps List.map_filter_simps split: option.splits)
  with Cons.IH [OF this(2) Cons.prems(2)] show ?case
    by (auto simp: insts_of_def io_simps List.map_filter_simps split: option.splits)
qed (simp add: insts_of_def io_simps List.map_filter_simps)

lemmas node_simps = make_inst_def inst_init_def children_named_def child_def terminals_def terminals_cat_def io_run
  res_simps

lemma insts_of_from [simp]: "be_walk e = subtrees \<Longrightarrow> insts_of e (subtrees (from_node src)) w = (Inr [from_class], w)"
  by (simp add: insts_of_def from_node_def from_class_def node_simps List.map_filter_simps)

lemma insts_of_run [simp]: "be_walk e = subtrees \<Longrightarrow> insts_of e (subtrees (run_node c)) w = (Inr [Run_Shell c None], w)"
  by (simp add: insts_of_def run_node_def node_simps List.map_filter_simps)

lemma insts_of_shell [simp]:
  "be_walk e = subtrees \<Longrightarrow> insts_of e (concat (map subtrees (shell_nodes sh))) w = (Inr (shell_classes sh), w)"
  by (cases sh) (simp_all add: insts_of_def shell_nodes_def shell_classes_def node_simps List.map_filter_simps)

lemma insts_of_runs:
  "be_walk e = subtrees \<Longrightarrow>
   insts_of e (concat (map (subtrees \<circ> run_node) cmds)) w = (Inr (map (\<lambda>c. Run_Shell c None) cmds), w)"
  by (induction cmds) (simp_all add: insts_of_Nil insts_of_append [OF insts_of_run])

lemma insts_of_start:
  "be_walk e = subtrees \<Longrightarrow> insts_of e [Tree ''start'' x, Tree ''dockerfile'' y] w = (Inr [], w)"
  by (simp add: insts_of_def node_simps List.map_filter_simps)

text \<open>
  C27: The tree that stands for commands given on the command line makes, in the order in which
  the main loop visits its nodes, exactly FROM, SHELL if there is a shell, and a RUN for each
  command; making them needs nothing and fails for no command.
\<close>

theorem modify_instructions:
  "insts_of (e\<lparr>be_walk := subtrees\<rparr>) (subtrees (modify_tree_make src shell cmds)) w =
     (Inr (from_class # shell_classes shell @ map (\<lambda>c. Run_Shell c None) cmds), w)"
proof -
  let ?e = "e\<lparr>be_walk := subtrees\<rparr>"
  have e: "be_walk ?e = subtrees" by simp
  have "subtrees (modify_tree_make src shell cmds) =
      [Tree ''start'' (tree_children (modify_tree_make src shell cmds)), Tree ''dockerfile'' (from_node src # shell_nodes shell @ map run_node cmds)]
      @ subtrees (from_node src) @ concat (map subtrees (shell_nodes shell)) @ concat (map (subtrees \<circ> run_node) cmds)"
    by (simp add: modify_tree_make_def)
  with insts_of_append [OF insts_of_start [OF e] insts_of_append [OF insts_of_from [OF e]
      insts_of_append [OF insts_of_shell [OF e] insts_of_runs [OF e]]]]
  show ?thesis by simp
qed

section \<open>What identifies the result\<close>

text \<open>Instructions of other classes than those not supported are never ignored.\<close>

definition never_ignored :: "('w, 'a) io \<Rightarrow> bool" where
  "never_ignored m \<longleftrightarrow> (\<forall>w. fst (m w) \<noteq> Inl Instruction_Ignored)"

named_theorems never_intros "computations that do not raise the exception for ignored instructions"

lemma never_bindio [never_intros]: "never_ignored m \<Longrightarrow> (\<And>x. never_ignored (f x)) \<Longrightarrow> never_ignored (bindio m f)"
  unfolding never_ignored_def bindio_def by (auto split: prod.splits sum.splits) (metis fst_conv)

lemma never_thenio [never_intros]: "never_ignored m \<Longrightarrow> never_ignored k \<Longrightarrow> never_ignored (thenio m k)"
  unfolding thenio_def by (rule never_bindio)

lemma never_pure [never_intros]: "never_ignored (ret y)" "never_ignored (gets g)" "never_ignored (Io.modify u)"
  "x \<noteq> Instruction_Ignored \<Longrightarrow> never_ignored (raise x)" "x \<noteq> Instruction_Ignored \<Longrightarrow> never_ignored (check b x)"
  "r \<noteq> Inl Instruction_Ignored \<Longrightarrow> never_ignored (liftr r)"
  by (simp_all add: never_ignored_def io_run)

lemma never_of_opt [never_intros]: "x \<noteq> Instruction_Ignored \<Longrightarrow> never_ignored (liftr (of_opt x a))"
  by (cases a) (simp_all add: never_ignored_def io_run)

lemma json_strs_error: "json_strs j \<noteq> Inl Instruction_Ignored"
proof
  assume "json_strs j = Inl Instruction_Ignored"
  moreover have "mapr json_str xs \<noteq> Inl Instruction_Ignored" for xs
    by (induction xs) (auto simp: res_simps json_str_def split: json.splits)
  ultimately show False by (auto simp: json_strs_def res_simps json_iter_def split: json.splits)
qed

lemma inst_str_error: "inst_str mode md i \<noteq> Inl Instruction_Ignored"
  by (auto simp: inst_str_def inst_text_def res_simps json_strs_error of_opt_def guard_def split: inst_class.splits option.splits if_splits)

lemma never_find_sid [never_intros]: "never_ignored (find_sid e cls sid b)"
proof -
  have g: "never_ignored (git e argv cwd f)" for argv cwd f
    by (auto simp: never_ignored_def git_def split: prod.splits)
  have "never_ignored (find_sid_in e s a)" for s a
    by (auto simp: find_sid_in_def intro!: never_intros g split: list.splits)
  then show ?thesis by (auto simp: find_sid_def intro!: never_intros)
qed

lemma sid_errors: "sid_from_parent e cls psid inp \<noteq> Inl Instruction_Ignored"
  by (auto simp: sid_from_parent_def of_opt_def split: option.splits)

lemma never_base_prepare [never_intros]: "never_ignored (base_prepare e c)"
proof -
  have "never_ignored (my_str e)"
    using inst_str_error by (auto simp: never_ignored_def my_str_run)
  then have "never_ignored (my_sid_input e)"
    by (auto simp: my_sid_input_def me_def intro!: never_intros split: inst_class.splits)
  then show ?thesis
    by (auto simp: base_prepare_def me_def upd_place_def upd_me_def my_image_def dest: sid_errors [THEN notE] intro!: never_intros)
qed

lemma never_gets: "(\<And>w. f w \<noteq> Inl Instruction_Ignored) \<Longrightarrow> (\<And>y. never_ignored (k y)) \<Longrightarrow> never_ignored (bindio (gets f) (\<lambda>r. letr r k))"
  unfolding never_ignored_def by (auto simp: io_run split: sum.split prod.split)

lemma never_run_shell: "never_ignored (prepare_run_shell e s c)"
  unfolding prepare_run_shell_def my_image_def me_def set_class_def upd_me_def
  by (intro never_intros never_gets json_strs_error exn.distinct)

text \<open>What the text of RUN depends on stays as it is.\<close>

definition text_of :: "'g bworld \<Rightarrow> inst_class \<times> string" where
  "text_of w = (in_class (bw_self w), in_options_str (bw_self w))"

definition at_text :: "inst_class \<times> string \<Rightarrow> 'g bworld \<Rightarrow> bool" where
  "at_text x w \<longleftrightarrow> text_of w = x"

lemma text_of_more: "cworld.more w = cworld.more (w' :: 'g bworld) \<Longrightarrow> text_of w = text_of w'"
  by (cases w; cases w') (simp add: text_of_def)

lemma text_updates: "text_of (w\<lparr>cw_images := i\<rparr>) = text_of w" "text_of (w\<lparr>cw_large := l\<rparr>) = text_of w"
  "text_of (w\<lparr>cw_fm := f\<rparr>) = text_of w"
  by (simp_all add: text_of_def)

interpretation wording: outside_frame "\<lambda>e x. env_ok e" at_text
  by unfold_locales (simp_all add: at_text_def env_more [where part = text_of, OF _ text_of_more] text_updates)

lemma text_base_prepare: "env_ok e \<Longrightarrow> keeps (at_text x) (base_prepare e c)"
  by (auto simp: base_prepare_def my_sid_input_def upd_place_def upd_me_def at_text_def text_of_def
      intro!: keeps_intros split: inst_class.splits)

lemma prepare_run_shell_text:
  assumes "env_ok e" "prepare_run_shell e s c w = (Inr c', w')"
  shows "\<exists>x. in_class (bw_self w') = Run_Shell s x \<and> in_options_str (bw_self w') = in_options_str (bw_self w)"
proof -
  obtain x where "base_prepare e c (w\<lparr>bw_self := (bw_self w)\<lparr>in_class := Run_Shell s (Some x)\<rparr>\<rparr>) = (Inr c', w')"
    using assms(2) by (auto simp: prepare_run_shell_def my_image_def me_def set_class_def upd_me_def io_simps)
  from keepsD [OF text_base_prepare [OF assms(1)] _ this] show ?thesis by (simp add: at_text_def text_of_def)
qed

definition run_text :: "force_mode \<Rightarrow> string \<Rightarrow> string" where
  "run_text mode c = str_name mode (Run_Shell c None) @ '' '' @ c"

lemma process_inl:
  assumes "prepare e t (bw_miss_ct w) w = (Inl x, w0)" "process e t w = (Inr (), w')"
  shows "x = Instruction_Ignored"
proof -
  have "prepare_announced e t w = (Inl x, w0)" using assms(1) by (simp add: prepare_announced_def io_run)
  with assms(2) show ?thesis by (auto simp: process_def io_simps split: if_splits)
qed

definition run_input :: "force_mode \<Rightarrow> string \<Rightarrow> sid_input" where
  "run_input mode c = Bytes_Input (encode_utf8 (run_text mode c))"

text \<open>One RUN node: what is announced, and the state ID reached\<close>

lemma visit_run:
  assumes ok: "env_ok e" "be_cls e \<noteq> Disabled_Cache" "be_walk e = subtrees" and st: "stage_of w st"
    and r: "visit e (Tree ''run_shell'' [Token ''LINE_CHUNK'' c]) w = (Inr (), w')"
  obtains st' a where "st_sid st' = from_parent (ce_md5 (be_cache e)) (st_sid st) (run_input (bo_force (be_opts e)) c)"
    "stage_of w' st'" "bw_log w' = bw_log w @ [a]" "an_text a = run_text (bo_force (be_opts e)) c"
proof -
  let ?t = "Tree ''run_shell'' [Token ''LINE_CHUNK'' c]"
  from st obtain p where p: "bw_inst_prev w = Some p" "pl_sid (in_place p) = Some (st_sid st)"
    by (auto simp: stage_of_def)
  obtain i where i: "make_inst e ?t w = (Inr (Some i), w)" "in_class i = Run_Shell c None" "in_options_str i = []"
    "\<not> in_announced i" "\<not> in_own_parent i"
    using ok(3) by (simp add: node_simps options_text_def)
  let ?w = "w\<lparr>bw_self := init_inst (bw_inst_prev w) i\<rparr>"
  have pl: "plain_class (in_class (bw_self ?w))" using i(2) by (simp add: init_inst_def split: option.split)
  have P: "process e ?t ?w = (Inr (), w')"
    using r i(1) by (auto simp: visit_def io_simps)
  have s: "in_class (bw_self ?w) = Run_Shell c None" "in_options_str (bw_self ?w) = []" "\<not> in_announced (bw_self ?w)"
    "\<not> in_own_parent (bw_self ?w)" "in_parent (bw_self ?w) = Some (in_place p)"
    using i p by (simp_all add: init_inst_def)
  have pr: "prepare e ?t d ?w = prepare_run_shell e c d ?w" for d
    using s(1) by (simp add: prepare_def me_def io_run)
  obtain q w0 where q: "prepare e ?t (bw_miss_ct ?w) ?w = (q, w0)" by fastforce
  have "q \<noteq> Inl Instruction_Ignored"
    using q never_run_shell [of e c "bw_miss_ct ?w"] unfolding pr never_ignored_def by (metis fst_conv)
  moreover have "q = Inl x \<Longrightarrow> x = Instruction_Ignored" for x
    using process_inl [OF _ P] q by simp
  ultimately obtain c' where c': "prepare e ?t (bw_miss_ct ?w) ?w = (Inr c', w0)" using q by (cases q) auto
  then obtain x where x: "in_class (bw_self w0) = Run_Shell c x" "in_options_str (bw_self w0) = []"
    using prepare_run_shell_text [OF ok(1) c' [unfolded pr]] s(2) by auto
  have "inst_str (bo_force (be_opts e)) (bw_md w0) (bw_self w0) = Inr tx \<Longrightarrow>
      tx = run_text (bo_force (be_opts e)) c" for tx
    using x by (auto simp: inst_str_def inst_text_def run_text_def res_simps str_name_def)
  moreover have "sid_input_of (bw_self w0) tx = encode_utf8 tx" for tx using x by (simp add: sid_input_of_def)
  ultimately obtain a b where a: "bw_log w' = bw_log ?w @ [a]" "an_text a = run_text (bo_force (be_opts e)) c"
    and ev: "after_event (ce_md5 (be_cache e)) (st_sid st) ?w (Done b (run_text (bo_force (be_opts e)) c)
        (encode_utf8 (run_text (bo_force (be_opts e)) c))) w'"
    using process_done [OF ok(1,2) P pl s(4,3,5) p(2) c'] by metis
  have "stage_of ?w st" using st by (simp add: stage_of_def)
  from stage_of_after [OF this ev] obtain st'
    where st': "stage_step (ce_md5 (be_cache e)) st (Done b (run_text (bo_force (be_opts e)) c) (encode_utf8 (run_text (bo_force (be_opts e)) c))) st'"
      "stage_of w' st'" .
  show ?thesis by (rule that [OF _ st'(2) _ a(2)]) (use st'(1) a(1) in \<open>auto elim!: doneE simp: run_input_def\<close>)
qed

text \<open>The nodes that stand for the commands, as they are visited\<close>

definition run_nodes :: "string list \<Rightarrow> tree list" where
  "run_nodes cmds = concat (map (subtrees \<circ> run_node) cmds)"

lemma run_nodes_simps [simp]:
  "run_nodes [] = []"
  "run_nodes (c # cmds) = run_node c # Tree ''run_shell'' [Token ''LINE_CHUNK'' c] # run_nodes cmds"
  by (simp_all add: run_nodes_def run_node_def)

lemma visit_run_node: "be_walk e = subtrees \<Longrightarrow> visit e (run_node c) w = (Inr (), w)"
  by (simp add: visit_def run_node_def node_simps)

lemma visits_runs:
  assumes "env_ok e" "be_cls e \<noteq> Disabled_Cache" "be_walk e = subtrees"
  shows "stage_of w st \<Longrightarrow> seqio (map (visit e) (run_nodes cmds)) w = (Inr (), w') \<Longrightarrow>
    \<exists>as st'. bw_log w' = bw_log w @ as \<and> map an_text as = map (run_text (bo_force (be_opts e))) cmds \<and> stage_of w' st' \<and>
      st_sid st' = chain_sid (ce_md5 (be_cache e)) (st_sid st) (map (run_input (bo_force (be_opts e))) cmds)"
proof (induction cmds arbitrary: w st)
  case Nil
  then show ?case by (auto simp: ret_Inr)
next
  case (Cons c cmds)
  from Cons.prems(2) obtain w1 where v: "visit e (Tree ''run_shell'' [Token ''LINE_CHUNK'' c]) w = (Inr (), w1)"
    "seqio (map (visit e) (run_nodes cmds)) w1 = (Inr (), w')"
    by (auto simp: thenio_Inr visit_run_node [OF assms(3)])
  obtain st1 a where a: "st_sid st1 = from_parent (ce_md5 (be_cache e)) (st_sid st) (run_input (bo_force (be_opts e)) c)"
    "stage_of w1 st1" "bw_log w1 = bw_log w @ [a]" "an_text a = run_text (bo_force (be_opts e)) c"
    by (rule visit_run [OF assms Cons.prems(1) v(1)])
  from Cons.IH [OF a(2) v(2)] obtain as st' where "bw_log w' = bw_log w1 @ as" "map an_text as = map (run_text (bo_force (be_opts e))) cmds"
    "stage_of w' st'" "st_sid st' = chain_sid (ce_md5 (be_cache e)) (st_sid st1) (map (run_input (bo_force (be_opts e))) cmds)"
    by blast
  with a show ?case by (intro exI [of _ "a # as"] exI [of _ st']) simp
qed

text \<open>
  C26: The commands given to \<open>modify\<close> are what identifies its result: after its RUN nodes are
  built, one line \<open>RUN\<close> per command was announced, in order, and the state ID is the chain of
  the state ID before with exactly these lines, whatever the commands do.
\<close>

theorem modify_state_id:
  assumes "env_ok e" "be_cls e \<noteq> Disabled_Cache" "be_walk e = subtrees" "stage_of w st"
    and "seqio (map (visit e) (run_nodes cmds)) w = (Inr (), w')"
  shows "\<exists>as p. bw_log w' = bw_log w @ as \<and> map an_text as = map (run_text (bo_force (be_opts e))) cmds \<and>
    bw_inst_prev w' = Some p \<and> pl_sid (in_place p) = Some (chain_sid (ce_md5 (be_cache e)) (st_sid st)
      (map (run_input (bo_force (be_opts e))) cmds))"
  using visits_runs [OF assms(1-3) assms(4,5)] by (auto simp: stage_of_def)

text \<open>In the example every commit is in the cache, so the commands are not run.\<close>

lemma example_modify_run: "run_gives (seqio (map (visit (example_build_env True)) (run_nodes [''true'', ''ls'']))) example_bworld
     (\<lambda>w. map an_text (bw_log w) = [''RUN.N true'', ''RUN.N ls''])"
  by code_simp

lemma modify_state_id_witness:
  "\<exists>p. bw_inst_prev (snd (seqio (map (visit (example_build_env True)) (run_nodes [''true'', ''ls''])) example_bworld)) = Some p \<and>
     pl_sid (in_place p) = Some (chain_sid (\<lambda>b. b) root_id (map (Bytes_Input \<circ> encode_utf8) [''RUN.N true'', ''RUN.N ls'']))"
proof (rule run_givesE [OF example_modify_run])
  fix w' assume r: "seqio (map (visit (example_build_env True)) (run_nodes [''true'', ''ls''])) example_bworld = (Inr (), w')"
  have "be_walk (example_build_env True) = subtrees" "bo_force (be_opts (example_build_env True)) = Force_None"
    by (simp_all add: example_build_env_def)
  with modify_state_id [OF example_env_ok example_cls _ example_stage r] show ?thesis
    by (simp add: r example_fields run_input_def run_text_def str_name_def del: run_nodes_simps)
qed

section \<open>Choosing the mode\<close>

text \<open>Whatever is given, at most one mode fits; conflicting options are fatal.\<close>

lemma choose_mode_spec:
  "choose_mode cs script i tty stdin tmp = Inr (m, s) \<longleftrightarrow>
     (case m of
        Command_Seq \<Rightarrow> cs \<noteq> [] \<and> \<not> i \<and> script = None \<and> s = None
      | Interactive \<Rightarrow> cs = [] \<and> script = None \<and> (tty \<or> i) \<and> s = None
      | Script \<Rightarrow> cs = [] \<and> \<not> i \<and> (script \<noteq> None \<and> s = script \<or>
          script = None \<and> \<not> tty \<and> s = Some tmp \<and> (\<exists>text. stdin = Inr text \<and> text \<noteq> [])))"
  by (auto simp: choose_mode_def res_simps guard_def split: modify_mode.split if_splits)

lemma modify_main_conflict:
  assumes "cli_process_common env feature (mo_common c) = Inr r" "mo_c c \<noteq> [] \<Longrightarrow> concat (mo_c c) \<noteq> []"
    and "mo_c c \<noteq> [] \<and> (mo_interactive c \<or> mo_script c \<noteq> None) \<or> mo_script c \<noteq> None \<and> mo_interactive c \<or> mo_out_image c = mo_image_ref c"
    and "modify_main e0 env_of env feature tty stdin tmp sid c w = (q, w')"
  shows "stored w' = stored w \<and> (\<exists>x. q = Inl x)"
proof -
  obtain force cmds args where r: "r = (force, cmds, args)" by (cases r)
  have "\<not> choose_mode (concat (mo_c c)) (mo_script c) (mo_interactive c) tty stdin tmp = Inr ms" if "mo_out_image c \<noteq> mo_image_ref c" for ms
    using assms(2,3) that choose_mode_spec [of _ "mo_script c" "mo_interactive c" tty stdin tmp "fst ms" "snd ms"]
    by (auto split: modify_mode.splits)
  then show ?thesis using assms(1,4)
    by (auto simp: modify_main_def r io_run stored_def unpack_exist_p_def Let_def split: sum.splits if_splits)
qed

end
