(* ===== verification/Worktrees.thy ===== *)
theory Worktrees
  imports Storage
begin

text \<open>
  \<open>Enabled_Cache.worktrees_fix\<close> of \<open>lib/build_cache.py\<close> on the tree of files: which images say
  they are working trees (a link file in them), which ones the repository knows (a directory
  below \<open>worktrees\<close>), and bringing the two together. \<open>r\<close> is the path of the storage directory
  in parts, \<open>rt\<close> the same as a string. The patterns of \<open>glob\<close> do not match names that begin
  with a dot, and directories that are links are not looked into here. Sets are lists; the
  element that \<open>next\<close> gives is an argument. At the end, what the repair achieves.
\<close>

section \<open>The two sides\<close>

definition dir_names :: "node \<Rightarrow> string list \<Rightarrow> string list" where
  "dir_names n p = (case node_at n p of Some (Dir m es) \<Rightarrow> map fst es | _ \<Rightarrow> [])"

definition glob_star :: "string list \<Rightarrow> string list" where
  "glob_star xs = filter (\<lambda>x. \<not> prefix ''.'' x) xs"

definition image_link :: "string list \<Rightarrow> string \<Rightarrow> string list" where
  "image_link r d = r @ [n_unpack_base, d, ''ch'', ''git'']"

definition repo_worktrees :: "string list \<Rightarrow> string list" where
  "repo_worktrees r = r @ [n_build_cache, ''worktrees'']"

definition repo_gitdir :: "string list \<Rightarrow> string \<Rightarrow> string list" where
  "repo_gitdir r d = r @ [n_build_cache, ''worktrees'', d, ''gitdir'']"

definition wt_actuals :: "string list \<Rightarrow> node \<Rightarrow> string list" where
  "wt_actuals r n = filter (\<lambda>d. node_at n (image_link r d) \<noteq> None) (glob_star (dir_names n (r @ [n_unpack_base])))"

definition wt_gits :: "string list \<Rightarrow> node \<Rightarrow> string list" where
  "wt_gits r n = glob_star (dir_names n (repo_worktrees r))"

section \<open>The repair\<close>

text \<open>The texts of the two pointers\<close>

definition link_text :: "path \<Rightarrow> string \<Rightarrow> string" where
  "link_text rt d = ''gitdir: '' @ floordiv (floordiv (floordiv rt n_build_cache) ''worktrees'') d @ [newline]"

definition gitdir_text :: "path \<Rightarrow> string \<Rightarrow> string" where
  "gitdir_text rt d = floordiv (floordiv (floordiv rt n_unpack_base) d) ''ch/git'' @ [newline]"

definition repair_paths :: "string list \<Rightarrow> path \<Rightarrow> string \<Rightarrow> unit fio" where
  "repair_paths r rt d =
     thenio (change (\<lambda>n. file_write (link_text rt d) n (image_link r d)))
       (change (\<lambda>n. file_write (gitdir_text rt d) n (repo_gitdir r d)))"

definition worktrees_fix :: "(string list \<Rightarrow> string) \<Rightarrow> string list \<Rightarrow> path \<Rightarrow> unit fio" where
  "worktrees_fix pick r rt =
     bindio (gets (wt_actuals r)) (\<lambda>actuals.
     bindio (gets (wt_gits r)) (\<lambda>gits.
     let orphaned = filter (\<lambda>d. d \<notin> set gits) actuals;
         actuals = filter (\<lambda>d. d \<in> set gits) actuals;
         deleted = filter (\<lambda>d. d \<notin> set actuals) gits;
         gits = filter (\<lambda>d. d \<in> set actuals) gits
     in
       thenio (seqio (map (\<lambda>d. change (\<lambda>n. unlink False n (image_link r d))) orphaned))
       (thenio (seqio (map (\<lambda>d. change (\<lambda>n. rmtree n (repo_worktrees r @ [d]))) deleted))
       (thenio (check (set gits = set actuals) (Fatal ''build cache is desynchronized, cannot proceed''))
         (whenio (gits \<noteq> [])
           (bindio (look (\<lambda>n. file_read_all n (repo_gitdir r (pick gits)))) (\<lambda>stored.
              whenio (\<not> is_relative_to (Path [stored]) rt) (seqio (map (repair_paths r rt) actuals)))))))))"

section \<open>What changes where\<close>

lemma dir_names_deeper:
  "node_alter x f n (p @ c # d # ds) = Inr n' \<Longrightarrow> dir_names n' p = dir_names n p"
proof (induction p arbitrary: n n')
  case Nil
  obtain m es where n: "n = Dir m es" using Nil by (cases n) auto
  with Nil obtain k k' where "map_of es c = Some k" "n' = Dir m (AList.update c k' es)"
    by (auto simp: res_simps split: option.splits)
  then show ?case using n map_of_SomeD [of es c k] by (force simp: dir_names_def update_keys)
next
  case (Cons b p)
  obtain m es where n: "n = Dir m es" using Cons.prems by (cases n; cases p) auto
  obtain k k' where k: "map_of es b = Some k" "node_alter x f k (p @ c # d # ds) = Inr k'" "n' = Dir m (AList.update b k' es)"
    using Cons.prems n by (cases p) (auto simp: res_simps split: option.splits)
  from Cons.IH [OF k(2)] k n show ?case by (simp add: dir_names_def update_conv')
qed

lemma dir_names_other:
  "node_alter x f n q = Inr n' \<Longrightarrow> \<not> prefix p q \<Longrightarrow> \<not> prefix q p \<Longrightarrow> dir_names n' p = dir_names n p"
  using node_alter_other [of x f n q n' p] by (simp add: dir_names_def)

lemma dir_names_removed:
  "node_alter x (\<lambda>_. None) n (p @ [c]) = Inr n' \<Longrightarrow> dir_names n' p = removeAll c (dir_names n p)"
  using node_alter_parent [of x "\<lambda>_. None" n p c n'] by (auto simp: dir_names_def delete_keys)

text \<open>The operations as changes of one path\<close>

lemma unlink_alters: "unlink False n p = Inr n' \<Longrightarrow> \<exists>x. node_alter x (\<lambda>_. None) n p = Inr n'"
  by (auto simp: unlink_def res_simps)

lemma rmtree_alters: "rmtree n p = Inr n' \<Longrightarrow> \<exists>x. node_alter x (\<lambda>_. None) n p = Inr n'"
  by (auto simp: rmtree_def res_simps)

lemmas names_simps = n_unpack_base_def n_build_cache_def

text \<open>The images and the repository are in different places.\<close>

lemma places_apart [simp]:
  "\<not> prefix (image_link r d) (repo_worktrees r @ q)" "\<not> prefix (repo_worktrees r @ q) (image_link r d)"
  "\<not> prefix (image_link r d) (repo_worktrees r)" "\<not> prefix (repo_worktrees r) (image_link r d)"
  "\<not> prefix (r @ [n_unpack_base]) (repo_worktrees r @ q)" "\<not> prefix (repo_worktrees r @ q) (r @ [n_unpack_base])"
  by (auto simp: image_link_def repo_worktrees_def names_simps prefix_def)

lemma links_apart [simp]:
  "c \<noteq> d \<Longrightarrow> \<not> prefix (image_link r c) (image_link r d)"
  by (auto simp: image_link_def prefix_def)

lemma alter_link:
  assumes "node_alter x f n (image_link r d) = Inr n'"
  shows "dir_names n' (r @ [n_unpack_base]) = dir_names n (r @ [n_unpack_base])" "wt_gits r n' = wt_gits r n"
    "c \<noteq> d \<Longrightarrow> node_at n' (image_link r c) = node_at n (image_link r c)"
  using assms dir_names_deeper [of x f n "r @ [n_unpack_base]" d "''ch''" "[''git'']" n']
    dir_names_other [OF assms, of "repo_worktrees r"] node_alter_other [OF assms, of "image_link r c"]
  by (simp_all add: image_link_def [of r d, symmetric] wt_gits_def)

lemma not_below_repo [simp]: "\<not> prefix (repo_worktrees r @ q) r"
  by (auto simp: repo_worktrees_def prefix_def)

lemma alter_repo:
  assumes "node_alter x f n (repo_worktrees r @ q) = Inr n'"
  shows "wt_actuals r n' = wt_actuals r n"
proof -
  have "repo_worktrees r @ q \<noteq> r @ [n_unpack_base]" by (auto simp: repo_worktrees_def names_simps)
  then show ?thesis
    using dir_names_other [OF assms, of "r @ [n_unpack_base]"] node_alter_other [OF assms]
    by (simp add: wt_actuals_def)
qed

section \<open>The steps on sets\<close>

lemma unlinks_sets:
  "seqio (map (\<lambda>d. change (\<lambda>n. unlink False n (image_link r d))) ds) n = (Inr (), n') \<Longrightarrow>
     set (wt_actuals r n') = set (wt_actuals r n) - set ds \<and> wt_gits r n' = wt_gits r n"
proof (induction ds arbitrary: n)
  case (Cons d ds)
  then obtain n1 where u: "unlink False n (image_link r d) = Inr n1"
    and s: "seqio (map (\<lambda>d. change (\<lambda>n. unlink False n (image_link r d))) ds) n1 = (Inr (), n')"
    by (auto simp: io_simps)
  from unlink_alters [OF u] obtain x where a: "node_alter x (\<lambda>_. None) n (image_link r d) = Inr n1" by blast
  have "node_at n1 (image_link r c) = (if c = d then None else node_at n (image_link r c))" for c
    using alter_link(3) [OF a] node_alter_same [OF a] by simp
  then have "set (wt_actuals r n1) = set (wt_actuals r n) - {d}"
    using alter_link(1) [OF a] by (auto simp: wt_actuals_def)
  with Cons.IH [OF s] alter_link(2) [OF a] show ?case by auto
qed (simp add: ret_Inr)

lemma rmtrees_sets:
  "seqio (map (\<lambda>d. change (\<lambda>n. rmtree n (repo_worktrees r @ [d]))) ds) n = (Inr (), n') \<Longrightarrow>
     wt_actuals r n' = wt_actuals r n \<and> set (wt_gits r n') = set (wt_gits r n) - set ds"
proof (induction ds arbitrary: n)
  case (Cons d ds)
  then obtain n1 where u: "rmtree n (repo_worktrees r @ [d]) = Inr n1"
    and s: "seqio (map (\<lambda>d. change (\<lambda>n. rmtree n (repo_worktrees r @ [d]))) ds) n1 = (Inr (), n')"
    by (auto simp: io_simps)
  from rmtree_alters [OF u] obtain x where a: "node_alter x (\<lambda>_. None) n (repo_worktrees r @ [d]) = Inr n1" by blast
  have "set (wt_gits r n1) = set (wt_gits r n) - {d}"
    using dir_names_removed [OF a] by (auto simp: wt_gits_def glob_star_def)
  with Cons.IH [OF s] alter_repo [OF a] show ?case by auto
qed (simp add: ret_Inr)

lemma repair_sets:
  assumes "repair_paths r rt d n = (Inr (), n')"
  shows "set (wt_actuals r n') = set (wt_actuals r n) \<union> ({d} \<inter> set (glob_star (dir_names n (r @ [n_unpack_base]))))"
    and "wt_gits r n' = wt_gits r n"
proof -
  from assms obtain n1 where w: "file_write (link_text rt d) n (image_link r d) = Inr n1"
    "file_write (gitdir_text rt d) n1 (repo_gitdir r d) = Inr n'"
    by (auto simp: repair_paths_def io_simps)
  from file_write_alters [OF w(1)] obtain x y where a: "node_alter x (\<lambda>_. Some y) n (image_link r d) = Inr n1" by blast
  from file_write_alters [OF w(2)] obtain u v where b: "node_alter u (\<lambda>_. Some v) n1 (repo_worktrees r @ [d, ''gitdir'']) = Inr n'"
    by (auto simp: repo_gitdir_def repo_worktrees_def)
  have "node_at n1 (image_link r c) = (if c = d then Some y else node_at n (image_link r c))" for c
    using alter_link(3) [OF a] node_alter_same [OF a] by simp
  then have "set (wt_actuals r n1) = set (wt_actuals r n) \<union> ({d} \<inter> set (glob_star (dir_names n (r @ [n_unpack_base]))))"
    using alter_link(1) [OF a] by (auto simp: wt_actuals_def)
  then show "set (wt_actuals r n') = set (wt_actuals r n) \<union> ({d} \<inter> set (glob_star (dir_names n (r @ [n_unpack_base]))))"
    using alter_repo [OF b] by simp
  show "wt_gits r n' = wt_gits r n"
    using alter_link(2) [OF a] dir_names_deeper [OF b] by (simp add: wt_gits_def)
qed

lemma repairs_sets:
  "seqio (map (repair_paths r rt) ds) n = (Inr (), n') \<Longrightarrow> set ds \<subseteq> set (wt_actuals r n) \<Longrightarrow>
     set (wt_actuals r n') = set (wt_actuals r n) \<and> wt_gits r n' = wt_gits r n"
proof (induction ds arbitrary: n)
  case (Cons d ds)
  then obtain n1 where p: "repair_paths r rt d n = (Inr (), n1)" and s: "seqio (map (repair_paths r rt) ds) n1 = (Inr (), n')"
    by (auto simp: thenio_Inr)
  have "set (wt_actuals r n1) = set (wt_actuals r n)" using repair_sets(1) [OF p] Cons.prems(2) by auto
  with Cons.IH [OF s] Cons.prems(2) repair_sets(2) [OF p] show ?case by auto
qed (simp add: ret_Inr)

text \<open>What the repair does, on sets\<close>

lemma worktrees_fix_sets:
  assumes "worktrees_fix pick r rt n = (Inr (), n')"
  shows "set (wt_actuals r n') = set (wt_actuals r n) \<inter> set (wt_gits r n) \<and>
    set (wt_gits r n') = set (wt_actuals r n) \<inter> set (wt_gits r n)"
proof -
  let ?A = "filter (\<lambda>d. d \<in> set (wt_gits r n)) (wt_actuals r n)"
  let ?D = "filter (\<lambda>d. d \<notin> set ?A) (wt_gits r n)" and ?O = "filter (\<lambda>d. d \<notin> set (wt_gits r n)) (wt_actuals r n)"
  from assms obtain n1 n2 where o: "seqio (map (\<lambda>d. change (\<lambda>n. unlink False n (image_link r d))) ?O) n = (Inr (), n1)"
    and d: "seqio (map (\<lambda>d. change (\<lambda>n. rmtree n (repo_worktrees r @ [d]))) ?D) n1 = (Inr (), n2)"
    and e: "n' = n2 \<or> seqio (map (repair_paths r rt) ?A) n2 = (Inr (), n')"
    unfolding worktrees_fix_def Let_def
    by (auto simp: bindio_Inr thenio_Inr gets_Inr check_Inr whenio_Inr look_Inr split: if_splits)
  have a: "set (wt_actuals r n2) = set ?A" "set (wt_gits r n2) = set ?A"
    using unlinks_sets [OF o] rmtrees_sets [OF d] by auto
  from e have "set (wt_actuals r n') = set ?A \<and> set (wt_gits r n') = set ?A"
  proof
    assume "seqio (map (repair_paths r rt) ?A) n2 = (Inr (), n')"
    from repairs_sets [OF this] a show ?thesis by simp
  qed (use a in simp)
  then show ?thesis by auto
qed

section \<open>The pointers\<close>

lemma gitdirs_apart [simp]: "c \<noteq> d \<Longrightarrow> \<not> prefix (repo_gitdir r c) (repo_gitdir r d)"
  "c \<noteq> d \<Longrightarrow> \<not> prefix (repo_worktrees r @ [c]) (repo_gitdir r d)"
  "\<not> prefix (repo_gitdir r d) (repo_worktrees r @ [c])"
  "\<not> prefix (image_link r c) (repo_gitdir r d)" "\<not> prefix (repo_gitdir r d) (image_link r c)"
  by (auto simp: repo_gitdir_def repo_worktrees_def image_link_def names_simps prefix_def)

lemma unlinks_gitdir:
  "seqio (map (\<lambda>d. change (\<lambda>n. unlink False n (image_link r d))) ds) n = (Inr (), n') \<Longrightarrow>
     node_at n' (repo_gitdir r c) = node_at n (repo_gitdir r c)"
proof (induction ds arbitrary: n)
  case (Cons d ds)
  then obtain n1 where u: "unlink False n (image_link r d) = Inr n1"
    and s: "seqio (map (\<lambda>d. change (\<lambda>n. unlink False n (image_link r d))) ds) n1 = (Inr (), n')"
    by (auto simp: io_simps)
  from unlink_alters [OF u] obtain x where "node_alter x (\<lambda>_. None) n (image_link r d) = Inr n1" by blast
  from node_alter_other [OF this, of "repo_gitdir r c"] Cons.IH [OF s] show ?case by simp
qed (simp add: ret_Inr)

lemma rmtrees_gitdir:
  "seqio (map (\<lambda>d. change (\<lambda>n. rmtree n (repo_worktrees r @ [d]))) ds) n = (Inr (), n') \<Longrightarrow> c \<notin> set ds \<Longrightarrow>
     node_at n' (repo_gitdir r c) = node_at n (repo_gitdir r c)"
proof (induction ds arbitrary: n)
  case (Cons d ds)
  then obtain n1 where u: "rmtree n (repo_worktrees r @ [d]) = Inr n1"
    and s: "seqio (map (\<lambda>d. change (\<lambda>n. rmtree n (repo_worktrees r @ [d]))) ds) n1 = (Inr (), n')"
    by (auto simp: io_simps)
  from rmtree_alters [OF u] obtain x where a: "node_alter x (\<lambda>_. None) n (repo_worktrees r @ [d]) = Inr n1" by blast
  have "node_at n1 (repo_gitdir r c) = node_at n (repo_gitdir r c)"
    using Cons.prems(2) by (intro node_alter_other [OF a] gitdirs_apart) auto
  with Cons.IH [OF s] Cons.prems(2) show ?case by simp
qed (simp add: ret_Inr)

definition pointers_at :: "string list \<Rightarrow> string \<Rightarrow> node \<Rightarrow> node option \<times> node option" where
  "pointers_at r d n = (node_at n (image_link r d), node_at n (repo_gitdir r d))"

lemma repair_pointers:
  assumes "repair_paths r rt d n = (Inr (), n')"
  shows "c \<noteq> d \<Longrightarrow> pointers_at r c n' = pointers_at r c n"
    and "file_read_all n' (image_link r d) = Inr (link_text rt d) \<and> file_read_all n' (repo_gitdir r d) = Inr (gitdir_text rt d)"
proof -
  from assms obtain n1 where w: "file_write (link_text rt d) n (image_link r d) = Inr n1"
    "file_write (gitdir_text rt d) n1 (repo_gitdir r d) = Inr n'"
    by (auto simp: repair_paths_def io_simps)
  from file_write_alters [OF w(1)] obtain x y where a: "node_alter x (\<lambda>_. Some y) n (image_link r d) = Inr n1" by blast
  from file_write_alters [OF w(2)] obtain u v where b: "node_alter u (\<lambda>_. Some v) n1 (repo_gitdir r d) = Inr n'" by blast
  show "pointers_at r c n' = pointers_at r c n" if "c \<noteq> d"
    using node_alter_other [OF a] node_alter_other [OF b] that by (simp add: pointers_at_def)
  have "node_at n' (image_link r d) = node_at n1 (image_link r d)" by (rule node_alter_other [OF b]) simp_all
  with file_write_at [OF w(1)] file_write_at [OF w(2)]
  show "file_read_all n' (image_link r d) = Inr (link_text rt d) \<and> file_read_all n' (repo_gitdir r d) = Inr (gitdir_text rt d)"
    by (auto simp: file_read_at)
qed

lemma repairs_pointers:
  "seqio (map (repair_paths r rt) ds) n = (Inr (), n') \<Longrightarrow>
     (\<forall>d \<in> set ds. file_read_all n' (image_link r d) = Inr (link_text rt d) \<and> file_read_all n' (repo_gitdir r d) = Inr (gitdir_text rt d))
     \<and> (\<forall>c. c \<notin> set ds \<longrightarrow> pointers_at r c n' = pointers_at r c n)"
proof (induction ds arbitrary: n)
  case (Cons d ds)
  then obtain n1 where p: "repair_paths r rt d n = (Inr (), n1)" and s: "seqio (map (repair_paths r rt) ds) n1 = (Inr (), n')"
    by (auto simp: thenio_Inr)
  note IH = Cons.IH [OF s]
  have "file_read_all n' (image_link r d) = Inr (link_text rt d) \<and> file_read_all n' (repo_gitdir r d) = Inr (gitdir_text rt d)"
  proof (cases "d \<in> set ds")
    case False
    with IH have "pointers_at r d n' = pointers_at r d n1" by blast
    with repair_pointers(2) [OF p] show ?thesis by (simp add: pointers_at_def file_read_at)
  qed (use IH in blast)
  with IH repair_pointers(1) [OF p] show ?case by simp
qed (simp add: ret_Inr)

text \<open>
  C24: After the repair, the images that are marked as working trees are those the repository
  knows as such, and the other way around: those that were both before. Nothing else is
  marked or known.
\<close>

theorem worktrees_synchronized:
  assumes "worktrees_fix pick r rt n = (Inr (), n')"
  shows "set (wt_actuals r n') = set (wt_gits r n') \<and> set (wt_gits r n') = set (wt_actuals r n) \<inter> set (wt_gits r n)"
  using worktrees_fix_sets [OF assms] by simp

text \<open>
  C25: If the storage directory was moved, so that no pointer the repository has leads into
  it, then after the repair the pointers of every working tree, in both directions, lead to
  where image and repository are now.
\<close>

theorem worktrees_relinked:
  assumes "worktrees_fix pick r rt n = (Inr (), n')" "\<forall>xs. xs \<noteq> [] \<longrightarrow> pick xs \<in> set xs"
    and "\<forall>d \<in> set (wt_gits r n). \<forall>s. file_read_all n (repo_gitdir r d) = Inr s \<longrightarrow> \<not> is_relative_to (Path [s]) rt"
    and "d \<in> set (wt_actuals r n')"
  shows "file_read_all n' (image_link r d) = Inr (link_text rt d) \<and> file_read_all n' (repo_gitdir r d) = Inr (gitdir_text rt d)"
proof -
  let ?A = "filter (\<lambda>d. d \<in> set (wt_gits r n)) (wt_actuals r n)"
  let ?D = "filter (\<lambda>d. d \<notin> set ?A) (wt_gits r n)" and ?O = "filter (\<lambda>d. d \<notin> set (wt_gits r n)) (wt_actuals r n)"
  let ?G = "filter (\<lambda>d. d \<in> set ?A) (wt_gits r n)"
  have d: "d \<in> set ?A" "?G \<noteq> []" using worktrees_fix_sets [OF assms(1)] assms(4) by (auto simp: filter_empty_conv)
  from assms(1) d(2) obtain n1 n2 s where o: "seqio (map (\<lambda>d. change (\<lambda>n. unlink False n (image_link r d))) ?O) n = (Inr (), n1)"
    and D: "seqio (map (\<lambda>d. change (\<lambda>n. rmtree n (repo_worktrees r @ [d]))) ?D) n1 = (Inr (), n2)"
    and s: "file_read_all n2 (repo_gitdir r (pick ?G)) = Inr s"
    and w: "whenio (\<not> is_relative_to (Path [s]) rt) (seqio (map (repair_paths r rt) ?A)) n2 = (Inr (), n')"
    unfolding worktrees_fix_def Let_def
    by (auto simp: bindio_Inr thenio_Inr gets_Inr check_Inr look_Inr whenio_Inr simp del: filter_False set_filter)
  have p: "pick ?G \<in> set ?G" using assms(2) d(2) by blast
  then have "pick ?G \<notin> set ?D" by auto
  then have "node_at n2 (repo_gitdir r (pick ?G)) = node_at n (repo_gitdir r (pick ?G))"
    using unlinks_gitdir [OF o] rmtrees_gitdir [OF D] by simp
  with s have "file_read_all n (repo_gitdir r (pick ?G)) = Inr s" by (simp add: file_read_at)
  with assms(3) p have "\<not> is_relative_to (Path [s]) rt" by auto
  with w have "seqio (map (repair_paths r rt) ?A) n2 = (Inr (), n')" by (simp add: whenio_Inr)
  from repairs_pointers [OF this] d(1) show ?thesis by blast
qed

section \<open>A storage directory that was moved\<close>

definition example_moved :: node where
  "example_moved = (let d = (\<lambda>es. Dir (node_meta new_dir) es); f = new_file in
     d [(''s'', d [(''img'', d [(''a'', d [(''ch'', d [(''git'', f ''old'')])]), (''b'', d [(''ch'', d [(''git'', f ''old'')])]), (''c'', d [])]),
       (''bucache'', d [(''worktrees'', d [(''a'', d [(''gitdir'', f ''/old/img/a/ch/git'')]), (''c'', d [])])])])])"

lemma example_moved_fixed:
  "case worktrees_fix hd [''s''] ''/s'' example_moved of (r, n) \<Rightarrow>
     is_ok r \<and> wt_actuals [''s''] n = [''a''] \<and> wt_gits [''s''] example_moved = [''a'', ''c'']"
  by code_simp

lemma worktrees_synchronized_witness:
  "set (wt_gits [''s''] (snd (worktrees_fix hd [''s''] ''/s'' example_moved))) = {''a''}"
proof -
  obtain n where n: "worktrees_fix hd [''s''] ''/s'' example_moved = (Inr (), n)" "wt_actuals [''s''] n = [''a'']"
    using example_moved_fixed by (auto split: prod.splits elim!: is_ok.elims)
  with worktrees_synchronized [OF n(1)] show ?thesis by auto
qed

lemma worktrees_relinked_witness:
  "file_read_all (snd (worktrees_fix hd [''s''] ''/s'' example_moved)) [''s'', ''bucache'', ''worktrees'', ''a'', ''gitdir'']
     = Inr (''/s/img/a/ch/git'' @ [newline])"
proof -
  obtain n where n: "worktrees_fix hd [''s''] ''/s'' example_moved = (Inr (), n)" "wt_actuals [''s''] n = [''a'']"
    "wt_gits [''s''] example_moved = [''a'', ''c'']"
    using example_moved_fixed by (auto split: prod.splits elim!: is_ok.elims)
  have "file_read_all example_moved (repo_gitdir [''s''] ''a'') = Inr ''/old/img/a/ch/git''" by code_simp
  moreover have "\<not> is_ok (file_read_all example_moved (repo_gitdir [''s''] ''c''))" by code_simp
  moreover have "\<not> is_relative_to (Path [''/old/img/a/ch/git'']) ''/s''" by code_simp
  ultimately have "\<forall>d \<in> set (wt_gits [''s''] example_moved). \<forall>s. file_read_all example_moved (repo_gitdir [''s''] d) = Inr s \<longrightarrow>
      \<not> is_relative_to (Path [s]) ''/s''"
    by (auto simp: n(3))
  from worktrees_relinked [OF n(1) _ this, of "''a''"] n(2)
  have "file_read_all n (repo_gitdir [''s''] ''a'') = Inr (gitdir_text ''/s'' ''a'')" by simp
  moreover have "gitdir_text ''/s'' ''a'' = ''/s/img/a/ch/git'' @ [newline]" by code_simp
  moreover have "repo_gitdir [''s''] ''a'' = [''s'', ''bucache'', ''worktrees'', ''a'', ''gitdir'']"
    by (simp add: repo_gitdir_def n_build_cache_def)
  ultimately show ?thesis by (simp add: n(1))
qed

end
