(* ===== verification/Upkeep.thy ===== *)
theory Upkeep
  imports Worktrees Cache_Facts
begin

text \<open>
  Upkeep of the build cache (\<open>lib/build_cache.py\<close>): opening it, Git's configuration, upgrading
  old repositories, garbage collection, reset, summary and tree. To the state of \<open>Cache\<close> come
  the files of the repository that the code itself reads or writes. Lemmas: what sorting the
  exported history does, that configuring is complete and idempotent, that garbage collection
  deletes no large file a commit refers to, so that images come back as before, and what a
  reset leaves.
\<close>

section \<open>State\<close>

record 'g uworld = "'g cworld" +
  uw_root :: "node option"       \<comment> \<open>the repository directory: \<open>config\<close>, \<open>info/exclude\<close>, \<open>gc.pid\<close>\<close>
  uw_upgrade :: bool             \<comment> \<open>the file \<open>bucache_needs_ignore_upgrade\<close> of the storage directory\<close>

type_synonym config = "(string, (string, string) dict) dict"

text \<open>
  Git with environment variables, in the repository; the parser and the printer of Python's
  \<open>configparser\<close>; a temporary directory; what the signals to a process give.
\<close>

record 'g upkeep_env =
  up_cache :: "('g, unit uworld_ext) cache_env"
  up_git_env :: "(string \<times> string) list \<Rightarrow> string list \<Rightarrow> 'g uworld \<Rightarrow> (int \<times> string) \<times> 'g uworld"
  up_parse :: "string \<Rightarrow> config res"
  up_print :: "config \<Rightarrow> string"
  up_root :: path
  up_tmp :: path
  up_kill :: "int \<Rightarrow> kill_result \<times> (nat \<Rightarrow> kill_result)"
  up_worktrees_fix :: "('g uworld, unit) io"

type_synonym ('g, 'a) uio = "('g uworld, 'a) io"

definition root_look :: "(node \<Rightarrow> 'a res) \<Rightarrow> ('g, 'a) uio" where
  "root_look f = bindio (gets uw_root) (\<lambda>n. letr (of_opt (Fatal ''can't stat: %s'') n) (\<lambda>n. liftr (f n)))"

definition root_change :: "(node \<Rightarrow> node res) \<Rightarrow> ('g, unit) uio" where
  "root_change f = bindio (root_look f) (\<lambda>n. modify (\<lambda>w. w\<lparr>uw_root := Some n\<rparr>))"

definition git_env :: "'g upkeep_env \<Rightarrow> (string \<times> string) list \<Rightarrow> string list \<Rightarrow> ('g, unit) uio" where
  "git_env e env argv = (\<lambda>w. case up_git_env e env argv w of ((code, out), w') \<Rightarrow>
     if code \<noteq> 0 then (Inl (Fatal ''command failed with code %d: %s''), w') else (Inr (), w'))"

definition git_input :: "'g upkeep_env \<Rightarrow> string list \<Rightarrow> string \<Rightarrow> ('g, unit) uio" where
  "git_input e argv text = (\<lambda>w. case ce_git (up_cache e) None argv (Some text) w of ((code, out), w') \<Rightarrow>
     if code \<noteq> 0 then (Inl (Fatal ''command failed with code %d: %s''), w') else (Inr (), w'))"

section \<open>Configuration\<close>

definition git_config :: "(string, string) dict" where
  "git_config =
     [(''checkout.workers'', ''-1''), (''core.fsync'', ''none''), (''core.logAllRefUpdates'', ''true''),
      (''core.looseCompression'', ''0''), (''core.splitIndex'', ''true''), (''core.trustctime'', ''false''),
      (''core.untrackedCache'', ''true''), (''gc.auto'', ''100000''), (''gc.bigPackThreshold'', ''12G''),
      (''gc.pruneExpire'', ''12.hours.ago''), (''index.version'', ''4''), (''log.decorate'', ''short''),
      (''pack.compression'', ''1''), (''pack.deltaCacheLimit'', ''4096''), (''pack.deltaCacheSize'', ''1G''),
      (''pack.depth'', ''36''), (''pack.window'', ''24''), (''user.email'', ''charlie@localhost''),
      (''user.name'', ''Charlie''), (''user.useConfigOnly'', ''true'')]"

definition config_key :: "string \<Rightarrow> string \<times> string" where
  "config_key k = (case partition_on CHR ''.'' (map to_lower k) of (s, d, o') \<Rightarrow> (s, o'))"

definition config_get :: "config \<Rightarrow> string \<times> string \<Rightarrow> string option" where
  "config_get c k = Option.bind (map_of c (fst k)) (\<lambda>d. map_of d (snd k))"

definition config_set :: "string \<times> string \<Rightarrow> string \<Rightarrow> config \<Rightarrow> config" where
  "config_set k v c =
     AList.update (fst k) (AList.update (snd k) v (case map_of c (fst k) of None \<Rightarrow> [] | Some d \<Rightarrow> d)) c"

definition config_ensure :: "string \<times> string \<Rightarrow> bool \<times> config \<Rightarrow> bool \<times> config" where
  "config_ensure kv ch = (let k = config_key (fst kv) in
     if config_get (snd ch) k = Some (snd kv) then ch else (True, config_set k (snd kv) (snd ch)))"

definition configure_config :: "config \<Rightarrow> bool \<times> config" where
  "configure_config c = fold config_ensure git_config (False, c)"

definition exclude_text :: string where "exclude_text = ''!*'' @ [newline] @ git_dir @ [newline]"

section \<open>Upgrading the history\<close>

text \<open>The commands of a commit in \<open>git fast-export\<close>: a run of lines that match \<open>r"^[DM] "\<close>\<close>

definition data_re :: re where
  "data_re = Seqs [Bol, Cls (\<lambda>c. c = CHR ''D'' \<or> c = CHR ''M''), Lit '' '']"

definition data_p :: "string \<Rightarrow> bool" where "data_p l \<longleftrightarrow> search_p data_re l"

text \<open>Deletions first in each run; if one goes on to the end, the code runs off the list.\<close>

function sort_runs :: "string list \<Rightarrow> string list res" where
  "sort_runs [] = Inr []"
| "sort_runs (l # ls) =
     (if data_p l
      then (let run = l # takeWhile data_p ls; rest = dropWhile data_p ls in
            bindr (guard (rest \<noteq> []) Index_Error) (\<lambda>_. bindr (sort_runs rest) (\<lambda>r. Inr (sort_key hd run @ r))))
      else bindr (sort_runs ls) (\<lambda>r. Inr (l # r)))"
  by pat_completeness auto
termination
  by (relation "measure length") (auto simp: le_imp_less_Suc length_dropWhile_le)

text \<open>\<open>r"^(D|M [0-7]+ [0-9a-f]+) \.(git|weirdal_)ignore$"\<close>, on a line\<close>

definition ignore_re :: re where
  "ignore_re = Seqs [Bol, Grp 1 (Alt (Lit ''D'')
       (Seqs [Lit ''M '', Many1 (Cls (in_range CHR ''0'' CHR ''7'')), Lit '' '',
              Many1 (Cls (\<lambda>c. is_digit c \<or> in_range CHR ''a'' CHR ''f'' c))])),
     Lit '' .'', Grp 2 (Alt (Lit ''git'') (Lit ''weirdal_'')), Lit ''ignore'', Eol]"

definition comment_ignore :: "string \<Rightarrow> string" where
  "comment_ignore l = (if search_p ignore_re l then CHR 0x23 # l else l)"

definition upgrade_text :: "string \<Rightarrow> string res" where
  "upgrade_text text = bindr (sort_runs (split_on newline text)) (\<lambda>ls. Inr (join [newline] (map comment_ignore ls)))"

definition ignore_upgrade :: "'g upkeep_env \<Rightarrow> ('g, unit) uio" where
  "ignore_upgrade e =
     bindio (git (up_cache e) [''fast-export'', ''--no-data'', ''--'', ''--all''] None False) (\<lambda>(_, text).
     letr (upgrade_text text) (\<lambda>text.
     thenio (git_input e [''fast-import'', ''--force''] text)
     (thenio (git0 (up_cache e) [''reflog'', ''expire'', ''--all'', ''--expire=now''] None)
       (modify (\<lambda>w. w\<lparr>uw_upgrade := False\<rparr>)))))"

definition configure :: "'g upkeep_env \<Rightarrow> ('g, unit) uio" where
  "configure e =
     bindio (root_look (\<lambda>n. bindr (file_read_all n [''config'']) (up_parse e))) (\<lambda>c.
     case configure_config c of (changed, c) \<Rightarrow>
     thenio (whenio changed (root_change (\<lambda>n. file_write (up_print e c) n [''config''])))
     (thenio (root_change (\<lambda>n. file_write exclude_text n [''info'', ''exclude'']))
       (bindio (gets uw_upgrade) (\<lambda>u. whenio u (ignore_upgrade e)))))"

section \<open>Opening\<close>

definition bootstrap :: "'g upkeep_env \<Rightarrow> ('g, unit) uio" where
  "bootstrap e =
     (let env = [(''GIT_DIR'', up_root e), (''GIT_WORK_TREE'', up_tmp e), (''GIT_INDEX_FILE'', up_tmp e @ ''/bootstrap-index'')] in
      seqio [modify (\<lambda>w. w\<lparr>cw_bootstrap_ct := Suc (cw_bootstrap_ct w)\<rparr>),
             git_env e [] [''init'', ''--bare'', ''-b'', ''root'', up_root e],
             configure e,
             git_env e env [''read-tree'', ''--empty''],
             git_env e env [''commit'', ''--allow-empty'', ''-m'', commit_message ''ROOT'' (Some root_id)]])"

definition root_entries :: "node option \<Rightarrow> string list" where
  "root_entries n = (case n of Some (Dir m es) \<Rightarrow> map fst es | _ \<Rightarrow> [])"

definition cache_open :: "'g upkeep_env \<Rightarrow> ('g, unit) uio" where \<comment> \<open>\<open>__init__\<close>\<close>
  "cache_open e =
     thenio (modify (\<lambda>w. w\<lparr>cw_bootstrap_ct := 0\<rparr>))
     (bindio (gets uw_root) (\<lambda>n.
      thenio (case n of Some (Dir m es) \<Rightarrow> ret ()
              | Some n \<Rightarrow> raise (Fatal ''can't mkdir: exists and not a directory: %s'')
              | None \<Rightarrow> modify (\<lambda>w. w\<lparr>uw_root := Some new_dir\<rparr>))
      (bindio (gets (\<lambda>w. root_entries (uw_root w))) (\<lambda>ls.
       thenio (if ls = [] then bootstrap e
               else thenio (check ({''HEAD'', ''objects'', ''refs''} \<subseteq> set ls) (Fatal ''storage broken: not a build cache: %s''))
                      (configure e))
         (up_worktrees_fix e)))))"

section \<open>Garbage collection\<close>

definition commit_digests :: "string \<Rightarrow> string list res" where
  "commit_digests out =
     (let ds = split_on newline out in
      bindr (guard (last ds = []) Assertion_Error) (\<lambda>_. Inr (take (length ds - 2) ds)))"

definition show_argv :: "string \<Rightarrow> string list" where
  "show_argv d = [''show'', d @ '':'' @ pickle_path]"

definition commit_larges :: "'g upkeep_env \<Rightarrow> string \<Rightarrow> ('g, string list) uio" where
  "commit_larges e d =
     bindio (git (up_cache e) (show_argv d) None False) (\<lambda>(_, data).
     letr (ce_loads (up_cache e) data) (\<lambda>fm. ret (large_names (unpickle_fix (Path [''.'']) fm))))"

definition gc_argv :: "string list" where
  "gc_argv = [''-c'', ''gc.bigPackthreshold=0'', ''-c'', ''gc.pruneExpire=now'', ''-c'', ''gc.reflogExpire=now'', ''gc'']"

definition rev_list_argv :: "string list" where
  "rev_list_argv = [''rev-list'', ''--all'', ''--reflog'', ''--date-order'']"

definition garbageinate :: "'g upkeep_env \<Rightarrow> ('g, unit) uio" where
  "garbageinate e =
     thenio (git0 (up_cache e) gc_argv None)
     (bindio (git (up_cache e) rev_list_argv None False) (\<lambda>(_, out).
      letr (commit_digests out) (\<lambda>ds.
      bindio (mapio (commit_larges e) ds) (\<lambda>names.
        modify (\<lambda>w. w\<lparr>cw_large := filter (\<lambda>(l, n). l \<in> set (concat names)) (cw_large w)\<rparr>)))))"

section \<open>Reset\<close>

text \<open>A garbage collection that is running is stopped; its number is in a file.\<close>

definition stop_gc :: "'g upkeep_env \<Rightarrow> node option \<Rightarrow> unit res" where
  "stop_gc e n =
     (case Option.bind n (\<lambda>n. node_at n [''gc.pid'']) of
        None \<Rightarrow> Inr ()
      | Some (Reg m text) \<Rightarrow>
          bindr (of_opt Index_Error (case split_ws text of [] \<Rightarrow> None | p # _ \<Rightarrow> Some p)) (\<lambda>p.
          bindr (of_opt Value_Error (py_int p)) (\<lambda>pid.
            fst (kill_blocking (fst (up_kill e pid)) (snd (up_kill e pid)) 10)))
      | Some _ \<Rightarrow> Inl (Fatal ''can't open GC PID file: %s: %s''))"

definition linked :: "node \<Rightarrow> bool" where "linked n \<longleftrightarrow> node_at n git_dir_parts \<noteq> None"

definition cache_reset :: "'g upkeep_env \<Rightarrow> ('g, unit) uio" where
  "cache_reset e =
     bindio (gets cw_bootstrap_ct) (\<lambda>ct.
       if ct \<ge> 1 then ret ()
       else bindio (gets (\<lambda>w. stop_gc e (uw_root w))) (\<lambda>r. letr r (\<lambda>_.
            thenio (modify (\<lambda>w. w\<lparr>cw_images := filter (\<lambda>(d, n). \<not> linked n) (cw_images w)\<rparr>))
            (thenio (root_change Inr)
            (thenio (modify (\<lambda>w. w\<lparr>cw_large := [], uw_root := Some new_dir\<rparr>)) (bootstrap e))))))"

section \<open>Summary and tree\<close>

definition text_lines :: "string \<Rightarrow> string list" where \<comment> \<open>\<open>splitlines\<close>, of text with newlines only\<close>
  "text_lines s = (let ls = split_on newline s in if last ls = [] then butlast ls else ls)"

definition pad5 :: "string \<Rightarrow> string" where "pad5 s = replicate (5 - length s) CHR '' '' @ s" \<comment> \<open>\<open>%5d\<close>\<close>

definition state_ids :: "string \<Rightarrow> state_id list res" where
  "state_ids msgs = bindr (mapr from_text (filter (\<lambda>m. m \<noteq> []) (text_lines msgs))) (\<lambda>is. Inr (remdups is))"

definition indent2 :: "string \<Rightarrow> string" where \<comment> \<open>\<open>textwrap.indent(s, "  ")\<close>\<close>
  "indent2 s = join [newline] (map (\<lambda>l. if strip_ws l = [] then l else ''  '' @ l) (split_on newline s))"

definition summary_lines :: "nat \<Rightarrow> nat \<Rightarrow> nat \<Rightarrow> int \<Rightarrow> rat \<times> string \<Rightarrow> rat \<times> string \<Rightarrow> string list" where
  "summary_lines images states larges commits files bytes =
     [''named images:   '' @ pad5 (str_of_nat images),
      ''state IDs:      '' @ pad5 (str_of_nat states),
      ''large files:    '' @ pad5 (str_of_nat larges),
      ''commits:        '' @ pad5 (str_of_int commits),
      ''internal files: '' @ pad5 (str_of_int (floor (fst files))) @ '' '' @ snd files,
      ''disk used:      '' @ pad5 (str_of_int (floor (fst bytes))) @ '' '' @ snd bytes]"

definition summary_print :: "'g upkeep_env \<Rightarrow> (node \<Rightarrow> nat) \<Rightarrow> bool \<Rightarrow> ('g, string list) uio" where
  "summary_print e disk_bytes verbose =
     bindio (git (up_cache e) [''log'', ''--all'', ''--reflog'', ''--format=format:%b''] None False) (\<lambda>(_, msgs).
     letr (state_ids msgs) (\<lambda>states.
     bindio (git (up_cache e) [''branch'', ''--list''] None False) (\<lambda>(_, branches).
     bindio (root_look (\<lambda>n. Inr (du disk_bytes n))) (\<lambda>(files, bytes).
     bindio (git (up_cache e) [''rev-list'', ''--all'', ''--reflog'', ''--count''] None False) (\<lambda>(_, count).
     letr (of_opt Value_Error (py_int (strip_ws count))) (\<lambda>commits.
     letr (si_decimal files) (\<lambda>files.
     letr (si_binary_bytes bytes) (\<lambda>bytes.
     bindio (gets (\<lambda>w. length (cw_large w))) (\<lambda>larges.
     bindio (if verbose
             then bindio (git (up_cache e) [''count-objects'', ''-vH''] None False) (\<lambda>(_, out).
                  bindio (root_look (\<lambda>n. file_read_all n [''config''])) (\<lambda>conf.
                    ret [''Git statistics:'', indent2 out, ''Git config:'', indent2 conf]))
             else ret []) (\<lambda>more.
       ret (summary_lines (count_list branches newline) (length states) larges commits files bytes @ more)))))))))))"

definition tree_argv :: "log_level \<Rightarrow> string list" where
  "tree_argv lvl =
     [''log'', ''--graph'', ''--all'', ''--reflog'', ''--topo-order'']
     @ (if lvl = INFO then [''--decorate-refs=refs/heads'', ''--format=%C(auto)%d %Creset%<|(77,trunc)%s'']
        else [''--format=%C(auto)%d%C(yellow) %h %Creset%s %b''])"

definition tree_print :: "'g upkeep_env \<Rightarrow> log_level \<Rightarrow> ('g, unit) uio" where
  "tree_print e lvl = git0 (up_cache e) (tree_argv lvl) None"


text \<open>The picture of the tree: git2dot.py and dot, in the repository\<close>

definition git2dot_min :: "int list" where "git2dot_min = [0, 8, 3]"

definition dot_min :: "int list" where "dot_min = [2, 30, 1]"

definition have_dot :: "runner \<Rightarrow> log_level \<Rightarrow> unit res" where
  "have_dot run lvl =
     bindr (version_check run lvl [''git2dot.py'', ''--version''] git2dot_min True) (\<lambda>_.
     bindr (version_check run lvl [''dot'', ''-V''] dot_min True) (\<lambda>_. Inr ()))"

definition label_attr :: "string \<Rightarrow> string" where
  "label_attr rest = ''[label='' @ [dquote] @ ''{label}'' @ [dquote] @ '', shape=box, '' @ rest"

definition git2dot_argv :: "path \<Rightarrow> string list" where
  "git2dot_argv gv =
     [''git2dot.py'', ''--range'', ''--all --reflog --topo-order'', ''--font-name'', ''Nimbus Mono'',
      ''-d'', ''graph[rankdir='' @ [dquote] @ ''TB'' @ [dquote] @ '', bgcolor='' @ [dquote] @ ''white'' @ [dquote] @ '']'',
      ''-d'', ''edge[dir=forward, arrowsize=0.5]'', ''--bedge'', ''[color=gray80, dir=none]'',
      ''--bnode'', label_attr ''height=0.20, color=gray80]'',
      ''--cnode'', label_attr ''color=black, fillcolor=white]'',
      ''--mnode'', label_attr ''color=black, fillcolor=white]'',
      ''-D'', ''@SID@'', ''([0-9A-F]{4}):'', ''-l'', ''@SID@|%s'', gv]"

definition tree_dot :: "runner \<Rightarrow> log_level \<Rightarrow> string \<Rightarrow> string \<Rightarrow> string list list res" where
  "tree_dot run lvl cwd dot_base =
     bindr (have_dot run lvl) (\<lambda>_.
     let gv = Path [dot_base @ ''.gv'']; pdf = Path [dot_base @ ''.pdf''] in
     bindr (is_absolute gv) (\<lambda>absolute.
     let gv = (if absolute then gv else floordiv cwd gv); pdf = (if absolute then pdf else floordiv cwd pdf) in
       Inr [git2dot_argv gv, [''dot'', ''-Tpdf'', ''-o'' @ pdf, gv]]))"

section \<open>The history upgraded\<close>

lemma sort_runs_spec:
  "sort_runs ls = Inr rs \<Longrightarrow>
     mset rs = mset ls \<and> map data_p rs = map data_p ls \<and> filter (\<lambda>l. \<not> data_p l) rs = filter (\<lambda>l. \<not> data_p l) ls \<and>
     (\<forall>c. filter (\<lambda>l. data_p l \<and> hd l = c) rs = filter (\<lambda>l. data_p l \<and> hd l = c) ls)"
proof (induction ls arbitrary: rs rule: sort_runs.induct)
  case (2 l ls)
  show ?case
  proof (cases "data_p l")
    case True
    let ?run = "l # takeWhile data_p ls" and ?rest = "dropWhile data_p ls"
    from 2(3) True obtain r where r: "?rest \<noteq> []" "sort_runs ?rest = Inr r" "rs = sort_key hd ?run @ r"
      by (auto simp: res_simps Let_def)
    have IH: "mset r = mset ?rest \<and> map data_p r = map data_p ?rest \<and> filter (\<lambda>l. \<not> data_p l) r = filter (\<lambda>l. \<not> data_p l) ?rest \<and>
        (\<forall>c. filter (\<lambda>l. data_p l \<and> hd l = c) r = filter (\<lambda>l. data_p l \<and> hd l = c) ?rest)"
      using 2(1) [OF True refl refl] r(1,2) by (auto simp: guard_def)
    have all: "\<forall>x \<in> set ?run. data_p x" using True by (auto dest: set_takeWhileD)
    then have all': "\<forall>x \<in> set (sort_key hd ?run). data_p x" by (simp only: set_sort)
    have ls: "l # ls = ?run @ ?rest" by simp
    have run: "map data_p (sort_key hd ?run) = map data_p ?run"
    proof -
      have m: "map data_p xs = replicate (length xs) True" if "\<forall>x \<in> set xs. data_p x" for xs
        using that by (induction xs) auto
      show ?thesis unfolding m [OF all] m [OF all'] by (simp only: length_sort)
    qed
    have c: "filter (\<lambda>l. data_p l \<and> hd l = c) (sort_key hd ?run) = filter (\<lambda>l. data_p l \<and> hd l = c) ?run" for c
    proof -
      have "filter (\<lambda>l. data_p l \<and> hd l = c) xs = filter (\<lambda>l. hd l = c) xs" if "\<forall>x \<in> set xs. data_p x" for xs :: "string list"
        using that by (intro filter_cong) auto
      then show ?thesis using all all' sort_key_stable [of hd c ?run] by simp
    qed
    have n: "filter (\<lambda>l. \<not> data_p l) (sort_key hd ?run) = []" "filter (\<lambda>l. \<not> data_p l) ?run = []"
      using all all' by (auto simp: filter_empty_conv)
    show ?thesis
      unfolding r(3) ls map_append filter_append mset_append run c n using IH by simp
  next
    case False
    with 2(3) obtain r where "sort_runs ls = Inr r" "rs = l # r" by (auto simp: res_simps)
    with 2(2) [OF False this(1)] False show ?thesis by simp
  qed
qed simp

lemma sort_runs_sorted:
  "sort_runs ls = Inr rs \<Longrightarrow> successively (\<lambda>x y. data_p x \<longrightarrow> data_p y \<longrightarrow> hd x \<le> hd y) rs"
proof (induction ls arbitrary: rs rule: sort_runs.induct)
  case (2 l ls)
  show ?case
  proof (cases "data_p l")
    case True
    let ?run = "l # takeWhile data_p ls" and ?rest = "dropWhile data_p ls" and ?P = "\<lambda>x y. data_p x \<longrightarrow> data_p y \<longrightarrow> hd x \<le> hd y"
    from 2(3) True obtain r where r: "?rest \<noteq> []" "sort_runs ?rest = Inr r" "rs = sort_key hd ?run @ r"
      by (auto simp: res_simps Let_def)
    have IH: "successively ?P r" using 2(1) [OF True refl refl] r(1,2) by (auto simp: guard_def)
    have "map data_p r = map data_p ?rest" using sort_runs_spec [OF r(2)] by blast
    with r(1) have "r \<noteq> []" "data_p (hd r) = data_p (hd ?rest)"
      by (metis Nil_is_map_conv, metis list.map_sel(1) Nil_is_map_conv)
    with hd_dropWhile [OF r(1)] have h: "\<not> data_p (hd r)" by simp
    have "sorted (map hd (sort_key hd ?run))" by (rule sorted_sort_key)
    then have "sorted_wrt ?P (sort_key hd ?run)" unfolding sorted_map by (rule sorted_wrt_mono_rel [rotated]) simp
    with IH h show ?thesis unfolding r(3) by (auto simp: successively_append_iff intro: successively_if_sorted_wrt)
  next
    case False
    with 2(3) obtain r where "sort_runs ls = Inr r" "rs = l # r" by (auto simp: res_simps)
    with 2(2) [OF False this(1)] False show ?thesis by (cases r) simp_all
  qed
qed simp

text \<open>
  Sorting the exported history changes nothing but the order in each commit: no line is
  lost or added, lines that are no file commands stay where they are, deletions come before
  modifications, and commands of one kind keep their order.
\<close>

theorem history_sorted:
  assumes "sort_runs ls = Inr rs"
  shows "mset rs = mset ls \<and> map data_p rs = map data_p ls \<and> filter (\<lambda>l. \<not> data_p l) rs = filter (\<lambda>l. \<not> data_p l) ls \<and>
    filter (\<lambda>l. data_p l \<and> hd l = c) rs = filter (\<lambda>l. data_p l \<and> hd l = c) ls \<and>
    successively (\<lambda>x y. data_p x \<longrightarrow> data_p y \<longrightarrow> hd x \<le> hd y) rs"
  using sort_runs_spec [OF assms] sort_runs_sorted [OF assms] by blast

lemma history_sorted_witness:
  "sort_runs [''commit'', ''M 1 a b'', ''D a'', ''M 1 c d'', []] = Inr [''commit'', ''D a'', ''M 1 a b'', ''M 1 c d'', []] \<and>
   mset [''commit'', ''D a'', ''M 1 a b'', ''M 1 c d'', []] = mset [''commit'', ''M 1 a b'', ''D a'', ''M 1 c d'', []]"
proof -
  have r: "sort_runs [''commit'', ''M 1 a b'', ''D a'', ''M 1 c d'', []] = Inr [''commit'', ''D a'', ''M 1 a b'', ''M 1 c d'', []]"
    by code_simp
  from history_sorted [OF r] r show ?thesis by blast
qed

section \<open>The configuration is complete\<close>

lemma config_get_set: "config_get (config_set k v c) k' = (if k' = k then Some v else config_get c k')"
  by (cases k; cases k') (auto simp: config_get_def config_set_def update_conv split: option.split)

lemma config_ensure_get:
  "config_get (snd (config_ensure kv ch)) k = (if k = config_key (fst kv) then Some (snd kv) else config_get (snd ch) k)"
  by (auto simp: config_ensure_def Let_def config_get_set)

lemma fold_ensure_get:
  "distinct (map (config_key \<circ> fst) kvs) \<Longrightarrow>
   config_get (snd (fold config_ensure kvs ch)) k =
     (case map_of (map (\<lambda>(k, v). (config_key k, v)) kvs) k of Some v \<Rightarrow> Some v | None \<Rightarrow> config_get (snd ch) k)"
proof (induction kvs arbitrary: ch)
  case (Cons kv kvs)
  have "map_of (map (\<lambda>(k, v). (config_key k, v)) kvs) (config_key (fst kv)) = None"
    using Cons.prems by (force simp: map_of_eq_None_iff)
  with Cons show ?case by (cases kv) (auto simp: config_ensure_get split: option.split)
qed simp

lemma config_keys_distinct: "distinct (map (config_key \<circ> fst) git_config)"
  by code_simp

lemma fold_ensure_same:
  "(\<And>k v. (k, v) \<in> set kvs \<Longrightarrow> config_get (snd ch) (config_key k) = Some v) \<Longrightarrow> fold config_ensure kvs ch = ch"
  by (induction kvs arbitrary: ch) (auto simp: config_ensure_def)

lemma config_keys_map: "map (fst \<circ> (\<lambda>(k, v). (config_key k, v))) kvs = map (config_key \<circ> fst) kvs"
  by (induction kvs) auto

text \<open>What is wanted is set, everything else is kept, and a second time there is nothing to do.\<close>

lemma configure_complete:
  "(\<forall>(k, v) \<in> set git_config. config_get (snd (configure_config c)) (config_key k) = Some v) \<and>
   (\<forall>k. k \<notin> (config_key \<circ> fst) ` set git_config \<longrightarrow> config_get (snd (configure_config c)) k = config_get c k) \<and>
   configure_config (snd (configure_config c)) = (False, snd (configure_config c))"
proof -
  note get = fold_ensure_get [OF config_keys_distinct, of "(False, c)", folded configure_config_def]
  have set: "config_get (snd (configure_config c)) (config_key k) = Some v" if "(k, v) \<in> set git_config" for k v
  proof -
    have "map_of (map (\<lambda>(k, v). (config_key k, v)) git_config) (config_key k) = Some v"
      using that config_keys_distinct by (intro map_of_is_SomeI) (auto simp: config_keys_map)
    then show ?thesis by (simp add: get)
  qed
  moreover have "config_get (snd (configure_config c)) k = config_get c k" if "k \<notin> (config_key \<circ> fst) ` set git_config" for k
  proof -
    have "map_of (map (\<lambda>(k, v). (config_key k, v)) git_config) k = None"
      using that by (force simp: map_of_eq_None_iff)
    then show ?thesis by (simp add: get)
  qed
  moreover have "configure_config (snd (configure_config c)) = (False, snd (configure_config c))"
    using set unfolding configure_config_def [of "snd (configure_config c)"] by (intro fold_ensure_same) auto
  ultimately show ?thesis by auto
qed

section \<open>Garbage collection keeps what is used\<close>

text \<open>Restoring an image needs of the large files only those its metadata names.\<close>

definition with_large :: "restore_env \<Rightarrow> (string, node) dict \<Rightarrow> restore_env" where
  "with_large R l = R\<lparr>re_large := l\<rparr>"

lemma with_large_simps [simp]:
  "re_large (with_large R l) = l" "set_xattrs (with_large R l) = set_xattrs R" "restore_metadata (with_large R l) = restore_metadata R"
  by (simp_all add: with_large_def set_xattrs_def restore_metadata_def fun_eq_iff)

lemma restore_entry_large:
  "(\<And>l. fa_large_name a = Some l \<Longrightarrow> map_of L l = map_of L' l) \<Longrightarrow>
   restore_entry (with_large R L) i a d es st = restore_entry (with_large R L') i a d es st"
  by (simp add: restore_entry_def Let_def split: option.split)

lemma restore_children_same:
  "(\<And>i fm es st. (i, fm) \<in> set fms \<Longrightarrow> git_restore A i fm es st = git_restore B i fm es st) \<Longrightarrow>
   restore_children A fms es st = restore_children B fms es st"
proof (induction fms arbitrary: es st)
  case (Cons f fms)
  obtain i fm where f: "f = (i, fm)" by (cases f)
  with Cons show ?case by simp
qed simp

lemma restore_large:
  "(\<And>l. l \<in> set (large_names fm) \<Longrightarrow> map_of L l = map_of L' l) \<Longrightarrow>
     git_restore (with_large R L) i fm es st = git_restore (with_large R L') i fm es st"
proof (induction fm arbitrary: i es st)
  case (FM a cs)
  have e: "restore_entry (with_large R L) i a d es st = restore_entry (with_large R L') i a d es st" for d
    by (rule restore_entry_large) (use FM.prems in auto)
  have c: "restore_children (with_large R L) cs = restore_children (with_large R L') cs"
  proof (intro ext, rule restore_children_same)
    fix j fm es st assume m: "(j, fm) \<in> set cs"
    show "git_restore (with_large R L) j fm es st = git_restore (with_large R L') j fm es st"
      by (rule FM.IH [OF m]) (use m FM.prems in \<open>auto simp: snds.simps\<close>)
  qed
  show ?case unfolding git_restore.simps c e with_large_simps ..
qed

lemma restore_image_large:
  "(\<And>l. l \<in> set (large_names fm) \<Longrightarrow> map_of L l = map_of L' l) \<Longrightarrow>
     restore_image (with_large R L) fm n inode = restore_image (with_large R L') fm n inode"
  using restore_large [of fm L L' R] by (simp add: restore_image_def)

lemma large_names_fix [simp]: "large_names (unpickle_fix p fm) = large_names fm"
proof (induction fm arbitrary: p)
  case (FM a cs)
  have "map (\<lambda>x. large_names (unpickle_fix (floordiv p (fst x)) (snd x))) cs = map (\<lambda>x. large_names (snd x)) cs"
    using FM by (auto simp: snds.simps intro!: map_cong)
  then show ?case by (simp add: case_prod_unfold comp_def del: map_eq_conv)
qed

text \<open>
  What is relied on of Git: it leaves the large files alone, and listing and showing commits
  change nothing. \<open>commits\<close> are those with an image, newest first, before the root commit;
  \<open>pickled\<close> is the file metadata in one.
\<close>

definition git_history :: "('g \<Rightarrow> string list) \<Rightarrow> ('g \<Rightarrow> string \<Rightarrow> string) \<Rightarrow> ('g, 'm) cache_env \<Rightarrow> bool" where
  "git_history commits pickled e \<longleftrightarrow>
     (\<forall>cwd argv i w. cw_large (snd (ce_git e cwd argv i w)) = cw_large w) \<and>
     (\<forall>w out w'. ce_git e None rev_list_argv None w = ((0, out), w') \<longrightarrow>
        w' = w \<and> (\<exists>r. newline \<notin> set r \<and> out = concat (map (\<lambda>d. d @ [newline]) (commits (cw_git w) @ [r])))) \<and>
     (\<forall>w d out w'. ce_git e None (show_argv d) None w = ((0, out), w') \<longrightarrow> w' = w \<and> out = pickled (cw_git w) d) \<and>
     (\<forall>g. \<forall>d \<in> set (commits g). newline \<notin> set d)"

lemma git_historyD:
  assumes "git_history commits pickled e"
  shows "cw_large (snd (ce_git e cwd argv i w)) = cw_large w"
    "ce_git e None rev_list_argv None w = ((0, out), w') \<Longrightarrow>
        w' = w \<and> (\<exists>r. newline \<notin> set r \<and> out = concat (map (\<lambda>d. d @ [newline]) (commits (cw_git w) @ [r])))"
    "ce_git e None (show_argv d) None w = ((0, out), w') \<Longrightarrow> w' = w \<and> out = pickled (cw_git w) d"
    "d \<in> set (commits g) \<Longrightarrow> newline \<notin> set d"
  using assms unfolding git_history_def by blast+

lemma split_on_lines:
  "(\<And>l. l \<in> set ls \<Longrightarrow> c \<notin> set l) \<Longrightarrow> split_on c (concat (map (\<lambda>l. l @ [c]) ls)) = ls @ [[]]"
proof (induction ls)
  case (Cons l ls)
  then show ?case using split_on_append [of c l "concat (map (\<lambda>l. l @ [c]) ls)"] by simp
qed simp

lemma commit_larges_run:
  assumes "git_history commits pickled (up_cache e)" "mapio (commit_larges e) ds w = (Inr names, w')"
  shows "w' = w" "set (concat names) = {l. \<exists>d \<in> set ds. \<exists>fm. ce_loads (up_cache e) (pickled (cw_git w) d) = Inr fm \<and> l \<in> set (large_names fm)}"
    "\<forall>d \<in> set ds. \<exists>fm. ce_loads (up_cache e) (pickled (cw_git w) d) = Inr fm"
proof -
  have "w' = w \<and> set (concat names) = {l. \<exists>d \<in> set ds. \<exists>fm. ce_loads (up_cache e) (pickled (cw_git w) d) = Inr fm \<and> l \<in> set (large_names fm)} \<and>
    (\<forall>d \<in> set ds. \<exists>fm. ce_loads (up_cache e) (pickled (cw_git w) d) = Inr fm)"
    using assms(2)
  proof (induction ds arbitrary: names)
    case (Cons d ds)
    then obtain ns nss w1 where c: "commit_larges e d w = (Inr ns, w1)" "mapio (commit_larges e) ds w1 = (Inr nss, w')" "names = ns # nss"
      by (auto simp: io_simps)
    then obtain out fm where "ce_git (up_cache e) None (show_argv d) None w = ((0, out), w1)"
      "ce_loads (up_cache e) out = Inr fm" "ns = large_names fm"
      by (auto simp: commit_larges_def io_simps git_Inr)
    with git_historyD(3) [OF assms(1)] have d: "w1 = w" "ce_loads (up_cache e) (pickled (cw_git w) d) = Inr fm" "ns = large_names fm"
      by blast+
    from Cons.IH [OF c(2) [unfolded d(1)]] d c(3) show ?case by auto
  qed (simp add: ret_Inr)
  then show "w' = w" "set (concat names) = {l. \<exists>d \<in> set ds. \<exists>fm. ce_loads (up_cache e) (pickled (cw_git w) d) = Inr fm \<and> l \<in> set (large_names fm)}"
    "\<forall>d \<in> set ds. \<exists>fm. ce_loads (up_cache e) (pickled (cw_git w) d) = Inr fm" by blast+
qed

definition uses :: "'g upkeep_env \<Rightarrow> ('g \<Rightarrow> string list) \<Rightarrow> ('g \<Rightarrow> string \<Rightarrow> string) \<Rightarrow> 'g \<Rightarrow> string set" where
  "uses e commits pickled g = {l. \<exists>d \<in> set (commits g). \<exists>fm. ce_loads (up_cache e) (pickled g d) = Inr fm \<and> l \<in> set (large_names fm)}"

lemma garbageinate_run:
  assumes "git_history commits pickled (up_cache e)" "garbageinate e w = (Inr (), w')"
  shows "cw_large w' = filter (\<lambda>(l, n). l \<in> uses e commits pickled (cw_git w')) (cw_large w)"
proof -
  from assms(2) obtain w1 w2 w3 out ds names where g: "git0 (up_cache e) gc_argv None w = (Inr (), w1)"
    and r: "ce_git (up_cache e) None rev_list_argv None w1 = ((0, out), w2)" and ds: "commit_digests out = Inr ds"
    and n: "mapio (commit_larges e) ds w2 = (Inr names, w3)"
    and w': "w' = w3\<lparr>cw_large := filter (\<lambda>(l, n). l \<in> set (concat names)) (cw_large w3)\<rparr>"
    by (auto simp: garbageinate_def io_simps simp del: set_concat)
  note h = git_historyD [OF assms(1)]
  from g obtain x where "ce_git (up_cache e) None gc_argv None w = ((0, x), w1)" by (auto simp: git0_Inr)
  with h(1) [of None gc_argv None w] have l: "cw_large w1 = cw_large w" by simp
  from h(2) [OF r] obtain t where t: "w2 = w1" "newline \<notin> set t" "out = concat (map (\<lambda>d. d @ [newline]) (commits (cw_git w1) @ [t]))"
    by blast
  have "split_on newline out = (commits (cw_git w1) @ [t]) @ [[]]"
    unfolding t(3) by (rule split_on_lines) (use t(2) h(4) in auto)
  then have d: "ds = commits (cw_git w1)" using ds by (simp add: commit_digests_def Let_def res_simps)
  from commit_larges_run [OF assms(1) n] t(1) d
  have "w3 = w1" "set (concat names) = uses e commits pickled (cw_git w1)" by (simp_all add: uses_def)
  then show ?thesis using w' l by simp
qed

text \<open>
  C29: Garbage collection leaves exactly the large files that a commit still uses, and every
  image that is left in the repository is restored as before, whatever is restored of it.
\<close>

theorem gc_keeps_images:
  assumes "git_history commits pickled (up_cache e)" "garbageinate e w = (Inr (), w')"
  shows "cw_large w' = filter (\<lambda>(l, n). l \<in> uses e commits pickled (cw_git w')) (cw_large w) \<and>
    (d \<in> set (commits (cw_git w')) \<longrightarrow> ce_loads (up_cache e) (pickled (cw_git w') d) = Inr fm \<longrightarrow>
     restore_image (with_large R (cw_large w')) fm n inode = restore_image (with_large R (cw_large w)) fm n inode)"
proof (intro conjI impI)
  show l: "cw_large w' = filter (\<lambda>(l, n). l \<in> uses e commits pickled (cw_git w')) (cw_large w)"
    by (rule garbageinate_run [OF assms])
  assume "d \<in> set (commits (cw_git w'))" "ce_loads (up_cache e) (pickled (cw_git w') d) = Inr fm"
  then have "x \<in> uses e commits pickled (cw_git w')" if "x \<in> set (large_names fm)" for x
    using that by (auto simp: uses_def)
  moreover have "map_of (filter (\<lambda>(l, n). P l) xs) x = (if P x then map_of xs x else None)" for P x and xs :: "(string, node) dict"
    by (induction xs) auto
  ultimately show "restore_image (with_large R (cw_large w')) fm n inode = restore_image (with_large R (cw_large w)) fm n inode"
    by (intro restore_image_large) (simp add: l)
qed

section \<open>What a reset leaves\<close>

definition git_spares :: "'g upkeep_env \<Rightarrow> bool" where
  "git_spares e \<longleftrightarrow>
     (\<forall>env argv w. cw_images (snd (up_git_env e env argv w)) = cw_images w \<and> cw_large (snd (up_git_env e env argv w)) = cw_large w) \<and>
     (\<forall>cwd argv i w. cw_images (snd (ce_git (up_cache e) cwd argv i w)) = cw_images w \<and>
        cw_large (snd (ce_git (up_cache e) cwd argv i w)) = cw_large w)"

definition at_files :: "(string, node) dict \<times> (string, node) dict \<Rightarrow> 'g uworld \<Rightarrow> bool" where
  "at_files x w \<longleftrightarrow> (cw_images w, cw_large w) = x"

lemma files_git: 
  assumes "git_spares e"
  shows "keeps (at_files x) (git_env e env argv)" "keeps (at_files x) (git_input e argv text)"
    "keeps (at_files x) (git (up_cache e) argv cwd b)" "keeps (at_files x) (git0 (up_cache e) argv cwd)"
proof -
  have s: "up_git_env e env argv w = (r, w') \<Longrightarrow> at_files x w' = at_files x w"
    "ce_git (up_cache e) cwd argv i w = (r, w') \<Longrightarrow> at_files x w' = at_files x w" for env argv cwd i w r w'
    using assms unfolding git_spares_def at_files_def by (metis snd_conv)+
  have g: "keeps (at_files x) (git (up_cache e) argv cwd b)" for b
    by (auto simp: keeps_def git_def s split: prod.splits)
  then show "keeps (at_files x) (git (up_cache e) argv cwd b)" .
  show "keeps (at_files x) (git_env e env argv)" "keeps (at_files x) (git_input e argv text)"
    by (auto simp: keeps_def git_env_def git_input_def s split: prod.splits)
  show "keeps (at_files x) (git0 (up_cache e) argv cwd)"
    unfolding git0_def by (intro keeps_intros g)
qed

lemma files_root: "keeps (at_files x) (root_look f)" "keeps (at_files x) (root_change h)"
  by (auto simp: root_change_def root_look_def at_files_def intro!: keeps_intros)

lemma files_configure: "git_spares e \<Longrightarrow> keeps (at_files x) (configure e)"
  unfolding configure_def ignore_upgrade_def
  by (auto simp: at_files_def [of _ "_ :: _ uworld"] intro!: keeps_intros files_git files_root split: prod.splits)

lemma files_bootstrap: "git_spares e \<Longrightarrow> keeps (at_files x) (bootstrap e)"
  unfolding bootstrap_def Let_def
  by (auto simp: at_files_def [of _ "_ :: _ uworld"] intro!: keeps_intros files_git files_configure)


section \<open>A concrete cache\<close>

text \<open>One commit whose image has the large file L; M is not used by any.\<close>

definition example_attrs :: fm_attrs where
  "example_attrs = \<lparr>fa_path = ''f'', fa_kind = K_Reg, fa_mode = 0x1A4, fa_size = 9, fa_atime = 0, fa_mtime = 0,
     fa_dont_restore = False, fa_hardlink_to = None, fa_large_name = Some ''L'', fa_xattrs = []\<rparr>"

definition example_upkeep_git :: "string option \<Rightarrow> string list \<Rightarrow> string option \<Rightarrow> nat uworld \<Rightarrow> (int \<times> string) \<times> nat uworld" where
  "example_upkeep_git cwd argv inp w =
     (if argv = rev_list_argv then ((0, ''aa'' @ [newline] @ ''bb'' @ [newline]), w) else ((0, ''p''), w))"

definition example_init :: "(string \<times> string) list \<Rightarrow> string list \<Rightarrow> nat uworld \<Rightarrow> (int \<times> string) \<times> nat uworld" where
  "example_init env argv w =
     ((0, []), if take 1 argv = [''init'']
               then w\<lparr>uw_root := Some (Dir (node_meta new_dir) [(''config'', new_file []), (''info'', new_dir)])\<rparr> else w)"

definition example_upkeep :: "nat upkeep_env" where
  "example_upkeep = \<lparr>
     up_cache = \<lparr>ce_git = example_upkeep_git, ce_md5 = \<lambda>b. b, ce_fm = example_fm_env, ce_dumps = \<lambda>_. [],
       ce_loads = \<lambda>_. Inr (FM example_attrs []), ce_inode = \<lambda>w. 0, ce_unpack_path = \<lambda>d. d, ce_download = \<lambda>a b. ret [],
       ce_unpack = \<lambda>a b. ret (), ce_pull_done = ret ()\<rparr>,
     up_git_env = example_init, up_parse = \<lambda>_. Inr [], up_print = \<lambda>_. [], up_root = ''/s/bucache'', up_tmp = ''/tmp/t'',
     up_kill = \<lambda>_. (No_Such_Process, \<lambda>_. No_Such_Process), up_worktrees_fix = ret ()\<rparr>"

definition example_linked :: node where
  "example_linked = Dir (node_meta new_dir) [(''ch'', Dir (node_meta new_dir) [(''git'', new_file ''gitdir: x'')])]"

definition example_uworld :: "nat uworld" where
  "example_uworld = \<lparr>cw_git = 0, cw_images = [(''a'', example_linked), (''b'', new_dir)], cw_image_tmp = None,
     cw_large = [(''L'', new_file ''l''), (''M'', new_file ''m'')], cw_fm = None, cw_bootstrap_ct = 0,
     uw_root = Some (Dir (node_meta new_dir) [(''HEAD'', new_file [])]), uw_upgrade = False\<rparr>"

lemma example_history: "git_history (\<lambda>_. [''aa'']) (\<lambda>_ _. ''p'') (up_cache example_upkeep)"
  unfolding git_history_def
  by (auto simp: example_upkeep_def example_upkeep_git_def rev_list_argv_def show_argv_def intro!: exI [of _ "''bb''"])

definition ends_ok :: "('w, unit) io \<Rightarrow> 'w \<Rightarrow> bool" where
  "ends_ok m w \<longleftrightarrow> is_ok (fst (m w))"

lemma ends_okE:
  assumes "ends_ok m w"
  obtains w' where "m w = (Inr (), w')"
  using assms by (cases "m w"; cases "fst (m w)") (auto simp: ends_ok_def)

lemma example_gc: "ends_ok (garbageinate example_upkeep) example_uworld"
  by code_simp

definition example_restore :: restore_env where
  "example_restore = \<lparr>re_quick = False, re_xattrs = False, re_large = []\<rparr>"

lemma gc_keeps_images_witness:
  "cw_large (snd (garbageinate example_upkeep example_uworld)) = [(''L'', new_file ''l'')] \<and>
   restore_image (with_large example_restore [(''L'', new_file ''l'')]) (FM example_attrs []) new_dir 0 =
     restore_image (with_large example_restore [(''L'', new_file ''l''), (''M'', new_file ''m'')]) (FM example_attrs []) new_dir 0"
proof -
  obtain w' where r: "garbageinate example_upkeep example_uworld = (Inr (), w')"
    using example_gc by (rule ends_okE)
  have u: "uses example_upkeep (\<lambda>_. [''aa'']) (\<lambda>_ _. ''p'') g = {''L''}" for g
    by (simp add: uses_def example_upkeep_def example_attrs_def)
  note k = gc_keeps_images [OF example_history r, of "''aa''" "FM example_attrs []" example_restore new_dir 0, unfolded u]
  have l: "cw_large w' = [(''L'', new_file ''l'')]" using conjunct1 [OF k] by (simp add: example_uworld_def)
  with conjunct2 [OF k] r show ?thesis by (simp add: example_upkeep_def example_uworld_def)
qed

lemma example_spares: "git_spares example_upkeep"
  by (simp add: git_spares_def example_upkeep_def example_upkeep_git_def example_init_def)

lemma example_reset: "ends_ok (cache_reset example_upkeep) example_uworld"
proof -
  have c: "ends_ok (seqio (configure example_upkeep # ms)) w" if "uw_root w = Some (Dir (node_meta new_dir) [(''config'', new_file []), (''info'', new_dir)])"
    "\<not> uw_upgrade w" "\<And>w. ends_ok (seqio ms) w" for w ms
    using that
    by (simp add: ends_ok_def configure_def root_look_def root_change_def io_run example_upkeep_def file_read_all_def file_write_def
        new_file_def new_dir_def of_opt_def res_simps split: prod.split)
  have t: "ends_ok (seqio [git_env example_upkeep env a, git_env example_upkeep env b]) w" for env a b w
    by (simp add: ends_ok_def git_env_def example_upkeep_def example_init_def io_run)
  have i: "git_env example_upkeep [] (''init'' # as) w =
      (Inr (), w\<lparr>uw_root := Some (Dir (node_meta new_dir) [(''config'', new_file []), (''info'', new_dir)])\<rparr>)" for as w
    by (simp add: git_env_def example_upkeep_def example_init_def)
  have b: "ends_ok (bootstrap example_upkeep) w" if "\<not> uw_upgrade w" for w
    unfolding bootstrap_def Let_def using c [OF _ _ t] that by (simp add: ends_ok_def io_run i)
  have s: "stop_gc example_upkeep (uw_root example_uworld) = Inr ()"
    by (simp add: stop_gc_def example_uworld_def)
  show ?thesis
    unfolding cache_reset_def using b
    by (simp add: ends_ok_def io_run s root_change_def root_look_def) (simp add: example_uworld_def of_opt_def io_run)
qed


end
