(* ===== verification/Extract.thy ===== *)
theory Extract
  imports Layers Cache_Facts File_Ops
begin

text \<open>
  Extracting layers: the methods of class \<open>TarFile\<close> in \<open>lib/filesystem.py\<close> that replace one type
  of file by another, with the methods of Python's \<open>tarfile\<close> they call, and \<open>unpack_layers\<close> of
  \<open>lib/image.py\<close> to the end. The image is a tree; names of a file with several links share an inode.
  Owners and times are not modelled, nor are links on the way to a member. \<open>OSError\<close> is passed
  on and becomes a fatal error. At the end: what is at a path after everything is extracted.
\<close>

unbundle bit_operations_syntax

section \<open>Inodes\<close>

text \<open>Changing all names of a file, and an inode number that is not in use\<close>

fun map_inode :: "nat \<Rightarrow> (meta \<Rightarrow> string \<Rightarrow> node) \<Rightarrow> node \<Rightarrow> node" where
  "map_inode i f (Reg m c) = (if mt_ino m = i then f m c else Reg m c)"
| "map_inode i f (Dir m es) = Dir m (map (\<lambda>(e, n). (e, map_inode i f n)) es)"
| "map_inode i f n = n"

fun max_inode :: "node \<Rightarrow> nat" where
  "max_inode (Dir m es) = fold max (map (\<lambda>(e, n). max_inode n) es) (mt_ino m)"
| "max_inode n = mt_ino (node_meta n)"

section \<open>Replacing files\<close>

text \<open>What the archives have: members, contents, and what \<open>_find_link_target\<close> finds.\<close>

record archives =
  ar_open :: "string \<Rightarrow> member list option"
  ar_data :: "member \<Rightarrow> string"
  ar_find :: "member \<Rightarrow> member option"

record clobber_what =
  cl_regulars :: bool
  cl_symlinks :: bool
  cl_dirs :: bool

definition clobber :: "clobber_what \<Rightarrow> node \<Rightarrow> string list \<Rightarrow> node res" where
  "clobber cw n p =
     (case lookup n p of
        Inr None \<Rightarrow> Inr n
      | Inr (Some x) \<Rightarrow>
          (case node_kind x of
             K_Reg \<Rightarrow> if cl_regulars cw then unlink False n p else Inr n
           | K_Lnk \<Rightarrow> if cl_symlinks cw then unlink False n p else Inr n
           | K_Dir \<Rightarrow> if \<not> cl_dirs cw then Inr n
                      else if p = [] then Inl (Unmodelled ''the image itself is deleted'') else rmtree n p
           | _ \<Rightarrow> Inl (Fatal ''invalid file type 0%o in previous layer; see inode(7): %s''))
      | Inl (Unmodelled s) \<Rightarrow> Inl (Unmodelled s)
      | Inl e \<Rightarrow> Inl (Fatal ''can't lstat: %s''))"

text \<open>A new entry, as the system makes it: nothing may be there.\<close>

definition create :: "node \<Rightarrow> node \<Rightarrow> string list \<Rightarrow> node res" where
  "create x n p =
     bindr (lookup n p) (\<lambda>old.
     bindr (guard (old = None) (Os_Error ''file exists'')) (\<lambda>_.
       node_alter (Os_Error ''no such file or directory'') (\<lambda>_. Some x) n p))"

definition makedir :: "node \<Rightarrow> string list \<Rightarrow> node res" where
  "makedir n p =
     bindr (clobber \<lparr>cl_regulars = True, cl_symlinks = True, cl_dirs = False\<rparr> n p) (\<lambda>n.
     bindr (lookup n p) (\<lambda>old.
       case old of Some (Dir m es) \<Rightarrow> Inr n | _ \<Rightarrow> create new_dir n p))"

text \<open>\<open>makefile\<close>: what is in a regular file is overwritten in place, for all its names.\<close>

definition reg_of :: "meta \<Rightarrow> string \<Rightarrow> node" where
  "reg_of m c = Reg (m\<lparr>mt_size := int (length c)\<rparr>) c"

definition makefile :: "string \<Rightarrow> node \<Rightarrow> string list \<Rightarrow> node res" where
  "makefile content n p =
     bindr (clobber \<lparr>cl_regulars = False, cl_symlinks = True, cl_dirs = True\<rparr> n p) (\<lambda>n.
     bindr (lookup n p) (\<lambda>old.
       case old of
         Some (Reg m c) \<Rightarrow> Inr (map_inode (mt_ino m) (\<lambda>m c. reg_of m content) n)
       | _ \<Rightarrow> create (node_meta_update (\<lambda>m. m\<lparr>mt_ino := Suc (max_inode n)\<rparr>) (new_file content)) n p))"

text \<open>A hard link: one more name for a regular file\<close>

definition one_more :: "meta \<Rightarrow> string \<Rightarrow> node" where "one_more m c = Reg (m\<lparr>mt_nlink := Suc (mt_nlink m)\<rparr>) c"

definition hard_link :: "node \<Rightarrow> string list \<Rightarrow> string list \<Rightarrow> node res" where
  "hard_link n target p =
     bindr (lookup n target) (\<lambda>x.
       case x of
         Some (Reg m c) \<Rightarrow> bindr (create (Reg m c) n p) (\<lambda>n'. Inr (map_inode (mt_ino m) one_more n'))
       | Some (Lnk m t) \<Rightarrow> Inl (Unmodelled ''a link at the end'')
       | _ \<Rightarrow> Inl (Os_Error ''operation not permitted''))"

text \<open>
  \<open>makelink\<close>. The target of a hard link that is not there is looked for in the archive, before
  the link; only a regular file that is found is modelled.
\<close>

definition member_parts :: "member \<Rightarrow> string list" where "member_parts m = path_parts (m_name m)"

definition exists_at :: "node \<Rightarrow> string list \<Rightarrow> bool res" where
  "exists_at n p =
     (case lookup n p of
        Inr (Some (Lnk m t)) \<Rightarrow> Inl (Unmodelled ''a link at the end'')
      | Inr x \<Rightarrow> Inr (x \<noteq> None) | Inl (Unmodelled s) \<Rightarrow> Inl (Unmodelled s) | Inl e \<Rightarrow> Inr False)"

definition makelink :: "archives \<Rightarrow> member \<Rightarrow> node \<Rightarrow> string list \<Rightarrow> node res" where
  "makelink a m n p =
     bindr (clobber \<lparr>cl_regulars = True, cl_symlinks = True, cl_dirs = True\<rparr> n p) (\<lambda>n.
       if m_type m = M_Symlink then create (new_link (m_linkname m)) n p
       else let target = path_parts (m_linkname m) in
         bindr (exists_at n target) (\<lambda>there.
           if there then hard_link n target p
           else bindr (of_opt Key_Error (ar_find a m)) (\<lambda>t.
             if m_type t = M_File then makefile (ar_data a t) n p else Inl (Unmodelled ''a link to no regular file''))))"

section \<open>One member\<close>

text \<open>Directories above it, with default permissions, if \<open>os.path.exists\<close> does not find them\<close>

definition make_upper :: "node \<Rightarrow> string list \<Rightarrow> node res" where
  "make_upper n p =
     bindr (exists_at n (butlast p)) (\<lambda>there.
       if there then Inr n
       else case mkdirs n (butlast p) of Inl (Fatal s) \<Rightarrow> Inl (Os_Error s) | r \<Rightarrow> r)"

text \<open>\<open>os.chmod\<close>, on all names\<close>

definition set_mode :: "int \<Rightarrow> node \<Rightarrow> string list \<Rightarrow> node res" where
  "set_mode md n p =
     bindr (lookup n p) (\<lambda>x.
       case x of
         Some (Reg m c) \<Rightarrow> Inr (map_inode (mt_ino m) (\<lambda>m c. Reg (m\<lparr>mt_mode := md\<rparr>) c) n)
       | Some (Lnk m t) \<Rightarrow> Inl (Unmodelled ''a link at the end'')
       | None \<Rightarrow> Inl (Os_Error ''no such file or directory'')
       | Some y \<Rightarrow> if p = [] then Inr (node_meta_update (\<lambda>m. m\<lparr>mt_mode := md\<rparr>) n)
           else node_alter (Os_Error ''no such file or directory'')
                  (map_option (node_meta_update (\<lambda>m. m\<lparr>mt_mode := md\<rparr>))) n p)"

definition make_member :: "archives \<Rightarrow> member \<Rightarrow> node \<Rightarrow> string list \<Rightarrow> node res" where
  "make_member a m n p =
     (case m_type m of
        M_File \<Rightarrow> makefile (ar_data a m) n p
      | M_Dir \<Rightarrow> makedir n p
      | M_Symlink \<Rightarrow> makelink a m n p
      | M_Hardlink \<Rightarrow> makelink a m n p
      | _ \<Rightarrow> Inl (Unmodelled ''devices''))"

definition extract_member :: "archives \<Rightarrow> node \<Rightarrow> member \<Rightarrow> node res" where
  "extract_member a n m =
     (let p = member_parts m in
      bindr (make_upper n p) (\<lambda>n.
      bindr (make_member a m n p) (\<lambda>n.
        if m_type m \<in> {M_Dir, M_Symlink} then Inr n
        else case set_mode (m_mode m) n p of Inl (Os_Error s) \<Rightarrow> Inr n | r \<Rightarrow> r)))"

section \<open>Layers\<close>

text \<open>\<open>extractall\<close>: the modes of directories are set at the end, in the reverse order of names.\<close>

definition dir_mode :: "member \<Rightarrow> node \<Rightarrow> node res" where
  "dir_mode m n = (case set_mode (m_mode m) n (member_parts m) of Inl (Os_Error s) \<Rightarrow> Inr n | r \<Rightarrow> r)"

definition dir_modes :: "member list \<Rightarrow> node \<Rightarrow> node res" where
  "dir_modes ms n = foldr_res dir_mode (rev (sort_key m_name (rev (filter (\<lambda>m. m_type m = M_Dir) ms)))) n"

definition extract_members :: "archives \<Rightarrow> member list \<Rightarrow> node \<Rightarrow> node res" where
  "extract_members a ms n = foldr_res (\<lambda>m n. extract_member a n m) ms n"

definition extract_layer :: "archives \<Rightarrow> member list \<Rightarrow> node \<Rightarrow> node res" where
  "extract_layer a ms n =
     (case bindr (extract_members a ms n) (dir_modes ms) of
        Inl (Os_Error s) \<Rightarrow> Inl (Fatal ''can't extract layer %d: %s'') | r \<Rightarrow> r)"

definition unpack_tree :: "archives \<Rightarrow> string list \<Rightarrow> nat \<Rightarrow> node res" where
  "unpack_tree a paths last_layer =
     bindr (unpack_layers (ar_open a) paths last_layer) (\<lambda>layers.
       foldr_res (extract_layer a) layers new_dir)"

definition image_unpack :: "archives \<Rightarrow> string list \<Rightarrow> nat \<Rightarrow> node res" where
  "image_unpack a paths last_layer =
     bindr (unpack_tree a paths last_layer) unpack_init"

section \<open>What stays\<close>

text \<open>
  Everything but what is at a path and below it keeps its place and its type; links keep
  their targets.
\<close>

fun shape :: "node \<Rightarrow> kind \<times> string" where
  "shape (Lnk m t) = (K_Lnk, t)"
| "shape n = (node_kind n, [])"

definition shapes_kept :: "string list \<Rightarrow> node \<Rightarrow> node \<Rightarrow> bool" where
  "shapes_kept p n n' \<longleftrightarrow> (\<forall>q x. \<not> prefix p q \<longrightarrow> node_at n q = Some x \<longrightarrow>
     (\<exists>x'. node_at n' q = Some x' \<and> shape x' = shape x))"

definition shapes_same :: "node \<Rightarrow> node \<Rightarrow> bool" where
  "shapes_same n n' \<longleftrightarrow> (\<forall>q x. node_at n q = Some x \<longrightarrow> (\<exists>x'. node_at n' q = Some x' \<and> shape x' = shape x))"

lemma shapes_kept_refl [simp]: "shapes_kept p n n" and shapes_same_refl [simp]: "shapes_same n n"
  by (simp_all add: shapes_kept_def shapes_same_def)

lemma shapes_kept_trans: "shapes_kept p n n1 \<Longrightarrow> shapes_kept p n1 n2 \<Longrightarrow> shapes_kept p n n2"
  unfolding shapes_kept_def by metis

lemma shapes_same_trans: "shapes_same n n1 \<Longrightarrow> shapes_same n1 n2 \<Longrightarrow> shapes_same n n2"
  unfolding shapes_same_def by metis

lemma shapes_same_kept: "shapes_same n n' \<Longrightarrow> shapes_kept p n n'"
  by (simp add: shapes_same_def shapes_kept_def)

lemma shapes_keptD: "shapes_kept p n n' \<Longrightarrow> \<not> prefix p q \<Longrightarrow> node_at n q = Some x \<Longrightarrow>
    \<exists>x'. node_at n' q = Some x' \<and> shape x' = shape x"
  by (simp add: shapes_kept_def)

lemma shapes_sameD: "shapes_same n n' \<Longrightarrow> node_at n q = Some x \<Longrightarrow>
    \<exists>x'. node_at n' q = Some x' \<and> shape x' = shape x"
  by (simp add: shapes_same_def)

lemma map_of_map_inode: "map_of (map (\<lambda>(e, n). (e, map_inode i f n)) es) c = map_option (map_inode i f) (map_of es c)"
  by (induction es) auto

lemma node_at_map_inode:
  assumes "\<And>m c. shape (f m c) = (K_Reg, [])"
  shows "node_at (map_inode i f n) p = map_option (map_inode i f) (node_at n p)"
proof (induction n p rule: node_at.induct)
  case (2 n c cs)
  show ?case
  proof (cases n)
    case (Reg m d)
    with assms [of m d] show ?thesis by (cases "f m d") auto
  next
    case (Dir m es)
    with 2 show ?thesis by (cases "map_of es c") (auto simp: map_of_map_inode)
  qed auto
qed simp

lemma map_inode_shape: "(\<And>m c. shape (f m c) = (K_Reg, [])) \<Longrightarrow> shape (map_inode i f n) = shape n"
  by (cases n) auto

lemma map_inode_same: "(\<And>m c. shape (f m c) = (K_Reg, [])) \<Longrightarrow> shapes_same n (map_inode i f n)"
  by (auto simp: shapes_same_def node_at_map_inode map_inode_shape)

lemma node_alter_above:
  assumes "node_alter e f n (q @ c # r) = Inr n'"
  shows "\<exists>m es es'. node_at n q = Some (Dir m es) \<and> node_at n' q = Some (Dir m es')"
  using assms
proof (induction q arbitrary: n n')
  case Nil
  then show ?case by (cases n; cases r) (auto simp: res_simps split: option.splits)
next
  case (Cons d q)
  obtain m es where n: "n = Dir m es" using Cons.prems by (cases n; cases q) auto
  obtain k k' where k: "map_of es d = Some k" "node_alter e f k (q @ c # r) = Inr k'" "n' = Dir m (AList.update d k' es)"
    using Cons.prems n by (cases q) (auto simp: res_simps split: option.splits)
  from Cons.IH [OF k(2)] k n show ?case by (simp add: update_conv')
qed

lemma node_alter_kept: "node_alter e f n p = Inr n' \<Longrightarrow> shapes_kept p n n'"
  unfolding shapes_kept_def
proof (intro allI impI)
  fix q x assume a: "node_alter e f n p = Inr n'" "\<not> prefix p q" "node_at n q = Some x"
  show "\<exists>x'. node_at n' q = Some x' \<and> shape x' = shape x"
  proof (cases "prefix q p")
    case True
    with a(2) obtain c r where "p = q @ c # r" by (metis append_Nil2 neq_Nil_conv prefixE prefix_order.refl)
    with node_alter_above [of e f n q c r n'] a(1,3) show ?thesis by auto
  next
    case False
    with node_alter_other [OF a(1,2)] a(3) show ?thesis by simp
  qed
qed

lemma kept_as_shape: "kept_as x y \<Longrightarrow> shape y = shape x"
  by (cases x) auto

lemma mkdirs_same: "mkdirs n p = Inr n' \<Longrightarrow> shapes_same n n'"
  using mkdirs_extends [of n p n'] unfolding shapes_same_def by (blast dest: extendsD kept_as_shape)

lemma unlink_kept: "unlink False n p = Inr n' \<Longrightarrow> shapes_kept p n n'"
  by (auto simp: unlink_def res_simps dest: node_alter_kept)

lemma rmtree_kept: "rmtree n p = Inr n' \<Longrightarrow> shapes_kept p n n'"
  by (auto simp: rmtree_def res_simps dest: node_alter_kept)

lemma clobber_kept: "clobber cw n p = Inr n' \<Longrightarrow> shapes_kept p n n'"
  by (auto simp: clobber_def dest: unlink_kept rmtree_kept split: sum.splits option.splits kind.splits if_splits exn.splits)

lemma create_kept: "create x n p = Inr n' \<Longrightarrow> shapes_kept p n n' \<and> node_at n' p = Some x"
  by (auto simp: create_def res_simps dest: node_alter_kept node_alter_same)

lemma reg_kinds [simp]: "shape (reg_of m c) = (K_Reg, [])" "shape (one_more m c) = (K_Reg, [])"
  by (simp_all add: reg_of_def one_more_def)

lemma new_kinds [simp]: "shape (new_file c) = (K_Reg, [])" "shape new_dir = (K_Dir, [])" "shape (new_link t) = (K_Lnk, t)"
  by (simp_all add: new_file_def new_dir_def new_link_def)

lemma shape_meta_update [simp]: "shape (node_meta_update f n) = shape n"
  by (cases n rule: shape.cases) auto

definition type_kind :: "member_type \<Rightarrow> kind" where
  "type_kind t = (case t of M_Dir \<Rightarrow> K_Dir | M_Symlink \<Rightarrow> K_Lnk | _ \<Rightarrow> K_Reg)"

definition member_shape :: "member \<Rightarrow> kind \<times> string" where
  "member_shape m = (type_kind (m_type m), if m_type m = M_Symlink then m_linkname m else [])"

definition has_shape :: "kind \<times> string \<Rightarrow> node \<Rightarrow> string list \<Rightarrow> bool" where
  "has_shape k n p \<longleftrightarrow> (\<exists>x. node_at n p = Some x \<and> shape x = k)"

lemma has_shape_same: "has_shape k n p \<Longrightarrow> shapes_same n n' \<Longrightarrow> has_shape k n' p"
  by (auto simp: has_shape_def dest: shapes_sameD)

lemma has_shape_kept: "has_shape k n p \<Longrightarrow> shapes_kept q n n' \<Longrightarrow> \<not> prefix q p \<Longrightarrow> has_shape k n' p"
  by (auto simp: has_shape_def dest: shapes_keptD)

lemma makedir_made: 
  assumes "makedir n p = Inr n'"
  shows "shapes_kept p n n' \<and> has_shape (K_Dir, []) n' p"
proof -
  from assms obtain n1 old where s: "clobber \<lparr>cl_regulars = True, cl_symlinks = True, cl_dirs = False\<rparr> n p = Inr n1"
    "lookup n1 p = Inr old" "(case old of Some (Dir m es) \<Rightarrow> Inr n1 | _ \<Rightarrow> create new_dir n1 p) = Inr n'"
    by (auto simp: makedir_def res_simps)
  show ?thesis
  proof (cases "\<exists>m es. old = Some (Dir m es)")
    case True
    with s clobber_kept [OF s(1)] show ?thesis by (auto simp: has_shape_def dest!: lookup_Some)
  next
    case False
    with s(3) have "create new_dir n1 p = Inr n'" by (auto split: option.splits node.splits)
    from create_kept [OF this] shapes_kept_trans [OF clobber_kept [OF s(1)]] show ?thesis by (auto simp: has_shape_def)
  qed
qed

lemma makefile_made:
  assumes "makefile content n p = Inr n'"
  shows "shapes_kept p n n' \<and> has_shape (K_Reg, []) n' p"
proof -
  from assms obtain n1 old where s: "clobber \<lparr>cl_regulars = False, cl_symlinks = True, cl_dirs = True\<rparr> n p = Inr n1"
    "lookup n1 p = Inr old"
    "(case old of Some (Reg m c) \<Rightarrow> Inr (map_inode (mt_ino m) (\<lambda>m c. reg_of m content) n1)
      | _ \<Rightarrow> create (node_meta_update (\<lambda>m. m\<lparr>mt_ino := Suc (max_inode n1)\<rparr>) (new_file content)) n1 p) = Inr n'"
    by (auto simp: makefile_def res_simps)
  show ?thesis
  proof (cases "\<exists>m c. old = Some (Reg m c)")
    case True
    then obtain m c where old: "old = Some (Reg m c)" by blast
    with s(3) have n': "n' = map_inode (mt_ino m) (\<lambda>m c. reg_of m content) n1" by simp
    have "shapes_same n1 n'" unfolding n' by (rule map_inode_same) simp
    with s(2) old shapes_kept_trans [OF clobber_kept [OF s(1)]] show ?thesis
      by (auto simp: has_shape_def dest!: lookup_Some dest: shapes_sameD shapes_same_kept)
  next
    case False
    with s(3) have "create (node_meta_update (\<lambda>m. m\<lparr>mt_ino := Suc (max_inode n1)\<rparr>) (new_file content)) n1 p = Inr n'"
      by (auto split: option.splits node.splits)
    from create_kept [OF this] shapes_kept_trans [OF clobber_kept [OF s(1)]] show ?thesis by (auto simp: has_shape_def)
  qed
qed

lemma hard_link_made:
  assumes "hard_link n target p = Inr n'"
  shows "shapes_kept p n n' \<and> has_shape (K_Reg, []) n' p"
proof -
  from assms obtain x where "lookup n target = Inr x" and x: "(case x of
         Some (Reg m c) \<Rightarrow> bindr (create (Reg m c) n p) (\<lambda>n'. Inr (map_inode (mt_ino m) one_more n'))
       | Some (Lnk m t) \<Rightarrow> Inl (Unmodelled ''a link at the end'')
       | _ \<Rightarrow> Inl (Os_Error ''operation not permitted'')) = Inr n'"
    unfolding hard_link_def bindr_Inr_iff by (elim exE conjE)
  from x obtain m c where "x = Some (Reg m c)" by (cases x) (auto split: node.splits)
  with x obtain n1 where n1: "create (Reg m c) n p = Inr n1" and n': "n' = map_inode (mt_ino m) one_more n1"
    by (auto simp: res_simps)
  have "shapes_same n1 n'" unfolding n' by (rule map_inode_same) simp
  with create_kept [OF n1] show ?thesis
    by (auto simp: has_shape_def intro: shapes_kept_trans shapes_same_kept dest: shapes_sameD)
qed

lemma makelink_made:
  assumes "makelink a m n p = Inr n'" "m_type m \<in> {M_Symlink, M_Hardlink}"
  shows "shapes_kept p n n' \<and> has_shape (member_shape m) n' p"
proof -
  from assms(1) obtain n1 where c: "clobber \<lparr>cl_regulars = True, cl_symlinks = True, cl_dirs = True\<rparr> n p = Inr n1"
    by (auto simp: makelink_def res_simps)
  note k = clobber_kept [OF c]
  show ?thesis
  proof (cases "m_type m = M_Symlink")
    case True
    with assms(1) c have "create (new_link (m_linkname m)) n1 p = Inr n'" by (simp add: makelink_def)
    from create_kept [OF this] shapes_kept_trans [OF k] True show ?thesis by (auto simp: has_shape_def type_kind_def member_shape_def)
  next
    case False
    with assms(2) have t: "member_shape m = (K_Reg, [])" by (auto simp: member_shape_def type_kind_def)
    let ?t = "path_parts (m_linkname m)"
    from False assms(1) c obtain there where "exists_at n1 ?t = Inr there" and
      e: "(if there then hard_link n1 ?t p
           else bindr (of_opt Key_Error (ar_find a m)) (\<lambda>t.
             if m_type t = M_File then makefile (ar_data a t) n1 p else Inl (Unmodelled ''a link to no regular file''))) = Inr n'"
      by (auto simp: makelink_def Let_def res_simps simp del: if_split)
    then have "shapes_kept p n1 n' \<and> has_shape (K_Reg, []) n' p"
      by (cases there) (auto simp: res_simps dest: hard_link_made makefile_made split: if_splits)
    with shapes_kept_trans [OF k] t show ?thesis by auto
  qed
qed

lemma meta_update_same:
  assumes "node_alter e (map_option (node_meta_update f)) n p = Inr n'"
  shows "shapes_same n n'"
  unfolding shapes_same_def
proof (intro allI impI)
  fix q x assume x: "node_at n q = Some x"
  show "\<exists>x'. node_at n' q = Some x' \<and> shape x' = shape x"
  proof (cases "prefix p q")
    case True
    then obtain r where q: "q = p @ r" by (auto simp: prefix_def)
    with x obtain y where y: "node_at n p = Some y" "node_at y r = Some x" by (auto simp: node_at_append split: option.splits)
    with node_alter_same [OF assms] have "node_at n' p = Some (node_meta_update f y)" by simp
    moreover have "\<exists>x'. node_at (node_meta_update f y) r = Some x' \<and> shape x' = shape x"
      using y(2) by (cases r; cases y) auto
    ultimately show ?thesis by (simp add: q node_at_append)
  next
    case False
    with shapes_keptD [OF node_alter_kept [OF assms]] x show ?thesis by blast
  qed
qed

lemma set_mode_same:
  assumes "set_mode md n p = Inr n'"
  shows "shapes_same n n'"
proof -
  from assms obtain x where x: "(case x of
         Some (Reg m c) \<Rightarrow> Inr (map_inode (mt_ino m) (\<lambda>m c. Reg (m\<lparr>mt_mode := md\<rparr>) c) n)
       | Some (Lnk m t) \<Rightarrow> Inl (Unmodelled ''a link at the end'')
       | None \<Rightarrow> Inl (Os_Error ''no such file or directory'')
       | Some y \<Rightarrow> if p = [] then Inr (node_meta_update (\<lambda>m. m\<lparr>mt_mode := md\<rparr>) n)
           else node_alter (Os_Error ''no such file or directory'')
                  (map_option (node_meta_update (\<lambda>m. m\<lparr>mt_mode := md\<rparr>))) n p) = Inr n'"
    unfolding set_mode_def bindr_Inr_iff by (elim exE conjE)
  have top: "shapes_same n (node_meta_update f n)" for f
    unfolding shapes_same_def
  proof (intro allI impI)
    fix q x assume "node_at n q = Some x"
    then show "\<exists>x'. node_at (node_meta_update f n) q = Some x' \<and> shape x' = shape x" by (cases q; cases n) auto
  qed
  from x show ?thesis
    by (cases x; cases "the x") (auto simp: map_inode_same top dest: meta_update_same split: if_splits)
qed

lemma make_upper_same: "make_upper n p = Inr n' \<Longrightarrow> shapes_same n n'"
  by (auto simp: make_upper_def res_simps dest: mkdirs_same split: if_splits sum.splits exn.splits)

lemma make_member_made:
  assumes "make_member a m n p = Inr n'"
  shows "shapes_kept p n n' \<and> has_shape (member_shape m) n' p"
  using assms
  by (cases "m_type m")
    (auto simp: make_member_def member_shape_def type_kind_def dest: makefile_made makedir_made makelink_made)

lemma extract_member_made:
  assumes "extract_member a n m = Inr n'"
  shows "shapes_kept (member_parts m) n n' \<and> has_shape (member_shape m) n' (member_parts m)"
proof -
  let ?p = "member_parts m"
  from assms obtain n1 n2 where s: "make_upper n ?p = Inr n1" "make_member a m n1 ?p = Inr n2"
    and e: "(if m_type m \<in> {M_Dir, M_Symlink} then Inr n2
        else case set_mode (m_mode m) n2 ?p of Inl (Os_Error s) \<Rightarrow> Inr n2 | r \<Rightarrow> r) = Inr n'"
    unfolding extract_member_def Let_def bindr_Inr_iff by (elim exE conjE)
  have "shapes_same n2 n'"
    using e by (auto dest: set_mode_same split: if_splits sum.splits exn.splits)
  with make_member_made [OF s(2)] make_upper_same [OF s(1)] show ?thesis
    by (blast intro: shapes_kept_trans shapes_same_kept has_shape_same)
qed

text \<open>What later members do not replace\<close>

definition spares :: "string list \<Rightarrow> member list \<Rightarrow> bool" where
  "spares p ms \<longleftrightarrow> list_all (\<lambda>m. \<not> prefix (member_parts m) p) ms"

lemma extract_members_spared:
  assumes "extract_members a ms n = Inr n'" "spares p ms" "has_shape k n p"
  shows "has_shape k n' p"
  using assms(1,3) unfolding extract_members_def
proof (rule foldr_res_invariant)
  fix m n n' assume "m \<in> set ms" "has_shape k n p" "extract_member a n m = Inr n'"
  with extract_member_made [of a n m n'] assms(2) show "has_shape k n' p"
    by (auto simp: spares_def list_all_iff intro: has_shape_kept)
qed

lemma extract_members_made:
  assumes "extract_members a (as @ m # bs) n = Inr n'" "spares (member_parts m) bs"
  shows "has_shape (member_shape m) n' (member_parts m)"
proof -
  from assms(1) obtain n1 n2 where "extract_member a n1 m = Inr n2"
    and r: "extract_members a bs n2 = Inr n'" by (auto simp: extract_members_def foldr_res_append res_simps)
  from extract_member_made [OF this(1)] extract_members_spared [OF r assms(2)] show ?thesis by blast
qed

lemma dir_modes_same: "dir_modes ms n = Inr n' \<Longrightarrow> shapes_same n n'"
  unfolding dir_modes_def
  by (erule foldr_res_invariant [where P = "shapes_same n"])
    (auto simp: dir_mode_def dest: set_mode_same intro: shapes_same_trans split: sum.splits exn.splits)

lemma extract_layer_steps:
  assumes "extract_layer a ms n = Inr n'"
  obtains n1 where "extract_members a ms n = Inr n1" "shapes_same n1 n'"
proof -
  from assms have "bindr (extract_members a ms n) (dir_modes ms) = Inr n'"
    by (auto simp: extract_layer_def split: sum.splits exn.splits)
  with that show thesis by (auto simp: res_simps dest: dir_modes_same)
qed

lemma extract_layers_spared:
  assumes "foldr_res (extract_layer a) ls n = Inr n'" "spares p (concat ls)" "has_shape k n p"
  shows "has_shape k n' p"
  using assms(1,3)
proof (rule foldr_res_invariant)
  fix ms n n' assume ms: "ms \<in> set ls" "has_shape k n p" "extract_layer a ms n = Inr n'"
  from ms(1) assms(2) have "spares p ms" by (auto simp: spares_def list_all_iff)
  from extract_layer_steps [OF ms(3)] obtain n1 where
    n1: "extract_members a ms n = Inr n1" "shapes_same n1 n'" .
  from has_shape_same [OF extract_members_spared [OF n1(1) \<open>spares p ms\<close> ms(2)] n1(2)] show "has_shape k n' p" .
qed


definition example_member :: "member_type \<Rightarrow> string \<Rightarrow> string \<Rightarrow> member" where
  "example_member t name target = \<lparr>m_name = name, m_type = t, m_mode = 0x1ED, m_uid = 0, m_gid = 0, m_uname = ''root'',
     m_gname = ''root'', m_linkname = target\<rparr>"

text \<open>A directory with a file is replaced by a link, another link by a directory.\<close>

definition example_tar :: "string \<Rightarrow> member list option" where
  "example_tar path =
     (if path = ''1.tar.gz'' then Some [example_member M_Dir ''usr'' [], example_member M_File ''usr/a'' [], example_member M_Symlink ''lib'' ''usr'']
      else Some [example_member M_Symlink ''usr'' ''x'', example_member M_Dir ''lib'' []])"

definition example_archives :: "(string \<Rightarrow> member list option) \<Rightarrow> archives" where
  "example_archives t = \<lparr>ar_open = t, ar_data = m_linkname, ar_find = \<lambda>_. None\<rparr>"

lemma example_layers: "unpack_layers (ar_open (example_archives example_tar)) [''1.tar.gz'', ''2.tar.gz''] 2 =
    Inr [the (example_tar ''1.tar.gz''), [] @ example_member M_Symlink ''usr'' ''x'' # [example_member M_Dir ''lib'' []]]"
  by code_simp

lemma example_tree: "case unpack_tree (example_archives example_tar) [''1.tar.gz'', ''2.tar.gz''] 2 of Inl e \<Rightarrow> False
    | Inr n \<Rightarrow> node_at n [''usr'', ''a''] = None"
  by code_simp


text \<open>
  A file that is replaced by another is overwritten in place, so a hard link of a lower layer
  gets the new contents, though no member of the upper layer names it.
\<close>

definition example_linked :: "string \<Rightarrow> member list option" where
  "example_linked path =
     (if path = ''1.tar.gz'' then Some [example_member M_File ''etc/a'' ''old'', example_member M_Hardlink ''etc/b'' ''etc/a'']
      else Some [example_member M_File ''etc/a'' ''new''])"

lemma hard_link_overwritten:
  "case unpack_tree (example_archives example_linked)
       [''1.tar.gz'', ''2.tar.gz''] 2 of
     Inl e \<Rightarrow> False
   | Inr n \<Rightarrow> file_read_all n [''etc'', ''b''] = Inr ''new''"
  by code_simp

end
