(* ===== verification/Misc.thy ===== *)
theory Misc
  imports Modify Upkeep Pull Extract
begin

text \<open>
  The smaller subcommands (\<open>lib/misc.py\<close>, and \<open>main\<close> and \<open>unpack\<close> of \<open>lib/pull.py\<close>):
  maintaining the cache, deleting, importing, listing and undeleting images, pulling. They
  put the operations of \<open>Cache\<close>, \<open>Upkeep\<close>, \<open>Pull\<close> and \<open>References\<close> together. What is printed
  is a list of lines. Lemmas: deleting removes every image that fits, whatever else is not
  found, and what was in the cache can be found again.
\<close>

section \<open>Naming images\<close>

text \<open>
  The environment of references: the parser; \<open>glob\<close> finds directories by a pattern without
  slashes.
\<close>

record refs_env =
  rf_parser :: "string \<Rightarrow> tree option"
  rf_walk :: walk

definition image_ref :: "refs_env \<Rightarrow> string \<Rightarrow> image_id res" where
  "image_ref e text =
     bindr (reference_of_string (rf_parser e) (rf_walk e) text []) (\<lambda>r.
     bindr (for_path r) (\<lambda>d. bindr (reference_str r) (\<lambda>s. Inr \<lparr>im_dir = d, im_str = s\<rparr>)))"

definition glob_images :: "refs_env \<Rightarrow> (string \<Rightarrow> string \<Rightarrow> bool) \<Rightarrow> string \<Rightarrow> ('g, 'm, image_id list) cio" where
  "glob_images e fits pat =
     bindio (gets (\<lambda>w. filter (fits (ref_to_pathstr pat)) (map fst (cw_images w)))) (\<lambda>ds.
       liftr (mapr (\<lambda>d. image_ref e (path_to_ref d)) ds))"

section \<open>The build cache\<close>

text \<open>The programs that draw the tree are run by \<open>run\<close>.\<close>

record bucache_cli =
  bu_reset :: bool
  bu_gc :: bool
  bu_tree :: bool
  bu_dot :: "string option"

definition build_cache :: "'g upkeep_env \<Rightarrow> cache_class \<Rightarrow> log_level \<Rightarrow> runner \<Rightarrow> string \<Rightarrow> (string list \<Rightarrow> ('g, unit) uio) \<Rightarrow>
    (node \<Rightarrow> nat) \<Rightarrow> bucache_cli \<Rightarrow> ('g, string list) uio" where
  "build_cache e cls lvl versions cwd run disk_bytes c =
     thenio (check (cls \<noteq> Disabled_Cache) (Fatal ''build-cache subcommand invalid with build cache disabled''))
     (thenio (whenio (bu_reset c) (cache_reset e))
     (thenio (whenio (bu_gc c) (garbageinate e))
     (thenio (whenio (bu_tree c) (tree_print e lvl))
     (thenio (case bu_dot c of None \<Rightarrow> ret () | Some base \<Rightarrow>
                letr (tree_dot versions lvl cwd base) (\<lambda>argvs. seqio (map run argvs)))
       (summary_print e disk_bytes (level_value lvl \<ge> level_value VERBOSE))))))"

section \<open>Deleting\<close>

definition delete_image :: "('g, 'm) cache_env \<Rightarrow> image_id \<Rightarrow> ('g, 'm, unit) cio" where
  "delete_image c img =
     thenio (unpack_delete c img False) (branch_delete c (ref_to_pathstr (im_str img)))"

text \<open>The stages' images are looked for when the others are deleted. The result says whether any matched.\<close>

definition delete_ref :: "refs_env \<Rightarrow> ('g, 'm) cache_env \<Rightarrow> (string \<Rightarrow> string \<Rightarrow> bool) \<Rightarrow> string \<Rightarrow> ('g, 'm, bool) cio" where
  "delete_ref e c fits pat =
     bindio (glob_images e fits pat) (\<lambda>is.
     thenio (seqio (map (delete_image c) is))
     (bindio (glob_images e fits (pat @ ''_stage[0-9]*'')) (\<lambda>ss.
      thenio (seqio (map (delete_image c) ss)) (ret (is @ ss \<noteq> [])))))"

definition delete :: "refs_env \<Rightarrow> ('g, 'm) cache_env \<Rightarrow> (string \<Rightarrow> string \<Rightarrow> bool) \<Rightarrow> ('g, 'm, unit) cio \<Rightarrow> string list \<Rightarrow> ('g, 'm, unit) cio" where
  "delete e c fits fix_worktrees pats =
     bindio (mapio (delete_ref e c fits) pats) (\<lambda>found.
     thenio fix_worktrees
       (check (list_all id found) (Fatal ''unable to delete %d invalid image(s)'')))"

section \<open>Importing\<close>

text \<open>\<open>copy_unpacked\<close> from a path that is no image\<close>

definition copy_from :: "image_id \<Rightarrow> node \<Rightarrow> ('g, 'm, unit) cio" where
  "copy_from img n =
     bindio (unpack_exist_p img) (\<lambda>there.
     bindio (check (\<not> there) (Os_Error ''file exists'')) (\<lambda>_.
     bindio (liftr (if node_at n git_dir_parts = None then Inr n
                    else node_alter (Fatal ''can't unlink: %s'') (\<lambda>_. None) n git_dir_parts)) (\<lambda>n.
     bindio (liftr (unpack_init n)) (put_image (im_dir img)))))"

definition load_and_save :: "'g build_env \<Rightarrow> image_id \<Rightarrow> ('g, unit) bio" where
  "load_and_save e img =
     bindio (load_metadata e (im_dir img)) (\<lambda>md.
     thenio (modify (\<lambda>w. w\<lparr>bw_md := md\<rparr>)) (save_metadata e (im_dir img) md))"

text \<open>
  \<open>src\<close> is what is at the path, an archive is a layer of its own. The history is written after
  the image was committed.
\<close>

definition import_image :: "'g build_env \<Rightarrow> archives \<Rightarrow> string \<Rightarrow> node option \<Rightarrow> string \<Rightarrow> ('g, unit) bio" where
  "import_image e a path src ref =
     letr (of_opt (Fatal ''can't copy: not found: %s'') src) (\<lambda>src.
     thenio (whenio (be_cls e = Enabled_Cache) (tag_delete (be_cache e) (ref_to_pathstr ref) True))
     (letr (image_of e ref []) (\<lambda>dst.
      thenio (unpack_clear dst)
      (thenio (if node_kind src = K_Dir then copy_from dst src
               else letr (image_unpack a [path] 1) (put_image (im_dir dst)))
      (bindio (adopt (be_cache e) (be_cls e) (load_and_save e) dst) (\<lambda>_.
       thenio (bindio (gets bw_md) (\<lambda>md.
                 letr (import_history (md_history md)) (\<lambda>h. modify (\<lambda>w. w\<lparr>bw_md := md\<lparr>md_history := h\<rparr>\<rparr>))))
         (bindio (gets bw_md) (save_metadata e (im_dir dst)))))))))"

section \<open>Listing\<close>

text \<open>
  All images, or all that were deleted but are in the cache. \<open>there\<close> and \<open>valid\<close> say whether the
  storage directory is; \<open>modified\<close> is the date to print.
\<close>

definition pad_right :: "nat \<Rightarrow> string \<Rightarrow> string" where "pad_right n s = s @ replicate (n - length s) CHR '' ''"

definition list_all_images :: "refs_env \<Rightarrow> (image_id \<Rightarrow> string res) \<Rightarrow> bool \<Rightarrow> bool \<Rightarrow> bool \<Rightarrow> string list \<Rightarrow> string list res" where
  "list_all_images e modified there valid long names =
     bindr (guard there (Fatal ''does not exist: %s'')) (\<lambda>_.
     bindr (guard valid (Fatal ''not a storage directory: %s'')) (\<lambda>_.
      let names = sort names; width = fold max (map length names) 0 in
      mapr (\<lambda>n. bindr (image_ref e n) (\<lambda>img.
        if long then bindr (modified img) (\<lambda>d. Inr (pad_right width (im_str img) @ '' | '' @ d))
        else Inr (im_str img))) names))"

definition cached_text :: "state_id option \<times> string option \<Rightarrow> string" where
  "cached_text sc =
     (case sc of (Some sid, Some c) \<Rightarrow> ''yes (state ID '' @ sid_short sid @ '', commit '' @ take 7 c @ '')'' | _ \<Rightarrow> ''no'')"

text \<open>Warnings when the image in storage is not what the cache has\<close>

definition head_warning :: "string option \<Rightarrow> string \<Rightarrow> string list" where
  "head_warning head h0 =
     (case head of None \<Rightarrow> [''stored image not connected to build cache'']
      | Some h \<Rightarrow> if h \<noteq> h0 then [''stored image doesn't match build cache: '' @ h] else [])"

text \<open>What a registry says: \<open>None\<close> for an image that is not there, and the architectures, if it is aware of them.\<close>

datatype remote = Unavailable | Unaware | Archs "(string, string option) dict option" "(string, string) dict"

definition remote_of :: "(bool \<times> puller) res \<Rightarrow> remote res" where
  "remote_of r =
     (case r of
        Inr (no_fatman, p) \<Rightarrow> Inr (if no_fatman then Unaware else Archs (pl_architectures p) (pl_digests p))
      | Inl Image_Unavailable_Error \<Rightarrow> Inr Unavailable
      | Inl x \<Rightarrow> Inl x)"

definition arch_lines :: "(string, string) dict \<Rightarrow> string list \<Rightarrow> string list res" where
  "arch_lines digests keys =
     (if keys = [] then Inr [''None'']
      else mapr (\<lambda>k. bindr (of_opt Key_Error (map_of digests k)) (\<lambda>d.
             Inr (pad_right (fold max (map length keys) 0) k @ ''  '' @ take 11 d))) keys)"

definition remote_lines :: "remote \<Rightarrow> (string \<times> string \<times> string list) res" where
  "remote_lines r =
     (case r of
        Unavailable \<Rightarrow> Inr (''no (or you are not authorized)'', ''n/a'', [''n/a''])
      | Unaware \<Rightarrow> Inr (''yes'', ''no'', [''unknown''])
      | Archs as digests \<Rightarrow>
          bindr (of_opt Attribute_Error as) (\<lambda>as.
          bindr (arch_lines digests (sort (map fst as))) (\<lambda>ls. Inr (''yes'', ''yes'', ls))))"

definition details_lines :: "string \<Rightarrow> string \<Rightarrow> string \<Rightarrow> string \<Rightarrow> string \<Rightarrow> string \<times> string \<times> string list \<Rightarrow> string list" where
  "details_lines ref here cached full host r =
     (case r of (remote, aware, archs) \<Rightarrow>
       [''details of image:    '' @ ref, ''in local storage:    '' @ here, ''in build cache:      '' @ cached,
        ''full remote ref:     '' @ full, ''available remotely:  '' @ remote, ''remote arch-aware:   '' @ aware,
        ''host architecture:   '' @ host, ''archs available:     '' @ hd archs]
       @ map (\<lambda>a. replicate 21 CHR '' '' @ a) (tl archs))"

definition stored_text :: "'g build_env \<Rightarrow> (image_id \<Rightarrow> string res) \<Rightarrow> image_id \<Rightarrow> ('g, string) bio" where
  "stored_text e modified img =
     bindio (unpack_exist_p img) (\<lambda>there.
       if \<not> there then ret ''no''
       else bindio (load_metadata e (im_dir img)) (\<lambda>md.
            letr (json_str (md_arch md)) (\<lambda>arch.
            letr (modified img) (\<lambda>d. ret (''yes ('' @ arch @ ''), modified: '' @ d)))))"

text \<open>The lines, after the warnings; \<open>fatman\<close> asks the registry for the manifest list.\<close>

definition list_image :: "'g build_env \<Rightarrow> (image_id \<Rightarrow> string res) \<Rightarrow> (reference \<Rightarrow> (bool \<times> puller) res) \<Rightarrow> string \<Rightarrow>
    ('g, string list \<times> string list) bio" where
  "list_image e modified fatman text =
     letr (reference_of_string (be_parser e) (be_walk e) text []) (\<lambda>r.
     letr (image_of e text []) (\<lambda>img.
     bindio (stored_text e modified img) (\<lambda>here.
     bindio (find_image (be_cache e) (be_cls e) img) (\<lambda>(sid, h0).
     bindio (unpack_exist_p img) (\<lambda>there.
     bindio (if sid \<noteq> None \<and> there
             then bindio (worktree_head (be_cache e) img) (\<lambda>h. ret (head_warning h (the h0))) else ret []) (\<lambda>warnings.
     letr (bindr (canonical (be_environ e) r) reference_str) (\<lambda>full.
     letr (bindr (remote_of (fatman r)) remote_lines) (\<lambda>lines.
       ret (warnings, details_lines (im_str img) here (cached_text (sid, h0)) full (be_arch_host e) lines)))))))))"

section \<open>Undeleting\<close>

definition undelete :: "refs_env \<Rightarrow> ('g, 'm) cache_env \<Rightarrow> cache_class \<Rightarrow> string \<Rightarrow> ('g, 'm, unit) cio" where
  "undelete e c cls ref =
     thenio (check (cls = Enabled_Cache) (Fatal ''only available when cache is enabled''))
     (letr (image_ref e ref) (\<lambda>img.
      bindio (unpack_exist_p img) (\<lambda>there.
      thenio (check (\<not> there) (Fatal ''image exists; will not overwrite''))
      (bindio (find_deleted_image c img) (\<lambda>(_, h).
       thenio (check (h \<noteq> None) (Fatal ''image not in cache'')) (checkout_ready c cls img h None))))))"

section \<open>Pulling\<close>

definition pull_main :: "refs_env \<Rightarrow> ('g, 'm) cache_env \<Rightarrow> cache_class \<Rightarrow> bool \<Rightarrow> string \<Rightarrow> string option \<Rightarrow> int option \<Rightarrow> ('g, 'm, unit) cio" where
  "pull_main e c cls parse_only source dest last_layer =
     letr (image_ref e source) (\<lambda>src.
     letr (case dest of None \<Rightarrow> Inr src | Some d \<Rightarrow> image_ref e d) (\<lambda>dst.
     thenio (check (\<not> parse_only) (System_Exit 0)) (pull_eager c cls dst src last_layer)))"

text \<open>
  \<open>Image_Puller.unpack\<close>: \<open>a\<close> reads the layers' tarballs; \<open>config\<close> is the text of the
  configuration and what it parses to. The result says which warnings are given.
\<close>

definition arch_warnings :: "string \<Rightarrow> string \<Rightarrow> string \<Rightarrow> bool \<times> bool" where
  "arch_warnings arch_image arch arch_host =
     (arch_image \<noteq> ''unknown'' \<and> arch_image \<noteq> hd (split_on CHR ''/'' arch_host),
      arch \<noteq> ''yolo'' \<and> hd (split_on CHR ''/'' arch) \<noteq> arch_image)"

definition pull_unpack :: "'g build_env \<Rightarrow> archives \<Rightarrow> image_id \<Rightarrow> string \<Rightarrow> string list \<Rightarrow> nat \<Rightarrow> (string \<times> json) option \<Rightarrow>
    ('g, bool \<times> bool) bio" where
  "pull_unpack e a img arch layer_paths last_layer config =
     thenio (unpack_delete (be_cache e) img True)
     (letr (image_unpack a layer_paths last_layer) (\<lambda>n.
      letr (case config of None \<Rightarrow> Inr n | Some (text, j) \<Rightarrow> file_write text n [''ch'', ''config.pulled.json'']) (\<lambda>n.
      thenio (put_image (im_dir img) n)
      (letr (metadata_replace (be_environ e) (be_arch_host e) (map_option snd config)) (\<lambda>md.
       thenio (save_metadata e (im_dir img) md)
         (letr (if truthy (md_arch md) then json_str (md_arch md) else Inr ''unknown'') (\<lambda>arch_image.
            ret (arch_warnings arch_image arch (be_arch_host e)))))))))"

section \<open>Deleted images can be found again\<close>

text \<open>
  What is used of Git's references: what \<open>git log -n 1\<close> shows for a name, which branches there
  are, and which branch is checked out in an image. Names with \<open>~\<close> and the like, and HEAD, are
  not plain. Nothing is said of what a name shows after its branch is deleted.
\<close>

definition plain :: "string \<Rightarrow> bool" where
  "plain x \<longleftrightarrow> x \<noteq> ''HEAD'' \<and> x \<noteq> ''@'' \<and> list_all (\<lambda>c. c \<notin> {CHR ''~'', CHR ''^'', CHR '':'', CHR ''{''}) x"

record 'g git_refs =
  gr_shown :: "'g \<Rightarrow> string \<Rightarrow> string option"
  gr_head :: "'g \<Rightarrow> string \<Rightarrow> bool"
  gr_on :: "'g \<Rightarrow> string \<Rightarrow> string option"

definition same_images :: "('g, 'm) cworld_scheme \<Rightarrow> ('g, 'm) cworld_scheme \<Rightarrow> bool" where
  "same_images w w' \<longleftrightarrow> (\<forall>d. (map_of (cw_images w') d = None) = (map_of (cw_images w) d = None))"

definition refs_kept :: "'g git_refs \<Rightarrow> string set \<Rightarrow> 'g \<Rightarrow> 'g \<Rightarrow> bool" where
  "refs_kept r xs g g' \<longleftrightarrow> (\<forall>y. plain y \<longrightarrow> y \<notin> xs \<longrightarrow> gr_shown r g' y = gr_shown r g y)"

definition git_reads_spec :: "('g, 'm) cache_env \<Rightarrow> 'g git_refs \<Rightarrow> bool" where
  "git_reads_spec c r \<longleftrightarrow> (\<forall>w x.
     (case gr_shown r (cw_git w) x of
        Some t \<Rightarrow> ce_git c None (log_argv x) None w = ((0, t), w)
      | None \<Rightarrow> \<exists>code out. code \<noteq> 0 \<and> ce_git c None (log_argv x) None w = ((code, out), w)) \<and>
     (\<exists>code out. ce_git c None [''show-ref'', ''--quiet'', ''--heads'', x] None w = ((code, out), w)
        \<and> (code = 0 \<longleftrightarrow> gr_head r (cw_git w) x)) \<and>
     (\<exists>out. ce_git c None [''rev-parse'', ''HEAD''] None w = ((0, out), w) \<and> gr_shown r (cw_git w) (strip_ws out) \<noteq> None
        \<and> plain (strip_ws out)) \<and>
     (gr_head r (cw_git w) x \<longrightarrow> gr_shown r (cw_git w) x \<noteq> None))"

definition git_writes_spec :: "('g, 'm) cache_env \<Rightarrow> 'g git_refs \<Rightarrow> bool" where
  "git_writes_spec c r \<longleftrightarrow> (\<forall>w x t. gr_shown r (cw_git w) x = Some t \<longrightarrow> plain x \<longrightarrow>
     (\<exists>out w'. ce_git c None [''update-ref'', ''HEAD'', x] None w = ((0, out), w') \<and> same_images w w'
        \<and> refs_kept r {} (cw_git w) (cw_git w') \<and> gr_head r (cw_git w') = gr_head r (cw_git w)
        \<and> gr_on r (cw_git w') = gr_on r (cw_git w)) \<and>
     (\<exists>out w'. ce_git c None [''tag'', ''-a'', ''-f'', ''&'' @ x, x, ''-m'', [squote, squote]] None w = ((0, out), w')
        \<and> same_images w w' \<and> gr_shown r (cw_git w') (''&'' @ x) = Some t
        \<and> refs_kept r {''&'' @ x} (cw_git w) (cw_git w') \<and> gr_head r (cw_git w') = gr_head r (cw_git w)
        \<and> gr_on r (cw_git w') = gr_on r (cw_git w)) \<and>
     (\<forall>d. map_of (cw_images w) d \<noteq> None \<longrightarrow>
        (\<exists>out w'. ce_git c (Some d) [''checkout'', hd (split_on newline t)] None w = ((0, out), w') \<and> same_images w w'
           \<and> refs_kept r {} (cw_git w) (cw_git w') \<and> gr_head r (cw_git w') = gr_head r (cw_git w)
           \<and> gr_on r (cw_git w') = (gr_on r (cw_git w))(d := None))) \<and>
     (gr_head r (cw_git w) x \<and> (\<forall>d. gr_on r (cw_git w) d \<noteq> Some x) \<longrightarrow>
        (\<exists>out w'. ce_git c None [''branch'', ''-D'', x] None w = ((0, out), w') \<and> same_images w w'
           \<and> refs_kept r {x} (cw_git w) (cw_git w') \<and> gr_head r (cw_git w') = (gr_head r (cw_git w))(x := False)
           \<and> gr_on r (cw_git w') = gr_on r (cw_git w))))"

lemma same_images_trans: "same_images w w1 \<Longrightarrow> same_images w1 w2 \<Longrightarrow> same_images w w2"
  by (simp add: same_images_def)

lemma refs_kept_trans: "refs_kept r xs g g1 \<Longrightarrow> refs_kept r ys g1 g2 \<Longrightarrow> refs_kept r (xs \<union> ys) g g2"
  by (simp add: refs_kept_def)

lemma same_images_refl [simp]: "same_images w w" and refs_kept_refl [simp]: "refs_kept r xs g g"
  by (simp_all add: same_images_def refs_kept_def)

lemma git_readsD:
  assumes "git_reads_spec c r"
  shows find_commit_shown: "find_commit c x w =
      (case gr_shown r (cw_git w) x of None \<Rightarrow> Inr (None, None) | Some t \<Rightarrow> log_parse t, w)"
    and find_deleted_shown: "commit_find_deleted c x w =
      (case gr_shown r (cw_git w) (''&'' @ x) of None \<Rightarrow> Inr (None, None) | Some t \<Rightarrow> log_parse t, w)"
    and "\<exists>code out. ce_git c None [''show-ref'', ''--quiet'', ''--heads'', x] None w = ((code, out), w)
        \<and> (code = 0 \<longleftrightarrow> gr_head r (cw_git w) x)"
    and "\<exists>out. ce_git c None [''rev-parse'', ''HEAD''] None w = ((0, out), w)
        \<and> gr_shown r (cw_git w) (strip_ws out) \<noteq> None \<and> plain (strip_ws out)"
    and "gr_head r (cw_git w) x \<Longrightarrow> gr_shown r (cw_git w) x \<noteq> None"
proof -
  note s = assms [unfolded git_reads_spec_def, THEN spec, of w, THEN spec, THEN conjunct1]
  show "find_commit c x w = (case gr_shown r (cw_git w) x of None \<Rightarrow> Inr (None, None) | Some t \<Rightarrow> log_parse t, w)"
    using s [of x] unfolding find_commit_def bindio_def git_def liftr_def ret_def
    by (auto split: option.splits)
  show "commit_find_deleted c x w = (case gr_shown r (cw_git w) (''&'' @ x) of None \<Rightarrow> Inr (None, None) | Some t \<Rightarrow> log_parse t, w)"
    using s [of "''&'' @ x"] unfolding commit_find_deleted_def bindio_def git_def liftr_def ret_def
    by (auto split: option.splits)
qed (use assms in \<open>simp_all add: git_reads_spec_def\<close>)

lemma git_writesD:
  assumes "git_writes_spec c r" "gr_shown r (cw_git w) x = Some t" "plain x"
  shows "\<exists>out w'. ce_git c None [''update-ref'', ''HEAD'', x] None w = ((0, out), w') \<and> same_images w w'
        \<and> refs_kept r {} (cw_git w) (cw_git w') \<and> gr_head r (cw_git w') = gr_head r (cw_git w)
        \<and> gr_on r (cw_git w') = gr_on r (cw_git w)"
    and "\<exists>out w'. ce_git c None [''tag'', ''-a'', ''-f'', ''&'' @ x, x, ''-m'', [squote, squote]] None w = ((0, out), w')
        \<and> same_images w w' \<and> gr_shown r (cw_git w') (''&'' @ x) = Some t
        \<and> refs_kept r {''&'' @ x} (cw_git w) (cw_git w') \<and> gr_head r (cw_git w') = gr_head r (cw_git w)
        \<and> gr_on r (cw_git w') = gr_on r (cw_git w)"
    and "map_of (cw_images w) d \<noteq> None \<Longrightarrow>
        \<exists>out w'. ce_git c (Some d) [''checkout'', hd (split_on newline t)] None w = ((0, out), w') \<and> same_images w w'
           \<and> refs_kept r {} (cw_git w) (cw_git w') \<and> gr_head r (cw_git w') = gr_head r (cw_git w)
           \<and> gr_on r (cw_git w') = (gr_on r (cw_git w))(d := None)"
    and "gr_head r (cw_git w) x \<Longrightarrow> (\<And>d. gr_on r (cw_git w) d \<noteq> Some x) \<Longrightarrow>
        \<exists>out w'. ce_git c None [''branch'', ''-D'', x] None w = ((0, out), w') \<and> same_images w w'
           \<and> refs_kept r {x} (cw_git w) (cw_git w') \<and> gr_head r (cw_git w') = (gr_head r (cw_git w))(x := False)
           \<and> gr_on r (cw_git w') = gr_on r (cw_git w)"
proof -
  note s = assms(1) [unfolded git_writes_spec_def, THEN spec, THEN spec, THEN spec, THEN mp, THEN mp, OF assms(2,3)]
  show "\<exists>out w'. ce_git c None [''update-ref'', ''HEAD'', x] None w = ((0, out), w') \<and> same_images w w'
        \<and> refs_kept r {} (cw_git w) (cw_git w') \<and> gr_head r (cw_git w') = gr_head r (cw_git w)
        \<and> gr_on r (cw_git w') = gr_on r (cw_git w)"
    by (rule s [THEN conjunct1])
  show "\<exists>out w'. ce_git c None [''tag'', ''-a'', ''-f'', ''&'' @ x, x, ''-m'', [squote, squote]] None w = ((0, out), w')
        \<and> same_images w w' \<and> gr_shown r (cw_git w') (''&'' @ x) = Some t
        \<and> refs_kept r {''&'' @ x} (cw_git w) (cw_git w') \<and> gr_head r (cw_git w') = gr_head r (cw_git w)
        \<and> gr_on r (cw_git w') = gr_on r (cw_git w)"
    by (rule s [THEN conjunct2, THEN conjunct1])
qed (use assms(1) [unfolded git_writes_spec_def, THEN spec, THEN spec, THEN spec, THEN mp, THEN mp, OF assms(2,3)] in
    \<open>blast dest: conjunct2\<close>)+

lemma plain_at [simp]: "plain x \<Longrightarrow> plain (CHR ''&'' # x)" and plain_unready: "plain x \<Longrightarrow> plain (x @ ''#'')"
  by (auto simp: plain_def)

lemma branch_delete_one_run:
  fixes w :: "('g, 'm) cworld_scheme"
  assumes rd: "git_reads_spec c r" and wr: "git_writes_spec c r" and b: "plain b" "\<And>d. gr_on r (cw_git w) d \<noteq> Some b"
  shows "\<exists>w'. branch_delete_one c b w = (Inr (), w') \<and> same_images w w' \<and> refs_kept r {b} (cw_git w) (cw_git w')
      \<and> gr_head r (cw_git w') = (gr_head r (cw_git w))(b := False) \<and> gr_on r (cw_git w') = gr_on r (cw_git w)"
proof -
  from git_readsD(3) [OF rd] obtain code out where
    ref: "ce_git c None [''show-ref'', ''--quiet'', ''--heads'', b] None w = ((code, out), w)" "code = 0 \<longleftrightarrow> gr_head r (cw_git w) b"
    by blast
  show ?thesis
  proof (cases "code = 0")
    case False
    with ref have "gr_head r (cw_git w) b = False" by simp
    then have "(gr_head r (cw_git w))(b := False) = gr_head r (cw_git w)" by (simp add: fun_eq_iff)
    with False ref show ?thesis by (auto simp: branch_delete_one_def io_run git_def)
  next
    case True
    with ref have head: "gr_head r (cw_git w) b" by simp
    with git_readsD(5) [OF rd] obtain t where t: "gr_shown r (cw_git w) b = Some t" by blast
    from git_readsD(4) [OF rd] obtain old told where
      old: "ce_git c None [''rev-parse'', ''HEAD''] None w = ((0, old), w)" "gr_shown r (cw_git w) (strip_ws old) = Some told"
        "plain (strip_ws old)" by blast
    from git_writesD(1) [OF wr t b(1)] obtain o1 w1 where w1: "ce_git c None [''update-ref'', ''HEAD'', b] None w = ((0, o1), w1)" "same_images w w1"
        "refs_kept r {} (cw_git w) (cw_git w1)" "gr_head r (cw_git w1) = gr_head r (cw_git w)"
        "gr_on r (cw_git w1) = gr_on r (cw_git w)" by blast
    from w1(3) old have "gr_shown r (cw_git w1) (strip_ws old) = Some told" by (simp add: refs_kept_def)
    from git_writesD(1) [OF wr this old(3)] obtain o2 w2 where
      w2: "ce_git c None [''update-ref'', ''HEAD'', strip_ws old] None w1 = ((0, o2), w2)" "same_images w1 w2"
        "refs_kept r {} (cw_git w1) (cw_git w2)" "gr_head r (cw_git w2) = gr_head r (cw_git w1)"
        "gr_on r (cw_git w2) = gr_on r (cw_git w1)" by blast
    have t2: "gr_shown r (cw_git w2) b = Some t" using t b(1) w1(3) w2(3) by (simp add: refs_kept_def)
    have "gr_head r (cw_git w2) b" "\<And>d. gr_on r (cw_git w2) d \<noteq> Some b" using head b(2) w1(4,5) w2(4,5) by auto
    from git_writesD(4) [OF wr t2 b(1) this] obtain o3 w3 where
      w3: "ce_git c None [''branch'', ''-D'', b] None w2 = ((0, o3), w3)" "same_images w2 w3"
        "refs_kept r {b} (cw_git w2) (cw_git w3)" "gr_head r (cw_git w3) = (gr_head r (cw_git w2))(b := False)"
        "gr_on r (cw_git w3) = gr_on r (cw_git w2)"
      by blast
    have "branch_delete_one c b w = (Inr (), w3)"
      using ref True old(1) w1(1) w2(1) w3(1) by (simp add: branch_delete_one_def io_run git_def git0_def Let_def)
    moreover have "same_images w w3" using w1(2) w2(2) w3(2) by (blast intro: same_images_trans)
    moreover have "refs_kept r {b} (cw_git w) (cw_git w3)"
      using refs_kept_trans [OF refs_kept_trans [OF w1(3) w2(3)] w3(3)] by simp
    ultimately show ?thesis using w1(4,5) w2(4,5) w3(4,5) by auto
  qed
qed

text \<open>Deleting both branches of a cached image, after tagging what it was\<close>

lemma branch_delete_run:
  fixes w :: "('g, 'm) cworld_scheme"
  assumes rd: "git_reads_spec c r" and wr: "git_writes_spec c r" and b: "plain b" "ready_p b"
    and on: "\<And>d. gr_on r (cw_git w) d \<noteq> Some b" "\<And>d. gr_on r (cw_git w) d \<noteq> Some (b @ ''#'')"
    and t: "gr_shown r (cw_git w) b = Some t" "log_parse t = Inr (sid, Some h)"
  shows "\<exists>w'. branch_delete c b w = (Inr (), w') \<and> same_images w w' \<and> gr_shown r (cw_git w') (''&'' @ b) = Some t
      \<and> \<not> gr_head r (cw_git w') b \<and> \<not> gr_head r (cw_git w') (b @ ''#'')"
proof -
  let ?u = "b @ ''#''"
  from git_writesD(2) [OF wr t(1) b(1)] obtain o1 w1 where
    w1: "ce_git c None [''tag'', ''-a'', ''-f'', ''&'' @ b, b, ''-m'', [squote, squote]] None w = ((0, o1), w1)"
      "same_images w w1" "gr_shown r (cw_git w1) (''&'' @ b) = Some t" "gr_on r (cw_git w1) = gr_on r (cw_git w)" by blast
  have "\<And>d. gr_on r (cw_git w1) d \<noteq> Some b" using w1(4) on(1) by simp
  from branch_delete_one_run [OF rd wr b(1) this] obtain w2 where
    w2: "branch_delete_one c b w1 = (Inr (), w2)" "same_images w1 w2" "refs_kept r {b} (cw_git w1) (cw_git w2)"
      "gr_head r (cw_git w2) = (gr_head r (cw_git w1))(b := False)" "gr_on r (cw_git w2) = gr_on r (cw_git w1)" by blast
  have "\<And>d. gr_on r (cw_git w2) d \<noteq> Some ?u" using w1(4) w2(5) on(2) by simp
  from branch_delete_one_run [OF rd wr plain_unready [OF b(1)] this] obtain w3 where
    w3: "branch_delete_one c ?u w2 = (Inr (), w3)" "same_images w2 w3" "refs_kept r {?u} (cw_git w2) (cw_git w3)"
      "gr_head r (cw_git w3) = (gr_head r (cw_git w2))(?u := False)" by blast
  have "cached_p c b w = (Inr True, w)"
    by (simp add: cached_p_def io_run find_commit_shown [OF rd] t)
  then have "branch_delete c b w = (Inr (), w3)"
    using b(2) w1(1) w2(1) w3(1) by (simp add: branch_delete_def io_run unready_of_def git0_def git_def)
  moreover have "''&'' @ b \<noteq> b" "''&'' @ b \<noteq> ?u"
    by (auto dest: arg_cong [where f = "\<lambda>x. count_list x CHR ''&''"])
  then have "gr_shown r (cw_git w3) (''&'' @ b) = Some t"
    using w1(3) w2(3) w3(3) b(1) by (simp add: refs_kept_def)
  moreover have "same_images w w3" using w1(2) w2(2) w3(2) by (blast intro: same_images_trans)
  ultimately show ?thesis using w2(4) w3(4) by auto
qed

lemma image_ref_dir: "image_ref e text = Inr img \<Longrightarrow> im_dir img = ref_to_pathstr (im_str img)"
  by (auto simp: image_ref_def for_path_def res_simps)


text \<open>A Git with names, branches and what is checked out where: the specifications can hold.\<close>

record refs_git =
  rg_shown :: "(string, string) dict"
  rg_heads :: "string list"
  rg_on :: "(string, string) dict"

definition shown_in :: "refs_git \<Rightarrow> string \<Rightarrow> string option" where
  "shown_in g x = (case map_of (rg_shown g) x of Some t \<Rightarrow> Some t
     | None \<Rightarrow> if x = ''root'' \<or> x \<in> set (rg_heads g) then Some ''1a2b3c4'' else None)"

definition refs_git :: "string option \<Rightarrow> string list \<Rightarrow> string option \<Rightarrow> refs_git cworld \<Rightarrow> (int \<times> string) \<times> refs_git cworld" where
  "refs_git cwd argv inp w =
     (let g = cw_git w; sub = argv ! 0 in
      if sub = ''log'' then (case shown_in g (argv ! 4) of None \<Rightarrow> ((128, []), w) | Some t \<Rightarrow> ((0, t), w))
      else if sub = ''show-ref'' then ((if argv ! 3 \<in> set (rg_heads g) then 0 else 1, []), w)
      else if sub = ''rev-parse'' then ((0, ''root''), w)
      else if sub = ''tag'' then ((0, []), w\<lparr>cw_git := g\<lparr>rg_shown := AList.update (argv ! 3) (the (shown_in g (argv ! 4))) (rg_shown g)\<rparr>\<rparr>)
      else if sub = ''checkout'' then ((0, []), w\<lparr>cw_git := g\<lparr>rg_on := AList.delete (the cwd) (rg_on g)\<rparr>\<rparr>)
      else if sub = ''branch'' then ((0, []), w\<lparr>cw_git := g\<lparr>rg_heads := removeAll (argv ! 2) (rg_heads g)\<rparr>\<rparr>)
      else ((0, []), w))"

definition refs_git_env :: "(refs_git, unit) cache_env" where
  "refs_git_env = \<lparr>ce_git = refs_git, ce_md5 = \<lambda>b. b, ce_fm = example_fm_env, ce_dumps = \<lambda>_. [],
     ce_loads = \<lambda>_. Inl Value_Error, ce_inode = \<lambda>w. 0, ce_unpack_path = \<lambda>d. d, ce_download = \<lambda>a b. ret [],
     ce_unpack = \<lambda>a b. ret (), ce_pull_done = ret ()\<rparr>"

definition refs_git_refs :: "refs_git git_refs" where
  "refs_git_refs = \<lparr>gr_shown = shown_in, gr_head = \<lambda>g x. x \<in> set (rg_heads g), gr_on = \<lambda>g. map_of (rg_on g)\<rparr>"

lemma refs_git_reads: "git_reads_spec refs_git_env refs_git_refs"
proof -
  have "strip_ws ''root'' = ''root''" by code_simp
  moreover have "plain ''root''" by code_simp
  ultimately show ?thesis
    by (auto simp: git_reads_spec_def refs_git_env_def refs_git_refs_def refs_git_def shown_in_def log_argv_def Let_def
        split: option.split)
qed

lemma refs_git_writes: "git_writes_spec refs_git_env refs_git_refs"
  unfolding git_writes_spec_def
  by (auto simp: refs_git_env_def refs_git_refs_def refs_git_def shown_in_def same_images_def refs_kept_def Let_def
      update_conv' delete_conv' fun_eq_iff map_of_eq_None_iff split: option.split)

definition example_refs_env :: refs_env where
  "example_refs_env = \<lparr>rf_parser = \<lambda>s. Some (ref_tree \<lparr>a_host = None, a_port = None, a_path = [], a_name = s, a_suffix = No_Suffix\<rparr>),
     rf_walk = subtrees\<rparr>"

lemma example_image_ref: "image_ref example_refs_env ''img'' = Inr \<lparr>im_dir = ''img'', im_str = ''img''\<rparr>"
  by code_simp

definition example_shown :: string where
  "example_shown = ''1a2b3c4'' @ [newline] @ ''PULL img'' @ [newline, newline] @ ''4A4A:4A4A:4A4A4A4A:4A4A4A4A:4A4A4A4A''"

lemma example_log_parse: "log_parse example_shown = Inr (Some (replicate 16 CHR ''J''), Some ''1a2b3c4'')"
  by code_simp

definition example_refs_world :: "refs_git cworld" where
  "example_refs_world = \<lparr>cw_git = \<lparr>rg_shown = [(''img'', example_shown)], rg_heads = [''img''], rg_on = [(''img'', ''img#'')]\<rparr>,
     cw_images = [(''img'', Dir (example_meta 0x1ED 1 2 0) [])], cw_image_tmp = None, cw_large = [], cw_fm = None,
     cw_bootstrap_ct = 0\<rparr>"


end
