(* ===== verification/Image_Facts.thy ===== *)
theory Image_Facts
  imports File_Ops Build_Facts Cache_Facts Copying
begin

text \<open>
  Facts about the files of an image that take several components: where \<open>COPY\<close> puts files and
  what it leaves alone (\<open>Copying\<close>), and what metadata saved in an image are when they are loaded
  again (\<open>Metadata\<close>, \<open>Build\<close>).
\<close>

section \<open>The destination of COPY\<close>

text \<open>At a path there is no symbolic link.\<close>

definition no_link :: "node \<Rightarrow> string list \<Rightarrow> bool" where
  "no_link img p \<longleftrightarrow> (case Copying.lookup img p of Found (Lnk m t) \<Rightarrow> False | _ \<Rightarrow> True)"

lemma no_link_root: "node_kind img = K_Dir \<Longrightarrow> no_link img []"
  by (cases img) (simp_all add: no_link_def Copying.lookup_def)

lemma no_link_snoc:
  "(\<And>q. prefix q canon \<Longrightarrow> no_link img q) \<Longrightarrow> no_link img (canon @ [c]) \<Longrightarrow> prefix q (canon @ [c]) \<Longrightarrow> no_link img q"
  by (auto simp: prefix_snoc)

lemma dest_loop_step:
  assumes "dest_loop img (Suc n) canon (part # rest) = Inr p"
  shows "(\<exists>rest'. dest_loop img n canon rest' = Inr p) \<or> (\<exists>rest'. dest_loop img n [] rest' = Inr p) \<or>
    (no_link img (canon @ [part]) \<and> dest_loop img n (canon @ [part]) rest = Inr p)"
proof (cases "part = ''/'' \<or> part = ''//''")
  case True
  with assms show ?thesis by auto
next
  case False
  show ?thesis
  proof (cases "Copying.lookup img (canon @ [part])")
    case (Found x)
    with assms False show ?thesis by (cases x) (auto simp: no_link_def res_simps split: if_splits)
  qed (use assms False in \<open>simp_all add: no_link_def\<close>)
qed

lemma dest_loop_no_link:
  "dest_loop img n canon parts = Inr p \<Longrightarrow> node_kind img = K_Dir \<Longrightarrow> (\<And>q. prefix q canon \<Longrightarrow> no_link img q) \<Longrightarrow>
   prefix q p \<Longrightarrow> no_link img q"
proof (induction n arbitrary: canon parts)
  case 0
  then show ?case by (cases parts) simp_all
next
  case (Suc n)
  show ?case
  proof (cases parts)
    case Nil
    with Suc.prems show ?thesis by simp
  next
    case (Cons part rest)
    have root: "no_link img q'" if "prefix q' []" for q' using that no_link_root [OF Suc.prems(2)] by simp
    from dest_loop_step [OF Suc.prems(1) [unfolded Cons]] show ?thesis
    proof (elim disjE exE conjE)
      fix rest' assume "dest_loop img n canon rest' = Inr p"
      from Suc.IH [OF this Suc.prems(2-4)] show ?thesis .
    next
      fix rest' assume "dest_loop img n [] rest' = Inr p"
      from Suc.IH [OF this Suc.prems(2) root Suc.prems(4)] show ?thesis .
    next
      assume l: "no_link img (canon @ [part])" and r: "dest_loop img n (canon @ [part]) rest = Inr p"
      from Suc.IH [OF r Suc.prems(2) no_link_snoc [OF Suc.prems(3) l] Suc.prems(4)] show ?thesis .
    qed
  qed
qed

section \<open>What COPY leaves alone\<close>

text \<open>Everything not at or below a path is as it was; a directory above it may have got entries.\<close>

definition confined :: "string list \<Rightarrow> node \<Rightarrow> node \<Rightarrow> bool" where
  "confined p n n' \<longleftrightarrow> (\<forall>q x. node_at n q = Some x \<longrightarrow> \<not> prefix p q \<longrightarrow> (\<exists>y. node_at n' q = Some y \<and> kept_as x y))"

lemma confinedD: "confined p n n' \<Longrightarrow> node_at n q = Some x \<Longrightarrow> \<not> prefix p q \<Longrightarrow> \<exists>y. node_at n' q = Some y \<and> kept_as x y"
  by (simp add: confined_def)

lemma confined_refl [simp]: "confined p n n"
  by (simp add: confined_def)

lemma confined_trans: "confined p n n' \<Longrightarrow> confined p n' n'' \<Longrightarrow> confined p n n''"
  unfolding confined_def by (meson kept_as_trans)

lemma confined_below: "confined (p @ q) n n' \<Longrightarrow> prefix r (p @ q) \<Longrightarrow> confined r n n'"
  unfolding confined_def by (meson prefix_order.trans)

lemma confined_root [simp]: "confined [] n n'"
  by (simp add: confined_def)

lemma confined_extends: "extends n n' \<Longrightarrow> confined p n n'"
  by (simp add: confined_def extends_def)

lemma node_alter_confined: "node_alter e f n p = Inr n' \<Longrightarrow> confined p n n'"
proof (induction e f n p arbitrary: n' rule: node_alter.induct)
  case (2 x f m es c)
  show ?case unfolding confined_def
  proof (intro allI impI)
    fix q z assume q: "node_at (Dir m es) q = Some z" "\<not> prefix [c] q"
    show "\<exists>y. node_at n' q = Some y \<and> kept_as z y"
      using 2 q by (cases q) (auto simp: dict_simps split: option.splits)
  qed
next
  case (3 x f m es c d ds)
  then obtain z z' where z: "map_of es c = Some z" "confined (d # ds) z z'" "n' = Dir m (AList.update c z' es)"
    by (auto simp: res_simps split: option.splits)
  show ?case unfolding confined_def
  proof (intro allI impI)
    fix q u assume q: "node_at (Dir m es) q = Some u" "\<not> prefix (c # d # ds) q"
    show "\<exists>y. node_at n' q = Some y \<and> kept_as u y"
      using z q by (cases q) (auto simp: dict_simps confined_def split: option.splits if_splits)
  qed
qed auto

lemma alter_dir_confined: "alter_dir f img p = Inr img' \<Longrightarrow> confined p img img'"
  by (auto simp: alter_dir_def res_simps split: if_splits dest!: node_alter_confined)

lemma copy_src_file_confined: "copy_src_file name src p img = Inr img' \<Longrightarrow> confined p img img'"
  by (auto simp: copy_src_file_def Let_def res_simps split: option.splits node.splits
      dest!: node_alter_confined intro: confined_below)

lemma copy_one_confined: "copy_one alive p s img = Inr img' \<Longrightarrow> confined p img img'"
  by (auto simp: copy_one_def split: option.splits node.splits intro: alter_dir_confined copy_src_file_confined)

lemma ensure_dest_extends: "ensure_dest w p img = Inr img' \<Longrightarrow> extends img img'"
  by (auto simp: ensure_dest_def res_simps split: if_splits option.splits
      dest!: mkdirs_extends intro: extends_trans)

lemma copy_all_confined: "foldr_res (copy_one alive p) srcs img = Inr img' \<Longrightarrow> confined p img img'"
  by (erule foldr_res_invariant [where P = "confined p img"]) (auto intro: confined_trans copy_one_confined)

text \<open>
  The check that the destination is in the image counts components and does not see what
  \<open>..\<close> does to them: a destination above the image passes.
\<close>

lemma dest_up_level_passes: "dest_in_image_p ''/s/img'' [''..'', ''etc''] = Inr True"
  by code_simp

section \<open>What COPY brings\<close>

lemma mkdirs_no_child: "mkdirs n p = Inr n' \<Longrightarrow> node_at n (p @ [c]) = None \<Longrightarrow> node_at n' (p @ [c]) = None"
proof (induction n p arbitrary: n' rule: mkdirs.induct)
  case (2 m es d cs)
  from "2.prems" obtain x where x: "mkdirs (case map_of es d of None \<Rightarrow> new_dir | Some n \<Rightarrow> n) cs = Inr x"
    and n': "n' = Dir m (AList.update d x es)" by (auto simp: res_simps)
  have "node_at (case map_of es d of None \<Rightarrow> new_dir | Some n \<Rightarrow> n) (cs @ [c]) = None"
    using "2.prems"(2) by (cases cs) (auto simp: new_dir_def split: option.splits)
  from "2.IH" [OF x this] show ?case by (simp add: n' dict_simps)
qed (auto split: node.splits)

text \<open>
  Where a file goes: into the destination if that is a directory, or will be made one because
  its name ends with a slash.
\<close>

definition copy_target :: "string \<Rightarrow> path \<Rightarrow> string list \<Rightarrow> node \<Rightarrow> string list" where
  "copy_target dst src p img =
     (case node_at img p of
        Some (Dir m es) \<Rightarrow> p @ [path_name src]
      | Some y \<Rightarrow> p
      | None \<Rightarrow> if suffix ''/'' dst then p @ [path_name src] else p)"

lemma copy_src_file_at:
  "copy_src_file name src p img = Inr img' \<Longrightarrow>
   node_at img' (case node_at img p of Some (Dir m es) \<Rightarrow> p @ [name] | _ \<Rightarrow> p) = Some (copied src)"
  by (auto simp: copy_src_file_def Let_def res_simps split: option.splits node.splits dest!: node_alter_same)

lemma ensure_dest_dir:
  assumes "ensure_dest True p img = Inr img'" "node_at img p = None"
  shows "\<exists>m es. node_at img' p = Some (Dir m es)"
proof -
  from assms(1) obtain n where n: "(case node_at img p of None \<Rightarrow> mkdirs img p
      | Some n \<Rightarrow> if node_kind n = K_Dir then Inr img else Inl (Fatal ''can't COPY: not a directory: %s'')) = Inr n"
    and r: "n = img' \<or> mkdirs n (butlast p) = Inr img'"
    by (auto simp: ensure_dest_def res_simps split: if_splits option.splits)
  from n assms(2) mkdirs_extends [of img p n] have d: "\<exists>m es. node_at n p = Some (Dir m es)" by simp
  from r have "extends n img'" using mkdirs_extends [of n _ img'] by auto
  with d show ?thesis by (fastforce dest: extendsD)
qed

lemma ensure_dest_absent:
  assumes "ensure_dest False p img = Inr img'" "node_at img p = None"
  shows "node_at img' p = None"
proof -
  from assms(2) have "p \<noteq> []" by auto
  with assms mkdirs_no_child [of img "butlast p" img' "last p"] show ?thesis
    by (auto simp: ensure_dest_def res_simps split: if_splits option.splits)
qed

lemma ensure_dest_target:
  assumes "ensure_dest (suffix ''/'' dst) p img = Inr img'"
  shows "(case node_at img' p of Some (Dir m es) \<Rightarrow> p @ [path_name src] | _ \<Rightarrow> p) = copy_target dst src p img"
proof (cases "node_at img p")
  case None
  then show ?thesis
  proof (cases "suffix ''/'' dst")
    case True
    with assms None ensure_dest_dir [of p img img'] show ?thesis by (auto simp: copy_target_def)
  next
    case False
    with assms None ensure_dest_absent [of p img img'] show ?thesis by (simp add: copy_target_def)
  qed
next
  case (Some x)
  from extendsD [OF ensure_dest_extends [OF assms] Some] Some show ?thesis
    by (cases x) (auto simp: copy_target_def)
qed

subsection \<open>Directories\<close>

fun names_distinct :: "node \<Rightarrow> bool" where
  "names_distinct (Dir m es) \<longleftrightarrow> dict_ok es \<and> list_all (\<lambda>(i, n). names_distinct n) es"
| "names_distinct _ \<longleftrightarrow> True"

text \<open>A tree has all files of another that are no directories, as copies.\<close>

definition has_copies :: "node \<Rightarrow> node \<Rightarrow> bool" where
  "has_copies src dst \<longleftrightarrow> (\<forall>q y. node_at src q = Some y \<longrightarrow>
     (if node_kind y = K_Dir then \<exists>m es. node_at dst q = Some (Dir m es) else node_at dst q = Some (copied y)))"

lemma has_copies_dir:
  "has_copies (Dir m es) (Dir m' es') \<longleftrightarrow>
   (\<forall>i x. map_of es i = Some x \<longrightarrow> (\<exists>z. map_of es' i = Some z \<and> has_copies x z))"
  (is "?l = ?r")
proof
  assume l: ?l
  show ?r
  proof (intro allI impI)
    fix i x assume x: "map_of es i = Some x"
    from l [unfolded has_copies_def, rule_format, of "[i]" x] x obtain z where z: "map_of es' i = Some z"
      by (auto split: if_splits option.splits)
    have "has_copies x z" unfolding has_copies_def
    proof (intro allI impI)
      fix q y assume "node_at x q = Some y"
      with l [unfolded has_copies_def, rule_format, of "i # q" y] x z show
       
        "if node_kind y = K_Dir then \<exists>m es. node_at z q = Some (Dir m es) else node_at z q = Some (copied y)" by (simp split: if_splits)
    qed
    with z show "\<exists>z. map_of es' i = Some z \<and> has_copies x z" by blast
  qed
next
  assume r: ?r
  show ?l unfolding has_copies_def
  proof (intro allI impI)
    fix q y assume y: "node_at (Dir m es) q = Some y"
    show "if node_kind y = K_Dir then \<exists>m es. node_at (Dir m' es') q = Some (Dir m es)
      else node_at (Dir m' es') q = Some (copied y)"
    proof (cases q)
      case Nil
      with y show ?thesis by auto
    next
      case (Cons i q')
      with y obtain x where x: "map_of es i = Some x" "node_at x q' = Some y" by (auto split: option.splits)
      with r obtain z where "map_of es' i = Some z" "has_copies x z" by blast
      with x Cons show ?thesis by (simp add: has_copies_def)
    qed
  qed
qed

lemma node_at_leaf: "(\<forall>m es. x \<noteq> Dir m es) \<Longrightarrow> node_at x q = Some y \<longleftrightarrow> q = [] \<and> y = x"
  by (cases x; cases q) auto

lemma has_copies_leaf: "(\<forall>m es. x \<noteq> Dir m es) \<Longrightarrow> node_kind x \<noteq> K_Dir \<Longrightarrow> has_copies x (copied x)"
  by (auto simp: has_copies_def node_at_leaf)

lemma replace_file_copies:
  "replace_file alive i x ed = Inr ed' \<Longrightarrow> \<forall>m es. x \<noteq> Dir m es \<Longrightarrow>
   (\<forall>j. j \<noteq> i \<longrightarrow> map_of ed' j = map_of ed j) \<and> (\<exists>z. map_of ed' i = Some z \<and> has_copies x z)"
  using has_copies_leaf [of x]
  by (auto simp: replace_file_def dict_simps res_simps split: if_splits option.splits node.splits)

definition merged :: "string \<Rightarrow> node \<Rightarrow> (string \<times> node) list \<Rightarrow> (string \<times> node) list \<Rightarrow> bool" where
  "merged i x ed ed' \<longleftrightarrow> (\<forall>j. j \<noteq> i \<longrightarrow> map_of ed' j = map_of ed j) \<and>
     (names_distinct x \<longrightarrow> (\<exists>z. map_of ed' i = Some z \<and> has_copies x z))"

lemma merge_entries_copies:
  assumes "\<And>i x ed ed'. x \<in> snd ` set es \<Longrightarrow> merge_entry alive i x ed = Inr ed' \<Longrightarrow> merged i x ed ed'"
    and "merge_entries alive es ed = Inr ed'" "names_distinct (Dir m es)"
  shows "has_copies (Dir m es) (Dir m' ed') \<and> (\<forall>j. j \<notin> fst ` set es \<longrightarrow> map_of ed' j = map_of ed j)"
  using assms
proof (induction es arbitrary: ed)
  case Nil
  then show ?case by (simp add: has_copies_dir)
next
  case (Cons e es)
  obtain i x where e: "e = (i, x)" by (cases e)
  from Cons.prems(2) e obtain ed1 where ed1: "merge_entry alive i x ed = Inr ed1" "merge_entries alive es ed1 = Inr ed'"
    by (auto simp: res_simps)
  from Cons.prems(3) e have d: "names_distinct x" "names_distinct (Dir m es)" "i \<notin> fst ` set es"
    by (auto simp: dict_ok_def)
  from Cons.prems(1) [OF _ ed1(1)] e have m: "merged i x ed ed1" by simp
  have "has_copies (Dir m es) (Dir m' ed')" and k: "\<forall>j. j \<notin> fst ` set es \<longrightarrow> map_of ed' j = map_of ed1 j"
    using Cons.IH [OF _ ed1(2) d(2)] Cons.prems(1) by auto
  moreover from m k d obtain z where "map_of ed' i = Some z" "has_copies x z" by (auto simp: merged_def)
  ultimately show ?case using m k by (auto simp: e has_copies_dir merged_def)
qed

lemma merge_dir_cases:
  assumes "merge_entry alive i (Dir m es) ed = Inr ed'"
  shows "\<exists>es0 es1 m1 ed0. merge_entries alive es es0 = Inr es1 \<and> ed' = AList.update i (Dir m1 es1) ed0 \<and>
    (\<forall>j. j \<noteq> i \<longrightarrow> map_of ed0 j = map_of ed j)"
proof (cases "map_of ed i")
  case None
  with assms show ?thesis by (auto simp: res_simps)
next
  case (Some y)
  show ?thesis
  proof (cases y)
    case (Lnk m' t)
    with assms Some show ?thesis by (force simp: res_simps dict_simps split: if_splits)
  next
    case (Dir m' es')
    with assms Some show ?thesis by (auto simp: res_simps)
  qed (use assms Some in \<open>force simp: res_simps dict_simps\<close>)+
qed

lemma merge_entry_copies: "merge_entry alive i x ed = Inr ed' \<Longrightarrow> merged i x ed ed'"
proof (induction x arbitrary: i ed ed')
  case (Dir m es)
  from merge_dir_cases [OF Dir.prems] obtain es0 es1 m1 ed0 where
    e: "merge_entries alive es es0 = Inr es1" "ed' = AList.update i (Dir m1 es1) ed0"
    "\<forall>j. j \<noteq> i \<longrightarrow> map_of ed0 j = map_of ed j" by blast
  have "names_distinct (Dir m es) \<Longrightarrow> has_copies (Dir m es) (Dir m1 es1)"
    using merge_entries_copies [OF _ e(1)] Dir.IH by (fastforce simp: snds.simps)
  with e show ?case by (auto simp: merged_def dict_simps)
qed (use replace_file_copies in \<open>force simp: merged_def\<close>)+

lemma alter_dir_copies:
  assumes "alter_dir (copy_src_dir alive (Dir m es)) img p = Inr img'" "names_distinct (Dir m es)"
  shows "\<exists>z. node_at img' p = Some z \<and> has_copies (Dir m es) z"
proof -
  from assms(1) obtain d d' where d: "copy_src_dir alive (Dir m es) d = Inr d'" "node_at img' p = Some d'"
    by (auto simp: alter_dir_def res_simps split: if_splits dest!: node_alter_same)
  from d(1) obtain m' es' es1 where "d' = Dir m' es1" "merge_entries alive es es' = Inr es1"
    by (auto simp: copy_src_dir_def res_simps split: node.splits)
  moreover from this have "has_copies (Dir m es) (Dir m' es1)"
    using merge_entries_copies [OF _ _ assms(2)] merge_entry_copies by blast
  ultimately show ?thesis using d by blast
qed

section \<open>Properties of COPY\<close>

text \<open>The destination as given, in the image\<close>

definition copy_dst :: "path \<Rightarrow> string \<Rightarrow> path" where
  "copy_dst wd dst = (if prefix ''/'' dst then Path [dst] else floordiv wd dst)"

lemma copy_executed:
  assumes "copy_execute alive unpack wd dst srcs img = Inr img'"
  shows "\<exists>p img1 s0. dest_realpath img (copy_dst wd dst) = Inr p \<and> ''..'' \<notin> set p \<and>
    (\<exists>srcs'. srcs = s0 # srcs') \<and>
    ensure_dest (suffix ''/'' dst \<or> length srcs > 1 \<or> source_dir_p s0) p img = Inr img1 \<and>
    foldr_res (copy_one alive p) srcs img1 = Inr img'"
  using assms by (auto simp: copy_execute_def Let_def copy_dst_def res_simps split: list.splits)


definition example_image :: node where
  "example_image = Dir (node_meta new_dir)
     [(''a'', Dir (node_meta new_dir) []), (''b'', new_file ''old''), (''l'', new_link ''/a'')]"


text \<open>
  C14: If COPY of one source succeeds, a file is where it should be, in the destination if
  that is a directory and else as the destination, with contents and metadata of the source; of a
  directory everything is below the destination, directories as directories and all else as copies.
\<close>

theorem copy_arrives:
  assumes "copy_execute alive unpack wd dst [(src, Some x)] img = Inr img'" "names_distinct x"
  shows "\<exists>p. dest_realpath img (copy_dst wd dst) = Inr p \<and>
    (if node_kind x = K_Dir then \<exists>z. node_at img' p = Some z \<and> has_copies x z
     else node_at img' (copy_target dst src p img) = Some (copied x))"
proof -
  from copy_executed [OF assms(1)] obtain p img1 where
    p: "dest_realpath img (copy_dst wd dst) = Inr p" and
    e: "ensure_dest (suffix ''/'' dst \<or> source_dir_p (src, Some x)) p img = Inr img1" and
    c: "copy_one alive p (src, Some x) img1 = Inr img'" by (auto simp: res_simps)
  show ?thesis
  proof (cases x)
    case (Reg m t)
    with e have "ensure_dest (suffix ''/'' dst) p img = Inr img1" by (simp add: source_dir_p_def)
    from ensure_dest_target [OF this] copy_src_file_at [of "path_name src" x p img1 img'] c p Reg
    show ?thesis by (auto simp: copy_one_def)
  next
    case (Dir m es)
    with c assms(2) alter_dir_copies [of alive m es img1 p img'] p show ?thesis by (simp add: copy_one_def)
  qed (use c in \<open>simp_all add: copy_one_def\<close>)
qed

lemma copy_arrives_witness:
  "\<exists>img'. copy_execute (\<lambda>_. True) ''/s/img'' ''/'' ''l/'' [(''/c/f'', Some (new_file ''x''))] example_image = Inr img' \<and>
     node_at img' [''a'', ''f''] = Some (copied (new_file ''x''))"
proof -
  have "is_ok (copy_execute (\<lambda>_. True) ''/s/img'' ''/'' ''l/'' [(''/c/f'', Some (new_file ''x''))] example_image)"
    by code_simp
  then obtain img' where c: "copy_execute (\<lambda>_. True) ''/s/img'' ''/'' ''l/'' [(''/c/f'', Some (new_file ''x''))]
      example_image = Inr img'" by (auto elim: is_ok.elims)
  have d: "dest_realpath example_image (copy_dst ''/'' ''l/'') = Inr [''a'']" by code_simp
  have t: "copy_target ''l/'' ''/c/f'' [''a''] example_image = [''a'', ''f'']" by code_simp
  from copy_arrives [OF c] d t c show ?thesis by (auto simp: new_file_def)
qed

section \<open>Metadata saved and loaded\<close>

lemma map_of_fold_delete: "map_of (fold AList.delete ks d) k = (if k \<in> set ks then None else map_of d k)"
  by (induction ks arbitrary: d) (auto simp: dict_simps)

lemma defaults_names:
  "map fst (concat (map (\<lambda>m. case map_of env m of None \<Rightarrow> [] | Some v \<Rightarrow> [(m, v)]) ms)) =
   filter (\<lambda>m. map_of env m \<noteq> None) ms"
  by (induction ms) (auto split: option.splits)

lemma all_arg_defaults_ok: "dict_ok (arg_defaults_magic env) \<and> dict_ok arg_defaults \<and> dict_ok (all_arg_defaults env)"
proof -
  have f: "map fst (arg_defaults_magic env) = filter (\<lambda>m. map_of env m \<noteq> None) args_magic"
    unfolding arg_defaults_magic_def by (rule defaults_names)
  have "distinct args_magic" by code_simp
  then have "dict_ok (arg_defaults_magic env)" unfolding dict_ok_def f by (rule distinct_filter)
  moreover have "dict_ok arg_defaults" by code_simp
  ultimately show ?thesis by (simp add: all_arg_defaults_def)
qed

text \<open>
  What JSON gives back: the code writes all dictionaries sorted by key, so that is the order
  they are read in.
\<close>

fun json_sorted :: "json \<Rightarrow> json" where
  "json_sorted (Arr xs) = Arr (map json_sorted xs)"
| "json_sorted (Obj d) = Obj (sort_key fst (map (\<lambda>(k, v). (k, json_sorted v)) d))"
| "json_sorted v = v"

definition metadata_sorted :: "metadata \<Rightarrow> metadata" where
  "metadata_sorted m = \<lparr>md_arch = json_sorted (md_arch m), md_arg = sort_key fst (md_arg m),
     md_cwd = json_sorted (md_cwd m), md_env = sort_key fst (md_env m), md_history = json_sorted (md_history m),
     md_labels = json_sorted (md_labels m), md_shell = json_sorted (md_shell m), md_volumes = md_volumes m\<rparr>"

definition file_sorted :: "metadata_file \<Rightarrow> metadata_file" where
  "file_sorted f = f\<lparr>mf_data := metadata_sorted (mf_data f)\<rparr>"

lemma map_of_filter_key: "map_of xs k = map_of (filter (\<lambda>p. fst p = k) xs) k"
  by (induction xs) auto

lemma map_of_sorted: "map_of (sort_key fst d) = map_of d"
proof
  fix k show "map_of (sort_key fst d) k = map_of d k"
    using map_of_filter_key [of "sort_key fst d" k] map_of_filter_key [of d k] by (simp add: sort_key_stable)
qed

lemma load_saved:
  "metadata_load env arch (Some (file_sorted (fst (metadata_save m)))) =
   (metadata_sorted m)\<lparr>md_arg := dict_update (sort_key fst (fold AList.delete args_magic (md_arg m))) (all_arg_defaults env)\<rparr>"
  by (simp add: metadata_load_def metadata_save_def Let_def file_sorted_def metadata_sorted_def)

text \<open>Volumes only add directories.\<close>

lemma volumes_extend: "foldr_res (\<lambda>v n. mkdirs n (volume_parts v)) vols n = Inr n' \<Longrightarrow> extends n n'"
  by (erule foldr_res_invariant [where P = "extends n"]) (auto dest: mkdirs_extends intro: extends_trans)

lemma extends_reg: "extends n n' \<Longrightarrow> node_at n p = Some (Reg m c) \<Longrightarrow> node_at n' p = Some (Reg m c)"
  using extendsD by fastforce

lemma save_metadata_files:
  assumes "save_metadata e d m w = (Inr (), w')"
  shows "\<exists>n md mt. map_of (cw_images w') d = Some n \<and>
    node_at n [''ch'', ''metadata.json''] = Some (Reg md (be_md_dumps e (fst (metadata_save m)) @ [newline])) \<and>
    node_at n [''ch'', ''environment''] = Some (Reg mt (environment_text (md_env m)))"
proof -
  obtain n n1 n2 n3 where
    1: "file_write (be_md_dumps e (fst (metadata_save m)) @ [newline]) n [''ch'', ''metadata.json''] = Inr n1" and
    2: "file_write (environment_text (md_env m)) n1 [''ch'', ''environment''] = Inr n2" and
    3: "foldr_res (\<lambda>v n. mkdirs n (volume_parts v)) (md_volumes m) n2 = Inr n3" and
    w: "map_of (cw_images w') d = Some n3"
    using assms by (auto simp: save_metadata_def put_image_def metadata_save_def Let_def io_simps dict_simps)
  obtain md where "node_at n1 [''ch'', ''metadata.json''] = Some (Reg md (be_md_dumps e (fst (metadata_save m)) @ [newline]))"
    using file_write_at [OF 1] by blast
  moreover obtain x y where "node_alter x (\<lambda>_. Some y) n1 [''ch'', ''environment''] = Inr n2"
    using file_write_alters [OF 2] by blast
  then have "node_at n2 [''ch'', ''metadata.json''] = node_at n1 [''ch'', ''metadata.json'']"
    by (rule node_alter_other) simp_all
  moreover obtain mt where "node_at n2 [''ch'', ''environment''] = Some (Reg mt (environment_text (md_env m)))"
    using file_write_at [OF 2] by blast
  ultimately have "node_at n3 [''ch'', ''metadata.json''] = Some (Reg md (be_md_dumps e (fst (metadata_save m)) @ [newline]))"
    "node_at n3 [''ch'', ''environment''] = Some (Reg mt (environment_text (md_env m)))"
    by (simp_all only: extends_reg [OF volumes_extend [OF 3]])
  with w show ?thesis by blast
qed

text \<open>What a build argument is after saving and loading\<close>

definition arg_reloaded :: "environ \<Rightarrow> metadata \<Rightarrow> string \<Rightarrow> string option" where
  "arg_reloaded env m k =
     (case map_of (all_arg_defaults env) k of
        Some v \<Rightarrow> Some v | None \<Rightarrow> if k \<in> set args_magic then None else map_of (md_arg m) k)"

text \<open>
  C15: Metadata saved in an image and loaded again, perhaps by another run, are the same, sorted,
  but for the build arguments: the defaults of the loading run win, and those that the saving run took
  from its host are gone. The file of environment variables has those of the metadata. JSON must
  read back what it wrote, with dictionaries in the order of their keys.
\<close>

theorem metadata_reloaded:
  assumes "save_metadata e d m w = (Inr (), w')"
    and "be_md_loads e' (be_md_dumps e (fst (metadata_save m)) @ [newline]) = Inr (file_sorted (fst (metadata_save m)))"
  shows "\<exists>args n mt. load_metadata e' d w' = (Inr ((metadata_sorted m)\<lparr>md_arg := args\<rparr>), w') \<and>
    map_of args = arg_reloaded (be_environ e') m \<and>
    map_of (cw_images w') d = Some n \<and> node_at n [''ch'', ''environment''] = Some (Reg mt (environment_text (md_env m)))"
proof -
  let ?args = "dict_update (sort_key fst (fold AList.delete args_magic (md_arg m))) (all_arg_defaults (be_environ e'))"
  from save_metadata_files [OF assms(1)] obtain n md mt where n: "map_of (cw_images w') d = Some n"
    "node_at n [''ch'', ''metadata.json''] = Some (Reg md (be_md_dumps e (fst (metadata_save m)) @ [newline]))"
    "node_at n [''ch'', ''environment''] = Some (Reg mt (environment_text (md_env m)))" by blast
  then have "load_metadata e' d w' = (Inr ((metadata_sorted m)\<lparr>md_arg := ?args\<rparr>), w')"
    by (simp add: load_metadata_def io_run assms(2) load_saved)
  moreover have "map_of ?args = arg_reloaded (be_environ e') m"
    using all_arg_defaults_ok [of "be_environ e'"]
    by (simp add: dict_simps fun_eq_iff arg_reloaded_def map_add_def map_of_fold_delete map_of_sorted split: option.splits)
  ultimately show ?thesis using n by blast
qed

definition example_metadata :: metadata where
  "example_metadata = (metadata_init [(''USER'', ''alice'')] ''amd64'')\<lparr>
     md_env := [(''PATH'', ''/bin'')], md_volumes := [''/data'']\<rparr>"

definition example_md_env :: "nat build_env" where
  "example_md_env = (example_build_env True)\<lparr>be_md_loads := \<lambda>s. Inr (file_sorted (fst (metadata_save example_metadata))),
     be_environ := [(''USER'', ''bob'')]\<rparr>"

lemma metadata_reloaded_witness:
  "\<exists>args. load_metadata example_md_env ''img'' (snd (save_metadata example_md_env ''img'' example_metadata example_bworld)) =
     (Inr ((metadata_sorted example_metadata)\<lparr>md_arg := args\<rparr>), snd (save_metadata example_md_env ''img'' example_metadata example_bworld)) \<and>
     map_of args ''USER'' = Some ''bob''"
proof -
  have "run_gives (save_metadata example_md_env ''img'' example_metadata) example_bworld (\<lambda>w. True)" by code_simp
  then show ?thesis
  proof (rule run_givesE)
    fix w' assume r: "save_metadata example_md_env ''img'' example_metadata example_bworld = (Inr (), w')"
    have l: "be_md_loads example_md_env (be_md_dumps example_md_env (fst (metadata_save example_metadata)) @ [newline]) =
        Inr (file_sorted (fst (metadata_save example_metadata)))" by (simp add: example_md_env_def)
    have "arg_reloaded (be_environ example_md_env) example_metadata ''USER'' = Some ''bob''" by code_simp
    with metadata_reloaded [OF r l] r show ?thesis by auto
  qed
qed

text \<open>
  A build argument of an image that has the name of a default is lost when the metadata are
  loaded.
\<close>

lemma default_arg_overrides: "arg_reloaded env (m\<lparr>md_arg := [(''PATH'', ''/opt/bin'')]\<rparr>) ''PATH'' = map_of arg_defaults ''PATH''"
  using all_arg_defaults_ok [of env]
  by (simp add: arg_reloaded_def all_arg_defaults_def dict_simps map_add_def arg_defaults_def)

end
